(* ===== verification/Prelude.thy ===== *)
theory Prelude
  imports Main
begin

text \<open>
  Shared vocabulary of the development: the Go types the model names
  (\<open>int\<close> for Go's \<open>int\<close>, a \<open>rune\<close> as one character), the commands a
  Bubble Tea update returns (\<open>tea.Cmd\<close>), the collection of simplification
  rules the component theories contribute to, and generic lemmas on lists that
  the text-input and focus proofs share.
\<close>

named_theorems form_simps "characteristic equations of the form model's operations"

type_synonym rune = char
  \<comment> \<open>one Go rune; the model treats every rune as one character\<close>

subsection \<open>Commands returned by an update (\<open>tea.Cmd\<close>)\<close>

text \<open>
  A Bubble Tea command is a function the runtime runs later. The model keeps
  the commands this program can return by name: no command (\<open>nil\<close>),
  \<open>tea.Quit\<close>, the cursor's blink command, and a batch.
\<close>

datatype cmd = NilCmd | QuitCmd | BlinkCmd | BatchCmd "cmd list"

text \<open>
  \<open>tea.Batch\<close> drops the \<open>nil\<close> commands, returns \<open>nil\<close> for none and the
  single command for one.
\<close>

definition tea_batch :: "cmd list \<Rightarrow> cmd" where
  "tea_batch cs = (case filter (\<lambda>c. c \<noteq> NilCmd) cs of
                     [] \<Rightarrow> NilCmd
                   | [c] \<Rightarrow> c
                   | cs' \<Rightarrow> BatchCmd cs')"

text \<open>Whether running a command makes the program quit.\<close>

fun quits :: "cmd \<Rightarrow> bool" where
  "quits QuitCmd = True"
| "quits (BatchCmd cs) = (\<exists>c\<in>set cs. quits c)"
| "quits _ = False"

subsection \<open>Messages delivered to an update (\<open>tea.Msg\<close>)\<close>

text \<open>
  A key press (\<open>tea.KeyMsg\<close>) is either typed runes or a named key
  (\<open>tab\<close>, \<open>enter\<close>, \<open>ctrl+r\<close>, \<dots>); \<open>KeyMsg.String\<close> is the runes
  themselves or the key's name, and every dispatch of the program compares that
  string. The cursor's blink tick is the other message the form receives.
\<close>

datatype key = KeyRunes "rune list" | KeyNamed string

datatype msg = KeyMsg key | BlinkMsg | OtherMsg

fun key_string :: "key \<Rightarrow> string" where
  "key_string (KeyRunes rs) = rs"
| "key_string (KeyNamed s) = s"

fun key_runes :: "key \<Rightarrow> rune list" where
  "key_runes (KeyRunes rs) = rs"
| "key_runes (KeyNamed s) = []"

subsection \<open>Lists\<close>

text \<open>Splicing a list into another at a position, as slices do in Go.\<close>

lemma length_splice [simp]:
  "p \<le> length xs \<Longrightarrow> length (take p xs @ ys @ drop p xs) = length xs + length ys"
  by simp

lemma quits_tea_batch [simp]:
  "quits (tea_batch cs) \<longleftrightarrow> (\<exists>c\<in>set cs. quits c)"
proof -
  have "(\<exists>c\<in>set cs. quits c) \<longleftrightarrow> (\<exists>c\<in>set (filter (\<lambda>c. c \<noteq> NilCmd) cs). quits c)"
    by auto
  then show ?thesis
    by (cases "filter (\<lambda>c. c \<noteq> NilCmd) cs" rule: remdups_adj.cases)
       (simp_all add: tea_batch_def)
qed

lemma tea_batch_one:
  assumes "i < length cs" "\<forall>j < length cs. j \<noteq> i \<longrightarrow> cs ! j = NilCmd"
  shows "tea_batch cs = cs ! i"
proof -
  obtain c where c: "c = cs ! i" by simp
  have e: "cs = (replicate (length cs) NilCmd)[i := c]"
    using assms c by (intro nth_equalityI) (auto simp: nth_list_update)
  have "filter (\<lambda>c. c \<noteq> NilCmd) cs = filter (\<lambda>c. c \<noteq> NilCmd) ((replicate (length cs) NilCmd)[i := c])"
    using e by (rule arg_cong)
  also have "\<dots> = (if c = NilCmd then [] else [c])"
    using assms(1) by (simp add: upd_conv_take_nth_drop)
  finally show ?thesis using c by (simp add: tea_batch_def)
qed

lemma map_upt_nth [simp]: "map (\<lambda>i. f (xs ! i)) [0..<length xs] = map f xs"
  by (rule nth_equalityI) simp_all

lemma map_eq_replicate_if_all:
  "(\<forall>x \<in> set xs. f x = c) \<Longrightarrow> map f xs = replicate (length xs) c"
  by (induction xs) auto

lemma nth_map_index [simp]:
  "i < length xs \<Longrightarrow> map (\<lambda>j. f j (xs ! j)) [0..<length xs] ! i = f i (xs ! i)"
  by simp

end
