(* ===== verification/Json.thy ===== *)
theory Json
  imports Prelude
begin

text \<open>
  JSON text as \<open>encoding/json\<close> writes and reads it for this program
  (\<open>json.Marshal\<close> and \<open>json.Unmarshal\<close> in \<open>createTask\<close>, src/main.go
  lines 54 and 60). The library is not part of the repository; the model
  follows RFC 8259 and the documented behaviour of Go 1.22 and later:
  \<^item> \<open>Marshal\<close> writes no white space, escapes \<open>"\<close>, \<open>\\\<close>, the control
    characters (\<open>\b \f \n \r \t\<close> by name, the others as \<open>\u00XX\<close>) and,
    for HTML safety, \<open><\<close>, \<open>>\<close>, \<open>&\<close> as \<open>< > &\<close>;
  \<^item> \<open>Unmarshal\<close> first checks that the whole input is one JSON value
    surrounded by white space, then decodes it; \<open>\uXXXX\<close> escapes become
    UTF-8, a surrogate pair one code point, a lone surrogate U+FFFD.
  Strings are byte strings (\<open>char list\<close>); bytes from 0x80 up are copied as
  they are on both sides, which is the library's behaviour on valid UTF-8
  (the replacement of invalid UTF-8 is not modelled). Numbers are kept as
  their literal text. The parser takes a fuel argument, one unit per nested
  call; \<open>json_parse\<close> gives it one unit per input character, which is enough
  because every call consumes a character.
\<close>

datatype json =
    JNull
  | JBool bool
  | JNumber string
  | JString string
  | JArray "json list"
  | JObject "(string \<times> json) list"

subsection \<open>Characters\<close>

abbreviation dq :: char where "dq \<equiv> CHR 0x22" \<comment> \<open>the double quote\<close>
abbreviation bsl :: char where "bsl \<equiv> CHR 0x5C" \<comment> \<open>the backslash\<close>

definition is_ws :: "char \<Rightarrow> bool" where
  "is_ws c \<longleftrightarrow> c \<in> set [CHR '' '', CHR 0x09, CHR 0x0A, CHR 0x0D]"

definition is_digit :: "char \<Rightarrow> bool" where
  "is_digit c \<longleftrightarrow> (48::nat) \<le> of_char c \<and> of_char c \<le> (57::nat)"

definition hex_digit :: "nat \<Rightarrow> char" where
  "hex_digit n = ''0123456789abcdef'' ! (n mod 16)"

definition hex_val :: "char \<Rightarrow> nat option" where
  "hex_val c =
     (let n = (of_char c :: nat) in
      if 48 \<le> n \<and> n \<le> 57 then Some (n - 48)
      else if 97 \<le> n \<and> n \<le> 102 then Some (n - 87)
      else if 65 \<le> n \<and> n \<le> 70 then Some (n - 55)
      else None)"

fun hex4 :: "string \<Rightarrow> nat option" where
  "hex4 [a, b, c, d] =
     (case (hex_val a, hex_val b, hex_val c, hex_val d) of
        (Some w, Some x, Some y, Some z) \<Rightarrow> Some (((w * 16 + x) * 16 + y) * 16 + z)
      | _ \<Rightarrow> None)"
| "hex4 _ = None"

text \<open>UTF-8 encoding of a code point (\<open>utf8.EncodeRune\<close>).\<close>

definition utf8_encode :: "nat \<Rightarrow> string" where
  "utf8_encode n =
     (if n < 0x80 then [char_of n]
      else if n < 0x800 then [char_of (0xC0 + n div 64), char_of (0x80 + n mod 64)]
      else if n < 0x10000 then
        [char_of (0xE0 + n div 4096), char_of (0x80 + (n div 64) mod 64), char_of (0x80 + n mod 64)]
      else [char_of (0xF0 + n div 262144), char_of (0x80 + (n div 4096) mod 64),
            char_of (0x80 + (n div 64) mod 64), char_of (0x80 + n mod 64)])"

subsection \<open>Printing (\<open>json.Marshal\<close>)\<close>

definition escape_char :: "char \<Rightarrow> string" where
  "escape_char c =
     (if c = dq then [bsl, dq]
      else if c = bsl then [bsl, bsl]
      else if c = CHR 0x0A then [bsl, CHR ''n'']
      else if c = CHR 0x0D then [bsl, CHR ''r'']
      else if c = CHR 0x09 then [bsl, CHR ''t'']
      else if c = CHR 0x08 then [bsl, CHR ''b'']
      else if c = CHR 0x0C then [bsl, CHR ''f'']
      else if of_char c < (0x20::nat) \<or> c \<in> set ''<>&'' then
        [bsl, CHR ''u'', CHR ''0'', CHR ''0''] @ [hex_digit (of_char c div 16), hex_digit (of_char c)]
      else [c])"

definition quote :: "string \<Rightarrow> string" where
  "quote s = dq # concat (map escape_char s) @ [dq]"

fun print_json :: "json \<Rightarrow> string" where
  "print_json JNull = ''null''"
| "print_json (JBool b) = (if b then ''true'' else ''false'')"
| "print_json (JNumber n) = n"
| "print_json (JString s) = quote s"
| "print_json (JArray []) = ''[]''"
| "print_json (JArray (v # vs)) =
     CHR ''['' # print_json v @ concat (map (\<lambda>w. CHR '','' # print_json w) vs) @ '']''"
| "print_json (JObject []) = ''{}''"
| "print_json (JObject (kv # kvs)) =
     CHR ''{'' # quote (fst kv) @ CHR '':'' # print_json (snd kv)
       @ concat (map (\<lambda>kw. CHR '','' # quote (fst kw) @ CHR '':'' # print_json (snd kw)) kvs) @ ''}''"

subsection \<open>Parsing (\<open>json.Unmarshal\<close>'s scanner)\<close>

definition skip_ws :: "string \<Rightarrow> string" where
  "skip_ws s = dropWhile is_ws s"

text \<open>
  One escape after a backslash: the decoded bytes and how many characters of
  the input after the backslash it used.
\<close>

definition unescape :: "string \<Rightarrow> (string \<times> nat) option" where
  "unescape s =
     (case s of
        [] \<Rightarrow> None
      | e # cs \<Rightarrow>
          if e = dq \<or> e = bsl \<or> e = CHR ''/'' then Some ([e], 1)
          else if e = CHR ''b'' then Some ([CHR 0x08], 1)
          else if e = CHR ''f'' then Some ([CHR 0x0C], 1)
          else if e = CHR ''n'' then Some ([CHR 0x0A], 1)
          else if e = CHR ''r'' then Some ([CHR 0x0D], 1)
          else if e = CHR ''t'' then Some ([CHR 0x09], 1)
          else if e = CHR ''u'' then
            (case hex4 (take 4 cs) of
               None \<Rightarrow> None
             | Some h \<Rightarrow>
                 if 0xD800 \<le> h \<and> h < 0xDC00 then
                   (case (if take 2 (drop 4 cs) = [bsl, CHR ''u''] then hex4 (take 4 (drop 6 cs)) else None) of
                      Some l \<Rightarrow>
                        if 0xDC00 \<le> l \<and> l < 0xE000
                        then Some (utf8_encode (0x10000 + (h - 0xD800) * 0x400 + (l - 0xDC00)), 11)
                        else Some (utf8_encode 0xFFFD, 5)
                    | None \<Rightarrow> Some (utf8_encode 0xFFFD, 5))
                 else if 0xDC00 \<le> h \<and> h < 0xE000 then Some (utf8_encode 0xFFFD, 5)
                 else Some (utf8_encode h, 5))
          else None)"

text \<open>The body of a string literal, after its opening quote.\<close>

function parse_string :: "string \<Rightarrow> (string \<times> string) option" where
  "parse_string [] = None"
| "parse_string (c # cs) =
     (if c = dq then Some ([], cs)
      else if c = bsl then
        (case unescape cs of
           None \<Rightarrow> None
         | Some (out, n) \<Rightarrow>
             (case parse_string (drop n cs) of None \<Rightarrow> None | Some (t, r) \<Rightarrow> Some (out @ t, r)))
      else if of_char c < (0x20::nat) then None
      else (case parse_string cs of None \<Rightarrow> None | Some (t, r) \<Rightarrow> Some (c # t, r)))"
  by pat_completeness auto
termination
  by (relation "measure length") auto

text \<open>Number literals: \<open>-? (0 | [1-9][0-9]*) (.[0-9]+)? ([eE][+-]?[0-9]+)?\<close>.\<close>

definition number_int :: "string \<Rightarrow> (string \<times> string) option" where
  "number_int s =
     (case s of
        [] \<Rightarrow> None
      | c # cs \<Rightarrow>
          if c = CHR ''0'' then Some (''0'', cs)
          else if is_digit c then Some (c # takeWhile is_digit cs, dropWhile is_digit cs)
          else None)"

definition number_frac :: "string \<Rightarrow> (string \<times> string) option" where
  "number_frac s =
     (case s of
        c # cs \<Rightarrow>
          if c = CHR ''.'' then
            (if takeWhile is_digit cs = [] then None
             else Some (c # takeWhile is_digit cs, dropWhile is_digit cs))
          else Some ([], s)
      | [] \<Rightarrow> Some ([], s))"

definition number_exp :: "string \<Rightarrow> (string \<times> string) option" where
  "number_exp s =
     (case s of
        c # cs \<Rightarrow>
          if c = CHR ''e'' \<or> c = CHR ''E'' then
            (let (sg, ds) = (if cs \<noteq> [] \<and> hd cs \<in> set ''+-'' then ([hd cs], tl cs) else ([], cs))
             in if takeWhile is_digit ds = [] then None
                else Some (c # sg @ takeWhile is_digit ds, dropWhile is_digit ds))
          else Some ([], s)
      | [] \<Rightarrow> Some ([], s))"

definition parse_number :: "string \<Rightarrow> (string \<times> string) option" where
  "parse_number s =
     (let (sg, s1) = (if s \<noteq> [] \<and> hd s = CHR ''-'' then (''-'', tl s) else ([], s))
      in case number_int s1 of
           None \<Rightarrow> None
         | Some (ip, s2) \<Rightarrow>
             (case number_frac s2 of
                None \<Rightarrow> None
              | Some (fp, s3) \<Rightarrow>
                  (case number_exp s3 of
                     None \<Rightarrow> None
                   | Some (ep, s4) \<Rightarrow> Some (sg @ ip @ fp @ ep, s4))))"

text \<open>
  Values, the rest of an array after an element, a member of an object and
  the rest of an object after a member; each call spends one unit of fuel.
\<close>

fun parse_value :: "nat \<Rightarrow> string \<Rightarrow> (json \<times> string) option"
and parse_array_rest :: "nat \<Rightarrow> json list \<Rightarrow> string \<Rightarrow> (json list \<times> string) option"
and parse_member :: "nat \<Rightarrow> string \<Rightarrow> ((string \<times> json) \<times> string) option"
and parse_object_rest ::
  "nat \<Rightarrow> (string \<times> json) list \<Rightarrow> string \<Rightarrow> ((string \<times> json) list \<times> string) option"
where
  "parse_value 0 s = None"
| "parse_value (Suc f) s =
     (case skip_ws s of
        [] \<Rightarrow> None
      | c # cs \<Rightarrow>
          if c = CHR ''{'' then
            (if skip_ws cs \<noteq> [] \<and> hd (skip_ws cs) = CHR ''}'' then Some (JObject [], tl (skip_ws cs))
             else case parse_member f cs of
                    None \<Rightarrow> None
                  | Some (kv, r) \<Rightarrow>
                      (case parse_object_rest f [kv] r of
                         None \<Rightarrow> None
                       | Some (kvs, r') \<Rightarrow> Some (JObject kvs, r')))
          else if c = CHR ''['' then
            (if skip_ws cs \<noteq> [] \<and> hd (skip_ws cs) = CHR '']'' then Some (JArray [], tl (skip_ws cs))
             else case parse_value f cs of
                    None \<Rightarrow> None
                  | Some (v, r) \<Rightarrow>
                      (case parse_array_rest f [v] r of
                         None \<Rightarrow> None
                       | Some (vs, r') \<Rightarrow> Some (JArray vs, r')))
          else if c = dq then
            (case parse_string cs of None \<Rightarrow> None | Some (t, r) \<Rightarrow> Some (JString t, r))
          else if c = CHR ''t'' then (if take 3 cs = ''rue'' then Some (JBool True, drop 3 cs) else None)
          else if c = CHR ''f'' then (if take 4 cs = ''alse'' then Some (JBool False, drop 4 cs) else None)
          else if c = CHR ''n'' then (if take 3 cs = ''ull'' then Some (JNull, drop 3 cs) else None)
          else if c = CHR ''-'' \<or> is_digit c then
            (case parse_number (c # cs) of None \<Rightarrow> None | Some (n, r) \<Rightarrow> Some (JNumber n, r))
          else None)"
| "parse_array_rest 0 acc s = None"
| "parse_array_rest (Suc f) acc s =
     (case skip_ws s of
        [] \<Rightarrow> None
      | c # cs \<Rightarrow>
          if c = CHR '']'' then Some (acc, cs)
          else if c = CHR '','' then
            (case parse_value f cs of
               None \<Rightarrow> None
             | Some (v, r) \<Rightarrow> parse_array_rest f (acc @ [v]) r)
          else None)"
| "parse_member 0 s = None"
| "parse_member (Suc f) s =
     (case skip_ws s of
        [] \<Rightarrow> None
      | c # cs \<Rightarrow>
          if c = dq then
            (case parse_string cs of
               None \<Rightarrow> None
             | Some (k, r) \<Rightarrow>
                 (case skip_ws r of
                    [] \<Rightarrow> None
                  | c' # r' \<Rightarrow>
                      if c' = CHR '':'' then
                        (case parse_value f r' of None \<Rightarrow> None | Some (v, r'') \<Rightarrow> Some ((k, v), r''))
                      else None))
          else None)"
| "parse_object_rest 0 acc s = None"
| "parse_object_rest (Suc f) acc s =
     (case skip_ws s of
        [] \<Rightarrow> None
      | c # cs \<Rightarrow>
          if c = CHR ''}'' then Some (acc, cs)
          else if c = CHR '','' then
            (case parse_member f cs of
               None \<Rightarrow> None
             | Some (kv, r) \<Rightarrow> parse_object_rest f (acc @ [kv]) r)
          else None)"

text \<open>The whole input must be one value surrounded by white space.\<close>

definition json_parse :: "string \<Rightarrow> json option" where
  "json_parse s =
     (case parse_value (Suc (length s)) s of
        None \<Rightarrow> None
      | Some (v, r) \<Rightarrow> if skip_ws r = [] then Some v else None)"

text \<open>
  The fuel a value needs: one unit per parser call that reads it. A
  number-free value is one that \<open>Marshal\<close> writes for this program's
  types (no Go field here is numeric).
\<close>

fun parse_fuel :: "json \<Rightarrow> nat" where
  "parse_fuel (JArray vs) = Suc (sum_list (map (\<lambda>v. Suc (parse_fuel v)) vs))"
| "parse_fuel (JObject kvs) = Suc (sum_list (map (\<lambda>kv. Suc (Suc (parse_fuel (snd kv)))) kvs))"
| "parse_fuel JNull = 1"
| "parse_fuel (JBool _) = 1"
| "parse_fuel (JNumber _) = 1"
| "parse_fuel (JString _) = 1"

fun json_nonum :: "json \<Rightarrow> bool" where
  "json_nonum (JNumber _) = False"
| "json_nonum (JArray vs) = list_all json_nonum vs"
| "json_nonum (JObject kvs) = list_all (\<lambda>kv. json_nonum (snd kv)) kvs"
| "json_nonum _ = True"

subsection \<open>Printing then parsing gives the value back\<close>

lemma hex_val_hex_digit: "hex_val (hex_digit n) = Some (n mod 16)"
proof -
  have "n mod 16 \<in> set [0..<16]" by simp
  then show ?thesis
    by (auto simp: hex_digit_def hex_val_def upt_rec)
qed

lemma skip_ws_Cons [simp]: "\<not> is_ws c \<Longrightarrow> skip_ws (c # s) = c # s"
  by (simp add: skip_ws_def)

lemma hex_val_zero [simp]: "hex_val (CHR ''0'') = Some 0"
  by (simp add: hex_val_def)

lemma hex4_byte:
  "(n::nat) < 256 \<Longrightarrow> hex4 [CHR ''0'', CHR ''0'', hex_digit (n div 16), hex_digit n] = Some n"
  by (simp add: hex_val_hex_digit)

lemma parse_string_bsl:
  "unescape cs = Some (out, n) \<Longrightarrow>
   parse_string (bsl # cs) = (case parse_string (drop n cs) of None \<Rightarrow> None | Some (t, r) \<Rightarrow> Some (out @ t, r))"
  by simp

lemma esc_named:
  "c \<in> {dq, bsl, CHR 0x0A, CHR 0x0D, CHR 0x09, CHR 0x08, CHR 0x0C} \<Longrightarrow>
   parse_string (escape_char c @ xs) = (case parse_string xs of None \<Rightarrow> None | Some (t, r) \<Rightarrow> Some (c # t, r))"
  apply (simp only: insert_iff empty_iff simp_thms)
  apply (elim disjE)
  apply (simp_all add: escape_char_def unescape_def split: option.split)
  done

lemma esc_u:
  assumes "c \<notin> {dq, bsl, CHR 0x0A, CHR 0x0D, CHR 0x09, CHR 0x08, CHR 0x0C}"
    and "of_char c < (0x20::nat) \<or> c \<in> set ''<>&''"
  shows "parse_string (escape_char c @ xs) = (case parse_string xs of None \<Rightarrow> None | Some (t, r) \<Rightarrow> Some (c # t, r))"
proof -
  have c: "of_char c < (256::nat)" by (rule nat_of_char_less_256)
  have lt: "of_char c < (0x80::nat)" using assms(2) by auto
  have h: "hex4 (take 4 (CHR ''0'' # CHR ''0'' # hex_digit (of_char c div 16) # hex_digit (of_char c) # xs))
           = Some (of_char c)"
    using hex4_byte[OF c] by simp
  have e: "escape_char c = bsl # CHR ''u'' # CHR ''0'' # CHR ''0''
             # hex_digit (of_char c div 16) # hex_digit (of_char c) # []"
    using assms by (simp add: escape_char_def)
  have "unescape (CHR ''u'' # CHR ''0'' # CHR ''0'' # hex_digit (of_char c div 16) # hex_digit (of_char c) # xs)
        = Some ([c], 5)"
    using h lt by (simp add: unescape_def utf8_encode_def)
  then show ?thesis using e by (simp split: option.split)
qed

lemma esc_plain:
  assumes "c \<notin> {dq, bsl, CHR 0x0A, CHR 0x0D, CHR 0x09, CHR 0x08, CHR 0x0C}"
    and "\<not> (of_char c < (0x20::nat) \<or> c \<in> set ''<>&'')"
  shows "parse_string (escape_char c @ xs) = (case parse_string xs of None \<Rightarrow> None | Some (t, r) \<Rightarrow> Some (c # t, r))"
proof -
  have "escape_char c = [c]" using assms by (simp add: escape_char_def)
  then show ?thesis using assms by (simp split: option.split)
qed

lemma parse_string_escape_char:
  "parse_string (escape_char c @ xs) = (case parse_string xs of None \<Rightarrow> None | Some (t, r) \<Rightarrow> Some (c # t, r))"
proof (cases "c \<in> {dq, bsl, CHR 0x0A, CHR 0x0D, CHR 0x09, CHR 0x08, CHR 0x0C}")
  case True
  then show ?thesis by (rule esc_named)
next
  case False
  show ?thesis
  proof (cases "of_char c < (0x20::nat) \<or> c \<in> set ''<>&''")
    case True
    with False show ?thesis by (rule esc_u)
  next
    case False2: False
    with False show ?thesis by (rule esc_plain)
  qed
qed

lemma parse_string_quote:
  "parse_string (concat (map escape_char s) @ dq # rest) = Some (s, rest)"
  by (induction s) (simp_all add: parse_string_escape_char)

lemma print_json_start:
  "json_nonum v \<Longrightarrow> \<exists>c cs. print_json v = c # cs \<and> c \<in> {CHR ''n'', CHR ''t'', CHR ''f'', dq, CHR ''['', CHR ''{''}"
  by (cases v rule: print_json.cases) (auto simp: quote_def)

lemma print_json_delim:
  assumes "json_nonum v"
  shows "skip_ws (print_json v @ r) = print_json v @ r"
    and "hd (print_json v @ r) \<noteq> CHR '']''" "hd (print_json v @ r) \<noteq> CHR ''}''"
    and "print_json v @ r \<noteq> []"
  using print_json_start[OF assms] by (auto simp: is_ws_def)

lemma parse_array_rest_print:
  assumes "\<And>w f r. w \<in> set ws \<Longrightarrow> parse_fuel w < f \<Longrightarrow> parse_value f (print_json w @ r) = Some (w, r)"
    and "sum_list (map (\<lambda>w. Suc (parse_fuel w)) ws) < f"
  shows "parse_array_rest f acc (concat (map (\<lambda>w. CHR '','' # print_json w) ws) @ CHR '']'' # rest)
         = Some (acc @ ws, rest)"
  using assms
proof (induction ws arbitrary: f acc)
  case Nil
  then obtain g where "f = Suc g" by (cases f) auto
  then show ?case by (simp add: is_ws_def)
next
  case (Cons w ws)
  then obtain g where f: "f = Suc g" by (cases f) auto
  with Cons.prems(2) have w: "parse_fuel w < g" and ws: "sum_list (map (\<lambda>w. Suc (parse_fuel w)) ws) < g"
    by simp_all
  let ?tail = "concat (map (\<lambda>w. CHR '','' # print_json w) ws) @ CHR '']'' # rest"
  have v: "parse_value g (print_json w @ ?tail) = Some (w, ?tail)"
    using Cons.prems(1) w by simp
  have "parse_array_rest g (acc @ [w]) ?tail = Some ((acc @ [w]) @ ws, rest)"
    using Cons.IH[OF _ ws] Cons.prems(1) by simp
  with v f show ?case by (simp add: is_ws_def)
qed

lemma parse_member_print:
  assumes "\<And>f r. parse_fuel v < f \<Longrightarrow> parse_value f (print_json v @ r) = Some (v, r)"
    and "Suc (parse_fuel v) < f"
  shows "parse_member f (quote k @ CHR '':'' # print_json v @ rest) = Some ((k, v), rest)"
proof -
  obtain g where f: "f = Suc g" and g: "parse_fuel v < g" using assms(2) by (cases f) auto
  have s: "parse_string (concat (map escape_char k) @ dq # CHR '':'' # print_json v @ rest)
           = Some (k, CHR '':'' # print_json v @ rest)"
    by (rule parse_string_quote)
  show ?thesis using s assms(1)[OF g] f by (simp add: quote_def is_ws_def)
qed

lemma parse_object_rest_print:
  assumes "\<And>kv f r. kv \<in> set kvs \<Longrightarrow> parse_fuel (snd kv) < f
             \<Longrightarrow> parse_value f (print_json (snd kv) @ r) = Some (snd kv, r)"
    and "sum_list (map (\<lambda>kv. Suc (Suc (parse_fuel (snd kv)))) kvs) < f"
  shows "parse_object_rest f acc
           (concat (map (\<lambda>kw. CHR '','' # quote (fst kw) @ CHR '':'' # print_json (snd kw)) kvs)
            @ CHR ''}'' # rest)
         = Some (acc @ kvs, rest)"
  using assms
proof (induction kvs arbitrary: f acc)
  case Nil
  then obtain g where "f = Suc g" by (cases f) auto
  then show ?case by (simp add: is_ws_def)
next
  case (Cons kv kvs)
  then obtain g where f: "f = Suc g" by (cases f) auto
  with Cons.prems(2) have kv: "Suc (parse_fuel (snd kv)) < g"
    and kvs: "sum_list (map (\<lambda>kv. Suc (Suc (parse_fuel (snd kv)))) kvs) < g"
    by simp_all
  let ?tail = "concat (map (\<lambda>kw. CHR '','' # quote (fst kw) @ CHR '':'' # print_json (snd kw)) kvs)
               @ CHR ''}'' # rest"
  have m: "parse_member g (quote (fst kv) @ CHR '':'' # print_json (snd kv) @ ?tail) = Some ((fst kv, snd kv), ?tail)"
    using Cons.prems(1) kv by (intro parse_member_print) simp_all
  have "parse_object_rest g (acc @ [kv]) ?tail = Some ((acc @ [kv]) @ kvs, rest)"
    using Cons.IH[OF _ kvs] Cons.prems(1) by simp
  with m f show ?case by (simp add: is_ws_def)
qed

lemma parse_value_print:
  "json_nonum v \<Longrightarrow> parse_fuel v < f \<Longrightarrow> parse_value f (print_json v @ rest) = Some (v, rest)"
proof (induction v arbitrary: f rest rule: parse_fuel.induct)
  case (1 vs)
  then obtain g where f: "f = Suc g" by (cases f) auto
  show ?case
  proof (cases vs)
    case Nil
    with f show ?thesis by (simp add: is_ws_def)
  next
    case (Cons v ws)
    let ?tail = "concat (map (\<lambda>w. CHR '','' # print_json w) ws) @ CHR '']'' # rest"
    from "1.prems" Cons f have nv: "json_nonum v" and g: "parse_fuel v < g"
      and gs: "sum_list (map (\<lambda>w. Suc (parse_fuel w)) ws) < g"
      by simp_all
    have v: "parse_value g (print_json v @ ?tail) = Some (v, ?tail)"
      using "1.IH"[of v] Cons nv g by simp
    have r: "parse_array_rest g [v] ?tail = Some ([v] @ ws, rest)"
      using "1.IH" "1.prems"(1) Cons gs by (intro parse_array_rest_print) (simp_all add: list_all_iff)
    show ?thesis using v r f Cons print_json_delim[OF nv, of ?tail] by (simp add: is_ws_def)
  qed
next
  case (2 kvs)
  then obtain g where f: "f = Suc g" by (cases f) auto
  show ?case
  proof (cases kvs)
    case Nil
    with f show ?thesis by (simp add: is_ws_def)
  next
    case (Cons kv ws)
    let ?tail = "concat (map (\<lambda>kw. CHR '','' # quote (fst kw) @ CHR '':'' # print_json (snd kw)) ws)
                 @ CHR ''}'' # rest"
    from "2.prems" Cons f have nv: "json_nonum (snd kv)" and g: "Suc (parse_fuel (snd kv)) < g"
      and gs: "sum_list (map (\<lambda>kv. Suc (Suc (parse_fuel (snd kv)))) ws) < g"
      by simp_all
    have m: "parse_member g (quote (fst kv) @ CHR '':'' # print_json (snd kv) @ ?tail) = Some ((fst kv, snd kv), ?tail)"
      using "2.IH"[of kv] Cons nv g by (intro parse_member_print) simp_all
    have r: "parse_object_rest g [kv] ?tail = Some ([kv] @ ws, rest)"
      using "2.IH" "2.prems"(1) Cons gs by (intro parse_object_rest_print) (simp_all add: list_all_iff)
    show ?thesis using m r f Cons by (simp add: quote_def is_ws_def)
  qed
next
  case (3 f rest)
  then obtain g where "f = Suc g" by (cases f) auto
  then show ?case by (simp add: is_ws_def)
next
  case (4 b f rest)
  then obtain g where "f = Suc g" by (cases f) auto
  then show ?case by (simp add: is_ws_def)
next
  case (5 n f rest)
  then show ?case by simp
next
  case (6 s f rest)
  then obtain g where "f = Suc g" by (cases f) auto
  then show ?case by (simp add: is_ws_def quote_def parse_string_quote)
qed

lemma quote_length: "2 \<le> length (quote s)"
  by (simp add: quote_def)

lemma parse_fuel_le_length: "json_nonum v \<Longrightarrow> parse_fuel v \<le> length (print_json v)"
proof (induction v rule: parse_fuel.induct)
  case (1 vs)
  show ?case
  proof (cases vs)
    case (Cons v ws)
    have "sum_list (map (\<lambda>w. Suc (parse_fuel w)) ws) \<le> sum_list (map (\<lambda>w. Suc (length (print_json w))) ws)"
      using "1.IH" "1.prems" Cons by (intro sum_list_mono) (simp add: list_all_iff)
    then show ?thesis using "1.IH"[of v] "1.prems" Cons by (simp add: length_concat comp_def)
  qed simp
next
  case (2 kvs)
  show ?case
  proof (cases kvs)
    case (Cons kv ws)
    have "sum_list (map (\<lambda>kv. Suc (Suc (parse_fuel (snd kv)))) ws)
          \<le> sum_list (map (\<lambda>kw. Suc (length (quote (fst kw)) + Suc (length (print_json (snd kw))))) ws)"
      using "2.IH" "2.prems" Cons quote_length by (intro sum_list_mono) (fastforce simp: list_all_iff)
    then show ?thesis using "2.IH"[of kv] "2.prems" Cons quote_length[of "fst kv"]
      by (simp add: length_concat comp_def)
  qed simp
qed (simp_all add: quote_def)

lemma json_roundtrip: "json_nonum v \<Longrightarrow> json_parse (print_json v) = Some v"
proof -
  assume nv: "json_nonum v"
  have "parse_fuel v < Suc (length (print_json v @ []))"
    using parse_fuel_le_length[OF nv] by simp
  from parse_value_print[OF nv this, where rest = "[]"]
  have eq: "parse_value (Suc (length (print_json v))) (print_json v) = Some (v, [])"
    by (simp only: append_Nil2)
  show ?thesis
    by (simp only: json_parse_def eq option.case prod.case) (simp add: skip_ws_def)
qed

text \<open>
  What \<open>Marshal\<close> writes, \<open>Unmarshal\<close> reads back as the same value,
  also when the text is padded with white space (a file edited by hand, a
  trailing newline).
\<close>

lemma skip_ws_append_ws: "\<forall>c \<in> set pre. is_ws c \<Longrightarrow> skip_ws (pre @ s) = skip_ws s"
  by (simp add: skip_ws_def dropWhile_append)

lemma parse_value_ws: "\<forall>c \<in> set pre. is_ws c \<Longrightarrow> parse_value f (pre @ s) = parse_value f s"
  by (cases f) (simp_all only: parse_value.simps skip_ws_append_ws)

theorem json_roundtrip_ws:
  assumes "json_nonum v" "\<forall>c \<in> set pre. is_ws c" "\<forall>c \<in> set post. is_ws c"
  shows "json_parse (pre @ print_json v @ post) = Some v"
proof -
  let ?s = "pre @ print_json v @ post"
  have "parse_fuel v < Suc (length ?s)" using parse_fuel_le_length[OF assms(1)] by simp
  then have "parse_value (Suc (length ?s)) (print_json v @ post) = Some (v, post)"
    by (rule parse_value_print[OF assms(1)])
  then have eq: "parse_value (Suc (length ?s)) ?s = Some (v, post)"
    by (simp only: parse_value_ws[OF assms(2)])
  have "skip_ws post = []" using assms(3) by (simp add: skip_ws_def)
  then show ?thesis
    by (simp only: json_parse_def eq option.case prod.case) simp
qed

theorem json_roundtrip_ws_witness:
  "json_parse ('' '' @ print_json (JArray [JString ''a<b'', JNull]) @ [CHR 0x0A])
   = Some (JArray [JString ''a<b'', JNull])"
  by (rule json_roundtrip_ws) (simp_all add: is_ws_def)

end
