(* ===== verification/Go_Time.thy ===== *)
theory Go_Time
  imports Json "HOL-Library.Monad_Syntax"
begin

text \<open>
  The \<open>time.Time\<close> fields of \<open>Task\<close> (src/main.go, lines 24--27) as
  \<open>encoding/json\<close> reads and writes them through the methods of the Go 1.22
  \<open>time\<close> package, which is not part of the repository and is modelled from
  its documented behaviour:
  \<^item> \<open>Time.MarshalJSON\<close> writes \<open>appendFormatRFC3339\<close> with nanoseconds
    (trailing zeros of the fraction dropped, \<open>Z\<close> for a zero offset) and
    fails (\<open>appendStrictRFC3339\<close>) when the year is outside [0, 9999] or the
    zone hour outside [0, 23];
  \<^item> \<open>Time.UnmarshalJSON\<close> (\<open>parseStrictRFC3339\<close>) tries the fast parser
    \<open>parseRFC3339\<close> and, when that fails, \<open>time.Parse(RFC3339, ...)\<close>,
    whose strict checks are disabled in this release; that legacy parser
    accepts a one-digit hour, a comma before the fraction and zone offsets up
    to 24 hours and 60 minutes.
  A time is kept as what formatting reads of it: the civil fields in its own
  zone and the zone's offset in seconds. Two times of different \<open>Location\<close>
  but the same fields and offset print alike, which is all this program can
  observe of them.
\<close>

record go_time =
  tm_year :: int
  tm_month :: nat
  tm_day :: nat
  tm_hour :: nat
  tm_min :: nat
  tm_sec :: nat
  tm_nsec :: nat
  tm_offset :: int

definition zero_time :: go_time where
  "zero_time = \<lparr>tm_year = 1, tm_month = 1, tm_day = 1, tm_hour = 0, tm_min = 0, tm_sec = 0,
                tm_nsec = 0, tm_offset = 0\<rparr>"

subsection \<open>Digits and the calendar\<close>

definition digit_val :: "char \<Rightarrow> nat" where
  "digit_val c = of_char c - 48"

definition num2 :: "string \<Rightarrow> nat" where
  "num2 s = 10 * digit_val (s ! 0) + digit_val (s ! 1)"

definition dval :: "string \<Rightarrow> nat" where
  "dval s = foldl (\<lambda>x c. x * 10 + digit_val c) 0 s"

fun string_of_nat :: "nat \<Rightarrow> string" where
  "string_of_nat n =
     (if n < 10 then [char_of (48 + n)] else string_of_nat (n div 10) @ [char_of (48 + n mod 10)])"

text \<open>\<open>appendInt(b, x, width)\<close>: the sign, zeros up to the width, the digits.\<close>

definition append_int :: "nat \<Rightarrow> int \<Rightarrow> string" where
  "append_int w x =
     (let ds = string_of_nat (nat \<bar>x\<bar>)
      in (if x < 0 then ''-'' else []) @ replicate (w - length ds) (CHR ''0'') @ ds)"

definition leap_year :: "nat \<Rightarrow> bool" where
  "leap_year y \<longleftrightarrow> 4 dvd y \<and> (\<not> 100 dvd y \<or> 400 dvd y)"

definition days_in :: "nat \<Rightarrow> nat \<Rightarrow> nat" where
  "days_in y m =
     (if m = 2 then (if leap_year y then 29 else 28)
      else if m \<in> {4, 6, 9, 11} then 30 else 31)"

subsection \<open>Formatting (\<open>Time.MarshalJSON\<close>)\<close>

text \<open>\<open>appendNano\<close> for \<open>.999999999\<close>: nothing for zero, else the nine
  digits without their trailing zeros.\<close>

definition frac_text :: "nat \<Rightarrow> string" where
  "frac_text n =
     (if n = 0 then [] else CHR ''.'' # rev (dropWhile (\<lambda>c. c = CHR ''0'') (rev (append_int 9 (int n)))))"

definition zone_text :: "int \<Rightarrow> string" where
  "zone_text off =
     (if off = 0 then ''Z''
      else let z = nat \<bar>off\<bar> div 60
           in (if off < 0 \<and> z \<noteq> 0 then CHR ''-'' else CHR ''+'')
              # append_int 2 (int (z div 60)) @ CHR '':'' # append_int 2 (int (z mod 60)))"

definition time_text :: "go_time \<Rightarrow> string" where
  "time_text t =
     append_int 4 (tm_year t) @ CHR ''-'' # append_int 2 (int (tm_month t)) @ CHR ''-'' # append_int 2 (int (tm_day t))
     @ CHR ''T'' # append_int 2 (int (tm_hour t)) @ CHR '':'' # append_int 2 (int (tm_min t))
     @ CHR '':'' # append_int 2 (int (tm_sec t)) @ frac_text (tm_nsec t) @ zone_text (tm_offset t)"

text \<open>\<open>appendStrictRFC3339\<close>: the year must take exactly four places and the
  zone hour two, below 24.\<close>

definition marshal_time :: "go_time \<Rightarrow> string option" where
  "marshal_time t =
     (let b = time_text t
      in if b ! 4 \<noteq> CHR ''-'' then None
         else if last b \<noteq> CHR ''Z'' \<and> (is_digit (b ! (length b - 6)) \<or> 24 \<le> num2 (drop (length b - 5) b))
         then None
         else Some b)"

subsection \<open>Parsing (\<open>Time.UnmarshalJSON\<close>)\<close>

definition parse_uint :: "string \<Rightarrow> nat \<Rightarrow> nat \<Rightarrow> nat option" where
  "parse_uint s lo hi = (if list_all is_digit s \<and> lo \<le> dval s \<and> dval s \<le> hi then Some (dval s) else None)"

definition slice :: "nat \<Rightarrow> nat \<Rightarrow> string \<Rightarrow> string" where
  "slice i j s = take (j - i) (drop i s)"

text \<open>\<open>parseNanoseconds(value, n)\<close>: at most nine digits after the separator,
  scaled to nanoseconds.\<close>

definition parse_nanos :: "string \<Rightarrow> nat \<Rightarrow> nat" where
  "parse_nanos value n = (let m = min n 10 in dval (slice 1 m value) * 10 ^ (10 - m))"

text \<open>The fractional second after the seconds, if a separator and a digit follow.\<close>

definition frac_part :: "(char \<Rightarrow> bool) \<Rightarrow> string \<Rightarrow> nat \<times> string" where
  "frac_part sep s =
     (if 2 \<le> length s \<and> sep (s ! 0) \<and> is_digit (s ! 1)
      then let n = Suc (length (takeWhile is_digit (tl s))) in (parse_nanos s n, drop n s)
      else (0, s))"

text \<open>The zone of \<open>parseRFC3339\<close>: \<open>Z\<close> or \<open>(+|-)hh:mm\<close> with hh, mm in range.\<close>

definition zone_fast :: "string \<Rightarrow> int option" where
  "zone_fast z =
     (if z = ''Z'' then Some 0
      else if length z \<noteq> 6 then None
      else do {
        hr \<leftarrow> parse_uint (slice 1 3 z) 0 23;
        mm \<leftarrow> parse_uint (slice 4 6 z) 0 59;
        if (z ! 0 = CHR ''-'' \<or> z ! 0 = CHR ''+'') \<and> z ! 3 = CHR '':''
        then Some ((if z ! 0 = CHR ''-'' then -1 else 1) * int ((hr * 60 + mm) * 60))
        else None
      })"

text \<open>\<open>parseRFC3339\<close>, the fast path: fixed places, each field in range.\<close>

definition parse_rfc3339 :: "string \<Rightarrow> go_time option" where
  "parse_rfc3339 s =
     (if length s < 19 then None
      else do {
        y \<leftarrow> parse_uint (slice 0 4 s) 0 9999;
        mo \<leftarrow> parse_uint (slice 5 7 s) 1 12;
        d \<leftarrow> parse_uint (slice 8 10 s) 1 (days_in y mo);
        h \<leftarrow> parse_uint (slice 11 13 s) 0 23;
        mi \<leftarrow> parse_uint (slice 14 16 s) 0 59;
        sec \<leftarrow> parse_uint (slice 17 19 s) 0 59;
        if s ! 4 = CHR ''-'' \<and> s ! 7 = CHR ''-'' \<and> s ! 10 = CHR ''T'' \<and> s ! 13 = CHR '':'' \<and> s ! 16 = CHR '':''
        then (let (ns, z) = frac_part (\<lambda>c. c = CHR ''.'') (drop 19 s)
              in map_option (\<lambda>off. \<lparr>tm_year = int y, tm_month = mo, tm_day = d, tm_hour = h, tm_min = mi,
                                     tm_sec = sec, tm_nsec = ns, tm_offset = off\<rparr>) (zone_fast z))
        else None
      })"

text \<open>\<open>getnum(s, fixed)\<close>: two digits, or one where \<open>fixed\<close> is false.\<close>

definition getnum :: "bool \<Rightarrow> string \<Rightarrow> (nat \<times> string) option" where
  "getnum fixed s =
     (if s = [] \<or> \<not> is_digit (s ! 0) then None
      else if length s < 2 \<or> \<not> is_digit (s ! 1) then (if fixed then None else Some (digit_val (s ! 0), drop 1 s))
      else Some (10 * digit_val (s ! 0) + digit_val (s ! 1), drop 2 s))"

definition skip_lit :: "char \<Rightarrow> string \<Rightarrow> string option" where
  "skip_lit c s = (case s of x # xs \<Rightarrow> if x = c then Some xs else None | [] \<Rightarrow> None)"

text \<open>The zone of \<open>time.Parse\<close> (\<open>stdISO8601ColonTZ\<close>), then the end of the
  input: the range tests are \<open>hr > 24\<close> and \<open>mm > 60\<close>.\<close>

definition zone_legacy :: "string \<Rightarrow> int option" where
  "zone_legacy z =
     (if z \<noteq> [] \<and> z ! 0 = CHR ''Z'' then (if length z = 1 then Some 0 else None)
      else if length z < 6 \<or> z ! 3 \<noteq> CHR '':'' then None
      else do {
        (hr, _) \<leftarrow> getnum True (slice 1 3 z);
        (mm, _) \<leftarrow> getnum True (slice 4 6 z);
        if hr \<le> 24 \<and> mm \<le> 60 \<and> (z ! 0 = CHR ''+'' \<or> z ! 0 = CHR ''-'') \<and> drop 6 z = []
        then Some ((if z ! 0 = CHR ''-'' then -1 else 1) * int ((hr * 60 + mm) * 60))
        else None
      })"

text \<open>\<open>time.Parse(RFC3339, s)\<close>: the layout \<open>2006-01-02T15:04:05Z07:00\<close>
  chunk by chunk, then the day checked against the month.\<close>

definition parse_legacy :: "string \<Rightarrow> go_time option" where
  "parse_legacy s =
     (if length s < 4 \<or> \<not> list_all is_digit (take 4 s) then None
      else do {
        r \<leftarrow> skip_lit (CHR ''-'') (drop 4 s);
        (mo, r) \<leftarrow> getnum True r;
        r \<leftarrow> skip_lit (CHR ''-'') r;
        (d, r) \<leftarrow> getnum True r;
        r \<leftarrow> skip_lit (CHR ''T'') r;
        (h, r) \<leftarrow> getnum False r;
        r \<leftarrow> skip_lit (CHR '':'') r;
        (mi, r) \<leftarrow> getnum True r;
        r \<leftarrow> skip_lit (CHR '':'') r;
        (sec, r) \<leftarrow> getnum True r;
        let y = dval (take 4 s);
        let (ns, z) = frac_part (\<lambda>c. c = CHR ''.'' \<or> c = CHR '','') r;
        off \<leftarrow> zone_legacy z;
        if 1 \<le> mo \<and> mo \<le> 12 \<and> h < 24 \<and> mi < 60 \<and> sec < 60 \<and> 1 \<le> d \<and> d \<le> days_in y mo
        then Some \<lparr>tm_year = int y, tm_month = mo, tm_day = d, tm_hour = h, tm_min = mi,
                   tm_sec = sec, tm_nsec = ns, tm_offset = off\<rparr>
        else None
      })"

text \<open>\<open>parseStrictRFC3339\<close> as \<open>Time.UnmarshalJSON\<close> calls it.\<close>

definition parse_time :: "string \<Rightarrow> go_time option" where
  "parse_time s = (case parse_rfc3339 s of Some t \<Rightarrow> Some t | None \<Rightarrow> parse_legacy s)"

text \<open>A time \<open>MarshalJSON\<close> writes and \<open>parseRFC3339\<close> reads back: a year
  of four digits, every field in range, a zone of whole minutes under a day.\<close>

definition time_valid :: "go_time \<Rightarrow> bool" where
  "time_valid t \<longleftrightarrow>
     0 \<le> tm_year t \<and> tm_year t \<le> 9999 \<and> 1 \<le> tm_month t \<and> tm_month t \<le> 12
     \<and> 1 \<le> tm_day t \<and> tm_day t \<le> days_in (nat (tm_year t)) (tm_month t)
     \<and> tm_hour t < 24 \<and> tm_min t < 60 \<and> tm_sec t < 60 \<and> tm_nsec t < 10 ^ 9
     \<and> tm_offset t mod 60 = 0 \<and> \<bar>tm_offset t\<bar> < 86400"

subsection \<open>Digit strings\<close>

declare string_of_nat.simps [simp del]

lemma digit_char [simp]:
  "n < 10 \<Longrightarrow> is_digit (char_of (48 + n))" "n < 10 \<Longrightarrow> digit_val (char_of (48 + n)) = n"
  by (simp_all add: is_digit_def digit_val_def)

lemma char_of_digit [simp]:
  "char_of (48::nat) = CHR ''0''" "char_of (49::nat) = CHR ''1''" "char_of (50::nat) = CHR ''2''"
  "char_of (51::nat) = CHR ''3''" "char_of (52::nat) = CHR ''4''" "char_of (53::nat) = CHR ''5''"
  "char_of (54::nat) = CHR ''6''" "char_of (55::nat) = CHR ''7''" "char_of (56::nat) = CHR ''8''"
  "char_of (57::nat) = CHR ''9''"
  using char_of_char[of "CHR ''0''"] char_of_char[of "CHR ''1''"] char_of_char[of "CHR ''2''"]
    char_of_char[of "CHR ''3''"] char_of_char[of "CHR ''4''"] char_of_char[of "CHR ''5''"]
    char_of_char[of "CHR ''6''"] char_of_char[of "CHR ''7''"] char_of_char[of "CHR ''8''"]
    char_of_char[of "CHR ''9''"]
  by simp_all

lemma dval_foldl: "foldl (\<lambda>x c. x * 10 + digit_val c) a ys = a * 10 ^ length ys + dval ys"
proof (induction ys arbitrary: a)
  case (Cons y ys)
  have l: "foldl (\<lambda>x c. x * 10 + digit_val c) a (y # ys) = (a * 10 + digit_val y) * 10 ^ length ys + dval ys"
    using Cons.IH by simp
  have r: "dval (y # ys) = digit_val y * 10 ^ length ys + dval ys"
    using Cons.IH[of "digit_val y"] by (simp add: dval_def)
  show ?case unfolding l r by (simp add: distrib_right)
qed (simp add: dval_def)

lemma dval_append: "dval (xs @ ys) = dval xs * 10 ^ length ys + dval ys"
  using dval_foldl[of "dval xs" ys] by (simp add: dval_def)

lemma dval_simps [simp]: "dval [] = 0" "dval [c] = digit_val c"
  by (simp_all add: dval_def)

lemma dval_Cons: "dval (c # xs) = digit_val c * 10 ^ length xs + dval xs"
  using dval_append[of "[c]" xs] by simp

lemma is_digit_zero [simp]: "is_digit (CHR ''0'')" and digit_val_zero [simp]: "digit_val (CHR ''0'') = 0"
  by (simp_all add: is_digit_def digit_val_def)

lemma dval_zeros [simp]: "dval (replicate k (CHR ''0'')) = 0"
  by (induction k) (simp_all add: dval_Cons)

lemma dval_less: "list_all is_digit xs \<Longrightarrow> dval xs < 10 ^ length xs"
proof (induction xs rule: rev_induct)
  case (snoc x xs)
  have "digit_val x < 10" using snoc.prems by (auto simp: is_digit_def digit_val_def)
  then show ?case using snoc by (simp add: dval_append)
qed simp

lemma string_of_nat_props:
  "list_all is_digit (string_of_nat n) \<and> dval (string_of_nat n) = n \<and> string_of_nat n \<noteq> []"
proof (induction n rule: string_of_nat.induct)
  case (1 n)
  then show ?case by (auto simp: string_of_nat.simps[of n] dval_append)
qed

lemma string_of_nat_length: "n < 10 ^ w \<Longrightarrow> 0 < w \<Longrightarrow> length (string_of_nat n) \<le> w"
proof (induction n arbitrary: w rule: string_of_nat.induct)
  case (1 n)
  show ?case
  proof (cases "n < 10")
    case True
    then show ?thesis using "1.prems" by (simp add: string_of_nat.simps[of n])
  next
    case False
    then obtain w' where w: "w = Suc w'" using "1.prems" by (cases w) auto
    then have d: "n div 10 < 10 ^ w'" using "1.prems" by (simp add: less_mult_imp_div_less)
    have "0 < w'" using False "1.prems"(1) w by (cases w') auto
    then show ?thesis using "1.IH"[OF False d] False w by (simp add: string_of_nat.simps[of n])
  qed
qed

lemma append_int_nat:
  assumes "n < 10 ^ w" "0 < w"
  shows "length (append_int w (int n)) = w" "list_all is_digit (append_int w (int n))"
    "dval (append_int w (int n)) = n"
  using string_of_nat_props[of n] string_of_nat_length[OF assms]
  by (auto simp: append_int_def Let_def dval_append list_all_iff set_replicate_conv_if)

lemma parse_uint_append_int:
  "n < 10 ^ w \<Longrightarrow> 0 < w \<Longrightarrow> lo \<le> n \<Longrightarrow> n \<le> hi \<Longrightarrow> parse_uint (append_int w (int n)) lo hi = Some n"
  using append_int_nat[of n w] by (simp add: parse_uint_def)

lemma parse_uint_range: "parse_uint s lo hi = Some x \<Longrightarrow> lo \<le> x \<and> x \<le> hi"
  by (simp add: parse_uint_def split: if_splits)

subsection \<open>The fraction\<close>

lemma take_takeWhile_prefix: "k \<le> length (takeWhile P xs) \<Longrightarrow> take k xs = take k (takeWhile P xs)"
  by (metis append_Nil2 diff_is_0_eq take0 take_append takeWhile_dropWhile_id)

lemma strip_zeros:
  "rev (dropWhile (\<lambda>c. c = a) (rev xs)) @ replicate (length xs - length (rev (dropWhile (\<lambda>c. c = a) (rev xs)))) a = xs"
proof -
  let ?t = "takeWhile (\<lambda>c. c = a) (rev xs)" and ?d = "dropWhile (\<lambda>c. c = a) (rev xs)"
  have r: "rev xs = ?t @ ?d" by simp
  then have x: "xs = rev ?d @ rev ?t" by (metis rev_append rev_rev_ident)
  have "\<forall>c \<in> set (rev ?t). c = a" by (auto dest: set_takeWhileD)
  then have t: "rev ?t = replicate (length (rev ?t)) a" by (metis replicate_length_same)
  have "length xs = length ?t + length ?d" by (metis length_append length_rev r)
  then have "length (rev ?t) = length xs - length (rev ?d)" by simp
  then show ?thesis using x t by metis
qed

lemma frac_text_shape:
  assumes "0 < n" "n < 10 ^ 9"
  obtains ds where "frac_text n = CHR ''.'' # ds" "ds \<noteq> []" "list_all is_digit ds" "length ds \<le> 9"
    "dval ds * 10 ^ (9 - length ds) = n"
proof -
  let ?xs = "append_int 9 (int n)"
  let ?ds = "rev (dropWhile (\<lambda>c. c = CHR ''0'') (rev ?xs))"
  have x1: "length ?xs = 9" and x2: "list_all is_digit ?xs" and x3: "dval ?xs = n"
    using append_int_nat[OF assms(2)] by simp_all
  have split: "?ds @ replicate (9 - length ?ds) (CHR ''0'') = ?xs"
    using strip_zeros[of "CHR ''0''" ?xs] unfolding x1 .
  have l: "length ?ds \<le> 9" using length_dropWhile_le[of _ "rev ?xs"] x1 by simp
  have "list_all is_digit (?ds @ replicate (9 - length ?ds) (CHR ''0''))" unfolding split by (rule x2)
  then have d: "list_all is_digit ?ds" by simp
  have "dval (?ds @ replicate (9 - length ?ds) (CHR ''0'')) = n" unfolding split by (rule x3)
  then have v: "dval ?ds * 10 ^ (9 - length ?ds) = n" by (simp only: dval_append dval_zeros length_replicate add_0_right)
  have "?ds \<noteq> []"
  proof
    assume e: "?ds = []"
    have "n = 0" using v unfolding e by simp
    then show False using assms(1) by simp
  qed
  then show ?thesis using that[of ?ds] l d v assms(1) by (simp add: frac_text_def)
qed

lemma frac_part_text:
  assumes "n < 10 ^ 9" "z \<noteq> []" "\<not> is_digit (hd z)" "hd z \<noteq> CHR ''.''"
  shows "frac_part (\<lambda>c. c = CHR ''.'') (frac_text n @ z) = (n, z)"
proof (cases "n = 0")
  case True
  then show ?thesis using assms(2,4) by (cases z) (simp_all add: frac_text_def frac_part_def)
next
  case False
  then obtain ds where ds: "frac_text n = CHR ''.'' # ds" "ds \<noteq> []" "list_all is_digit ds" "length ds \<le> 9"
    "dval ds * 10 ^ (9 - length ds) = n"
    using frac_text_shape assms(1) by blast
  have tw: "takeWhile is_digit (ds @ z) = ds"
    using ds(3) assms(2,3) by (cases z) (simp_all add: takeWhile_append2 list_all_iff)
  have h: "is_digit ((CHR ''.'' # ds @ z) ! 1)" using ds(2,3) by (cases ds) simp_all
  have "min (Suc (length ds)) 10 = Suc (length ds)" using ds(4) by simp
  then show ?thesis
    using ds h tw by (cases ds) (simp_all add: frac_part_def parse_nanos_def slice_def)
qed

lemma frac_part_bound: "fst (frac_part sep s) < 10 ^ 9"
proof -
  have "dval (slice 1 (min n 10) s) * 10 ^ (10 - min n 10) < 10 ^ 9"
    if "n = Suc (length (takeWhile is_digit (tl s)))" for n
  proof -
    let ?m = "min n 10"
    have sl: "slice 1 ?m s = take (?m - 1) (takeWhile is_digit (tl s))"
      using that take_takeWhile_prefix[of "?m - 1" is_digit "tl s"] by (simp add: slice_def drop_Suc min_def)
    have dg: "list_all is_digit (slice 1 ?m s)"
      unfolding sl list_all_iff by (meson in_set_takeD set_takeWhileD)
    have len: "length (slice 1 ?m s) = ?m - 1" unfolding sl using that by simp
    have "dval (slice 1 ?m s) < 10 ^ (?m - 1)" using dval_less[OF dg] len by simp
    then have a: "dval (slice 1 ?m s) * 10 ^ (10 - ?m) < 10 ^ (?m - 1) * 10 ^ (10 - ?m)"
      by (rule mult_strict_right_mono) simp
    have "?m - 1 + (10 - ?m) = 9" using that by (simp add: min_def)
    then have "(10::nat) ^ (?m - 1) * 10 ^ (10 - ?m) = 10 ^ 9" by (simp only: power_add[symmetric])
    then show ?thesis using a by (simp only:)
  qed
  then show ?thesis unfolding frac_part_def parse_nanos_def Let_def by simp
qed

subsection \<open>The zone\<close>

lemma zone_text_nonzero:
  assumes "off mod 60 = 0" "\<bar>off\<bar> < 86400" "off \<noteq> 0"
  obtains h m where "zone_text off = (if off < 0 then CHR ''-'' else CHR ''+'')
                       # append_int 2 (int h) @ CHR '':'' # append_int 2 (int m)"
    "h < 24" "m < 60" "int ((h * 60 + m) * 60) = \<bar>off\<bar>"
proof -
  define z where "z = nat \<bar>off\<bar> div 60"
  have "(60::int) dvd \<bar>off\<bar>" using assms(1) by (simp add: dvd_eq_mod_eq_0[symmetric])
  then have "60 dvd nat \<bar>off\<bar>" using int_dvd_int_iff[of 60 "nat \<bar>off\<bar>"] by simp
  then have "nat \<bar>off\<bar> mod 60 = 0" by simp
  then have nz: "nat \<bar>off\<bar> = z * 60" unfolding z_def using div_mult_mod_eq[of "nat \<bar>off\<bar>" 60] by simp
  have z0: "z \<noteq> 0" using nz assms(3) by auto
  have zl: "z < 1440" using nz assms(2) by linarith
  have "zone_text off = (if off < 0 then CHR ''-'' else CHR ''+'')
          # append_int 2 (int (z div 60)) @ CHR '':'' # append_int 2 (int (z mod 60))"
    using assms(3) z0 unfolding zone_text_def z_def by (simp add: Let_def)
  moreover have "int ((z div 60 * 60 + z mod 60) * 60) = \<bar>off\<bar>" using nz by simp
  ultimately show ?thesis using that[of "z div 60" "z mod 60"] zl by simp
qed

lemma zone_text_fast:
  assumes "off mod 60 = 0" "\<bar>off\<bar> < 86400"
  shows "zone_fast (zone_text off) = Some off" "zone_text off \<noteq> []"
    "\<not> is_digit (hd (zone_text off))" "hd (zone_text off) \<noteq> CHR ''.''"
proof -
  have all: "zone_fast (zone_text off) = Some off \<and> zone_text off \<noteq> []
             \<and> \<not> is_digit (hd (zone_text off)) \<and> hd (zone_text off) \<noteq> CHR ''.''"
  proof (cases "off = 0")
    case True
    then show ?thesis by (simp add: zone_text_def zone_fast_def is_digit_def)
  next
    case False
    then obtain h m where tz: "zone_text off = (if off < 0 then CHR ''-'' else CHR ''+'')
                       # append_int 2 (int h) @ CHR '':'' # append_int 2 (int m)"
      and hm: "h < 24" "m < 60" "int ((h * 60 + m) * 60) = \<bar>off\<bar>"
      using zone_text_nonzero[OF assms] by blast
    have h: "h < 10 ^ 2" "m < 10 ^ 2" using hm by simp_all
    note H = append_int_nat[OF h(1)] and M = append_int_nat[OF h(2)]
    have ph: "parse_uint (append_int 2 (int h)) 0 23 = Some h" using hm by (intro parse_uint_append_int) simp_all
    have pm: "parse_uint (append_int 2 (int m)) 0 59 = Some m" using hm by (intro parse_uint_append_int) simp_all
    have sl: "slice 1 3 (zone_text off) = append_int 2 (int h)" "slice 4 6 (zone_text off) = append_int 2 (int m)"
      "length (zone_text off) = 6" "zone_text off ! 0 = (if off < 0 then CHR ''-'' else CHR ''+'')"
      "zone_text off ! 3 = CHR '':''"
      unfolding tz using H(1) M(1) by (simp_all add: slice_def nth_append)
    have nZ: "zone_text off \<noteq> ''Z''" using sl(3) by auto
    have "zone_fast (zone_text off) = Some off"
      using sl ph pm hm(3) nZ unfolding zone_fast_def by auto
    then show ?thesis using tz by (simp add: is_digit_def)
  qed
  then show "zone_fast (zone_text off) = Some off" "zone_text off \<noteq> []"
    "\<not> is_digit (hd (zone_text off))" "hd (zone_text off) \<noteq> CHR ''.''" by simp_all
qed

subsection \<open>Round trip\<close>

lemma time_text_split:
  assumes "time_valid t"
  obtains y where "tm_year t = int y" "y \<le> 9999"
    "time_text t = append_int 4 (int y) @ CHR ''-'' # append_int 2 (int (tm_month t)) @ CHR ''-''
       # append_int 2 (int (tm_day t)) @ CHR ''T'' # append_int 2 (int (tm_hour t)) @ CHR '':''
       # append_int 2 (int (tm_min t)) @ CHR '':'' # append_int 2 (int (tm_sec t))
       @ frac_text (tm_nsec t) @ zone_text (tm_offset t)"
proof -
  obtain y where "tm_year t = int y" using assms by (metis nonneg_int_cases time_valid_def)
  moreover have "y \<le> 9999" using assms calculation by (simp add: time_valid_def)
  ultimately show ?thesis using that by (simp add: time_text_def)
qed

lemma parse_time_text:
  assumes "time_valid t"
  shows "parse_rfc3339 (time_text t) = Some t"
proof -
  obtain y where y: "tm_year t = int y" "y \<le> 9999" and tt: "time_text t =
      append_int 4 (int y) @ CHR ''-'' # append_int 2 (int (tm_month t)) @ CHR ''-''
       # append_int 2 (int (tm_day t)) @ CHR ''T'' # append_int 2 (int (tm_hour t)) @ CHR '':''
       # append_int 2 (int (tm_min t)) @ CHR '':'' # append_int 2 (int (tm_sec t))
       @ frac_text (tm_nsec t) @ zone_text (tm_offset t)"
    using time_text_split[OF assms] by blast
  note v = assms[unfolded time_valid_def y]
  have b: "y < 10 ^ 4" "tm_month t < 10 ^ 2" "tm_day t < 10 ^ 2" "tm_hour t < 10 ^ 2"
    "tm_min t < 10 ^ 2" "tm_sec t < 10 ^ 2"
    using v days_in_def[of y "tm_month t"] by (auto split: if_splits)
  note l = append_int_nat(1)[OF b(1)] append_int_nat(1)[OF b(2)] append_int_nat(1)[OF b(3)]
    append_int_nat(1)[OF b(4)] append_int_nat(1)[OF b(5)] append_int_nat(1)[OF b(6)]
  have p: "parse_uint (append_int 4 (int y)) 0 9999 = Some y"
    "parse_uint (append_int 2 (int (tm_month t))) 1 12 = Some (tm_month t)"
    "parse_uint (append_int 2 (int (tm_day t))) 1 (days_in y (tm_month t)) = Some (tm_day t)"
    "parse_uint (append_int 2 (int (tm_hour t))) 0 23 = Some (tm_hour t)"
    "parse_uint (append_int 2 (int (tm_min t))) 0 59 = Some (tm_min t)"
    "parse_uint (append_int 2 (int (tm_sec t))) 0 59 = Some (tm_sec t)"
    using v b by (simp_all add: parse_uint_append_int)
  note z = zone_text_fast[of "tm_offset t"]
  have f: "frac_part (\<lambda>c. c = CHR ''.'') (frac_text (tm_nsec t) @ zone_text (tm_offset t))
           = (tm_nsec t, zone_text (tm_offset t))"
    using v z by (intro frac_part_text) simp_all
  have "parse_rfc3339 (time_text t)
        = Some \<lparr>tm_year = int y, tm_month = tm_month t, tm_day = tm_day t, tm_hour = tm_hour t,
                tm_min = tm_min t, tm_sec = tm_sec t, tm_nsec = tm_nsec t, tm_offset = tm_offset t\<rparr>"
    unfolding tt parse_rfc3339_def using l p f z v by (simp add: slice_def nth_append)
  then show ?thesis using y by simp
qed

lemma parse_time_text_strict: "time_valid t \<Longrightarrow> parse_time (time_text t) = Some t"
  by (simp add: parse_time_def parse_time_text)

lemma num2_dval:
  assumes "length h = 2"
  shows "num2 (h @ r) = dval h"
proof -
  obtain a b where "h = [a, b]" using assms by (auto simp: numeral_2_eq_2 length_Suc_conv)
  then show ?thesis by (simp add: num2_def dval_Cons)
qed

lemma marshal_time_valid:
  assumes "time_valid t"
  shows "marshal_time t = Some (time_text t)"
proof -
  obtain y where y: "tm_year t = int y" "y \<le> 9999" and tt: "time_text t =
      append_int 4 (int y) @ CHR ''-'' # append_int 2 (int (tm_month t)) @ CHR ''-''
       # append_int 2 (int (tm_day t)) @ CHR ''T'' # append_int 2 (int (tm_hour t)) @ CHR '':''
       # append_int 2 (int (tm_min t)) @ CHR '':'' # append_int 2 (int (tm_sec t))
       @ frac_text (tm_nsec t) @ zone_text (tm_offset t)"
    using time_text_split[OF assms] by blast
  note v = assms[unfolded time_valid_def]
  have "y < 10 ^ 4" using y by simp
  then have four: "time_text t ! 4 = CHR ''-''" unfolding tt using append_int_nat(1) by (simp add: nth_append)
  define p where "p = append_int 4 (int y) @ CHR ''-'' # append_int 2 (int (tm_month t)) @ CHR ''-''
       # append_int 2 (int (tm_day t)) @ CHR ''T'' # append_int 2 (int (tm_hour t)) @ CHR '':''
       # append_int 2 (int (tm_min t)) @ CHR '':'' # append_int 2 (int (tm_sec t)) @ frac_text (tm_nsec t)"
  have pz: "time_text t = p @ zone_text (tm_offset t)" unfolding tt p_def by simp
  show ?thesis
  proof (cases "tm_offset t = 0")
    case True
    then show ?thesis using four pz by (simp add: marshal_time_def zone_text_def)
  next
    case False
    then obtain h m where tz: "zone_text (tm_offset t) = (if tm_offset t < 0 then CHR ''-'' else CHR ''+'')
                       # append_int 2 (int h) @ CHR '':'' # append_int 2 (int m)"
      and hm: "h < 24" "m < 60" "int ((h * 60 + m) * 60) = \<bar>tm_offset t\<bar>"
      using zone_text_nonzero[of "tm_offset t"] v False by auto
    have hb: "h < 10 ^ 2" "m < 10 ^ 2" using hm by simp_all
    note H = append_int_nat[OF hb(1)] and M = append_int_nat[OF hb(2)]
    have "append_int 2 (int m) \<noteq> []" using M(1) by auto
    then have lm: "is_digit (last (append_int 2 (int m)))"
      using M(2) by (simp add: list_all_iff)
    have l: "last (time_text t) \<noteq> CHR ''Z''" using lm M(1) unfolding pz tz by (auto simp: is_digit_def)
    have c: "\<not> is_digit (time_text t ! (length (time_text t) - 6))"
      unfolding pz tz using H(1) M(1) by (simp add: nth_append is_digit_def)
    have n: "num2 (drop (length (time_text t) - 5) (time_text t)) = h"
      unfolding pz tz using H M(1) by (simp add: num2_dval)
    show ?thesis using four l c n hm by (simp add: marshal_time_def Let_def)
  qed
qed

lemma zone_fast_range: "zone_fast z = Some off \<Longrightarrow> off mod 60 = 0 \<and> \<bar>off\<bar> < 86400"
  by (auto simp: zone_fast_def bind_eq_Some_conv split: if_splits dest!: parse_uint_range)

lemma parse_rfc3339_valid: "parse_rfc3339 s = Some t \<Longrightarrow> time_valid t"
  using frac_part_bound[of "\<lambda>c. c = CHR ''.''" "drop 19 s"]
  by (auto simp: parse_rfc3339_def bind_eq_Some_conv time_valid_def split: if_splits prod.splits
      dest!: parse_uint_range zone_fast_range)

lemma string_of_nat_long: "10 ^ k \<le> n \<Longrightarrow> k < length (string_of_nat n)"
proof (induction n arbitrary: k rule: string_of_nat.induct)
  case (1 n)
  show ?case
  proof (cases "n < 10")
    case True
    then have "k < 1" using power_less_imp_less_exp[of "10::nat" k 1] "1.prems" by simp
    then show ?thesis by (simp add: string_of_nat.simps[of n])
  next
    case False
    show ?thesis
    proof (cases k)
      case (Suc k')
      then have "10 ^ k' \<le> n div 10" using "1.prems" by (simp add: less_eq_div_iff_mult_less_eq mult.commute)
      then show ?thesis using "1.IH"[OF False] False Suc by (simp add: string_of_nat.simps[of n])
    qed (simp add: string_of_nat.simps[of n])
  qed
qed

lemma marshal_time_wide_year:
  assumes "10000 \<le> tm_year t"
  shows "marshal_time t = None"
proof -
  define y where "y = nat (tm_year t)"
  have y: "tm_year t = int y" "10 ^ 4 \<le> y" using assms by (simp_all add: y_def)
  note ds = string_of_nat_props[of y] string_of_nat_long[OF y(2)]
  have a: "append_int 4 (tm_year t) = string_of_nat y" using ds by (simp add: append_int_def y)
  have "string_of_nat y ! 4 \<in> set (string_of_nat y)" using ds by simp
  then have "is_digit (string_of_nat y ! 4)" using ds by (simp add: list_all_iff)
  then have "string_of_nat y ! 4 \<noteq> CHR ''-''" by (auto simp: is_digit_def)
  then have "time_text t ! 4 \<noteq> CHR ''-''" using ds by (simp add: time_text_def a nth_append)
  then show ?thesis by (simp add: marshal_time_def Let_def)
qed

end
