(* ===== verification/Task.thy ===== *)
theory Task
  imports Go_Time
begin

text \<open>
  The persisted records of src/main.go: \<open>Task\<close> (lines 17--29) and the
  unused \<open>ToDo\<close> (lines 31--40), with their JSON encoding as
  \<open>json.Marshal\<close> derives it from the struct tags, and their decoding as
  \<open>json.Unmarshal\<close> does it into the \<open>[]*Task\<close> that \<open>createTask\<close> reads
  (lines 52--58):
  \<^item> keys are matched to fields exactly or, failing that, ignoring ASCII case;
    unknown keys are skipped; a repeated key is decoded again over the field;
  \<^item> \<open>null\<close> leaves a string or time field as it is and sets a slice to nil;
    an array decoded into a slice reuses the elements already there where the
    array has \<open>null\<close>;
  \<^item> a value of the wrong JSON type is an \<open>UnmarshalTypeError\<close>;
  \<^item> a \<open>null\<close> element of the top-level array is a nil \<open>*Task\<close>.
  A nil slice is \<open>None\<close>, a nil pointer is \<open>None\<close>. A \<open>time.Time\<close>
  field is a \<open>go_time\<close> (theory \<open>Go_Time\<close>): \<open>Marshal\<close> writes it with
  \<open>Time.MarshalJSON\<close>, which can fail, and a string is read into it with
  \<open>Time.UnmarshalJSON\<close>.
\<close>

record task =
  t_title :: string
  t_description :: string
  t_urgency :: string
  t_status :: string
  t_assigned_by :: string
  t_attachments :: "string list option"
  t_comments :: "string list option"
  t_timestamp :: go_time
  t_starttime :: go_time
  t_endtime :: go_time
  t_due :: go_time

record todo =
  td_title :: string
  td_description :: string
  td_status :: string
  td_attachments :: "string list option"
  td_comments :: "string list option"
  td_timestamp :: go_time
  td_starttime :: go_time
  td_endtime :: go_time

definition zero_task :: task where
  "zero_task =
     \<lparr>t_title = [], t_description = [], t_urgency = [], t_status = [], t_assigned_by = [],
      t_attachments = None, t_comments = None, t_timestamp = zero_time, t_starttime = zero_time,
      t_endtime = zero_time, t_due = zero_time\<rparr>"

subsection \<open>Time fields (\<open>time.Time.UnmarshalJSON\<close>)\<close>

definition decode_time :: "json \<Rightarrow> go_time \<Rightarrow> go_time option" where
  "decode_time j old =
     (case j of
        JNull \<Rightarrow> Some old
      | JString s \<Rightarrow> parse_time s
      | _ \<Rightarrow> None)"

subsection \<open>Encoding (\<open>json.Marshal\<close> of \<open>[]*Task\<close>)\<close>

definition strings_json :: "string list option \<Rightarrow> json" where
  "strings_json xs = (case xs of None \<Rightarrow> JNull | Some ys \<Rightarrow> JArray (map JString ys))"

definition task_json :: "task \<Rightarrow> json" where
  "task_json t =
     JObject [(''title'', JString (t_title t)), (''description'', JString (t_description t)),
              (''urgency'', JString (t_urgency t)), (''status'', JString (t_status t)),
              (''assigned_by'', JString (t_assigned_by t)),
              (''attachments'', strings_json (t_attachments t)),
              (''comments'', strings_json (t_comments t)),
              (''timestamp'', JString (time_text (t_timestamp t))), (''starttime'', JString (time_text (t_starttime t))),
              (''endtime'', JString (time_text (t_endtime t))), (''due'', JString (time_text (t_due t)))]"

definition tasks_json :: "task option list \<Rightarrow> json" where
  "tasks_json ts = JArray (map (\<lambda>p. case p of None \<Rightarrow> JNull | Some t \<Rightarrow> task_json t) ts)"

definition json_members :: "json \<Rightarrow> (string \<times> json) list" where
  "json_members j = (case j of JObject kvs \<Rightarrow> kvs | _ \<Rightarrow> [])"

subsection \<open>Decoding (\<open>json.Unmarshal\<close> into \<open>[]*Task\<close>)\<close>

definition fold_case :: "char \<Rightarrow> char" where
  "fold_case c =
     (if (97::nat) \<le> of_char c \<and> of_char c \<le> (122::nat) then char_of (of_char c - (32::nat)) else c)"

definition key_matches :: "string \<Rightarrow> string \<Rightarrow> bool" where
  "key_matches fname k \<longleftrightarrow> map fold_case k = map fold_case fname"

definition task_fields :: "string list" where
  "task_fields = [''title'', ''description'', ''urgency'', ''status'', ''assigned_by'',
                  ''attachments'', ''comments'', ''timestamp'', ''starttime'', ''endtime'', ''due'']"

text \<open>The field a key selects: the exact name first, then a case-folded match.\<close>

definition field_of :: "string \<Rightarrow> string option" where
  "field_of k =
     (if k \<in> set task_fields then Some k
      else case filter (\<lambda>f. key_matches f k) task_fields of [] \<Rightarrow> None | f # _ \<Rightarrow> Some f)"

definition decode_string :: "json \<Rightarrow> string \<Rightarrow> string option" where
  "decode_string j old = (case j of JNull \<Rightarrow> Some old | JString s \<Rightarrow> Some s | _ \<Rightarrow> None)"

text \<open>
  An array into a \<open>[]string\<close>: element \<open>i\<close> is decoded over the old element
  \<open>i\<close> when there is one, else over \<open>""\<close>; the slice is then cut to the
  array's length.
\<close>

definition decode_strings :: "json \<Rightarrow> string list option \<Rightarrow> string list option option" where
  "decode_strings j old =
     (case j of
        JNull \<Rightarrow> Some None
      | JArray vs \<Rightarrow>
          (let olds = (case old of None \<Rightarrow> [] | Some xs \<Rightarrow> xs);
               ds = map (\<lambda>i. decode_string (vs ! i) (if i < length olds then olds ! i else [])) [0..<length vs]
           in if None \<in> set ds then None else Some (Some (map the ds)))
      | _ \<Rightarrow> None)"

definition set_field :: "string \<Rightarrow> json \<Rightarrow> task \<Rightarrow> task option" where
  "set_field f j t =
     (if f = ''title'' then map_option (\<lambda>s. t\<lparr>t_title := s\<rparr>) (decode_string j (t_title t))
      else if f = ''description'' then map_option (\<lambda>s. t\<lparr>t_description := s\<rparr>) (decode_string j (t_description t))
      else if f = ''urgency'' then map_option (\<lambda>s. t\<lparr>t_urgency := s\<rparr>) (decode_string j (t_urgency t))
      else if f = ''status'' then map_option (\<lambda>s. t\<lparr>t_status := s\<rparr>) (decode_string j (t_status t))
      else if f = ''assigned_by'' then map_option (\<lambda>s. t\<lparr>t_assigned_by := s\<rparr>) (decode_string j (t_assigned_by t))
      else if f = ''attachments'' then map_option (\<lambda>s. t\<lparr>t_attachments := s\<rparr>) (decode_strings j (t_attachments t))
      else if f = ''comments'' then map_option (\<lambda>s. t\<lparr>t_comments := s\<rparr>) (decode_strings j (t_comments t))
      else if f = ''timestamp'' then map_option (\<lambda>s. t\<lparr>t_timestamp := s\<rparr>) (decode_time j (t_timestamp t))
      else if f = ''starttime'' then map_option (\<lambda>s. t\<lparr>t_starttime := s\<rparr>) (decode_time j (t_starttime t))
      else if f = ''endtime'' then map_option (\<lambda>s. t\<lparr>t_endtime := s\<rparr>) (decode_time j (t_endtime t))
      else if f = ''due'' then map_option (\<lambda>s. t\<lparr>t_due := s\<rparr>) (decode_time j (t_due t))
      else Some t)"

fun decode_members :: "(string \<times> json) list \<Rightarrow> task \<Rightarrow> task option" where
  "decode_members [] t = Some t"
| "decode_members ((k, j) # kvs) t =
     (case field_of k of
        None \<Rightarrow> decode_members kvs t
      | Some f \<Rightarrow> (case set_field f j t of None \<Rightarrow> None | Some t' \<Rightarrow> decode_members kvs t'))"

definition decode_task :: "json \<Rightarrow> task option option" where
  "decode_task j =
     (case j of
        JNull \<Rightarrow> Some None
      | JObject kvs \<Rightarrow> map_option Some (decode_members kvs zero_task)
      | _ \<Rightarrow> None)"

definition decode_tasks :: "json \<Rightarrow> task option list option" where
  "decode_tasks j =
     (case j of
        JNull \<Rightarrow> Some []
      | JArray vs \<Rightarrow> (let ds = map decode_task vs in if None \<in> set ds then None else Some (map the ds))
      | _ \<Rightarrow> None)"

text \<open>The two library calls of \<open>createTask\<close> on the file's bytes.\<close>

definition unmarshal_tasks :: "string \<Rightarrow> task option list option" where
  "unmarshal_tasks b = (case json_parse b of None \<Rightarrow> None | Some j \<Rightarrow> decode_tasks j)"

definition marshal_tasks :: "task option list \<Rightarrow> string" where
  "marshal_tasks ts = print_json (tasks_json ts)"

text \<open>
  \<open>json.Marshal(tasks)\<close> (line 60): it fails when \<open>Time.MarshalJSON\<close> fails
  for a time of a task in the list; otherwise it writes \<open>marshal_tasks\<close>.
\<close>

definition task_marshal_ok :: "task \<Rightarrow> bool" where
  "task_marshal_ok t \<longleftrightarrow> marshal_time (t_timestamp t) \<noteq> None \<and> marshal_time (t_starttime t) \<noteq> None
                          \<and> marshal_time (t_endtime t) \<noteq> None \<and> marshal_time (t_due t) \<noteq> None"

definition tasks_marshal :: "task option list \<Rightarrow> string option" where
  "tasks_marshal ts =
     (if list_all (\<lambda>p. case p of None \<Rightarrow> True | Some t \<Rightarrow> task_marshal_ok t) ts then Some (marshal_tasks ts) else None)"

text \<open>The times of a task are ones \<open>Marshal\<close> writes and reads back.\<close>

definition task_times_ok :: "task \<Rightarrow> bool" where
  "task_times_ok t \<longleftrightarrow> time_valid (t_timestamp t) \<and> time_valid (t_starttime t)
                        \<and> time_valid (t_endtime t) \<and> time_valid (t_due t)"

subsection \<open>Properties\<close>

lemma decode_strings_json [simp]: "decode_strings (strings_json xs) old = Some xs"
proof (cases xs)
  case (Some ys)
  have "map (\<lambda>i. decode_string (map JString ys ! i) (g i)) [0..<length ys] = map Some ys" for g
    by (rule nth_equalityI) (simp_all add: decode_string_def)
  then show ?thesis using Some by (simp add: strings_json_def decode_strings_def Let_def)
qed (simp add: strings_json_def decode_strings_def)

lemma decode_time_text [simp]: "time_valid v \<Longrightarrow> decode_time (JString (time_text v)) old = Some v"
  by (simp add: decode_time_def parse_time_text_strict)

lemma decode_task_json:
  "task_times_ok t \<Longrightarrow> decode_task (task_json t) = Some (Some t)"
  by (cases t) (simp add: decode_task_def task_json_def task_fields_def field_of_def set_field_def
      decode_string_def zero_task_def task_times_ok_def)

lemma decode_task_null: "decode_task JNull = Some None"
  by (simp add: decode_task_def)

lemma strings_json_nonum [simp]: "json_nonum (strings_json xs)"
  by (cases xs) (simp_all add: strings_json_def list_all_iff)

lemma tasks_json_nonum [simp]: "json_nonum (tasks_json ts)"
  by (simp add: tasks_json_def task_json_def list_all_iff split: option.split)

lemma decode_task_elems:
  "(\<forall>t. Some t \<in> set ts \<longrightarrow> task_times_ok t) \<Longrightarrow>
   map decode_task (map (\<lambda>p. case p of None \<Rightarrow> JNull | Some t \<Rightarrow> task_json t) ts) = map Some ts"
  by (induction ts) (auto simp: decode_task_json decode_task_null split: option.split)

lemma decode_tasks_json:
  "(\<forall>t. Some t \<in> set ts \<longrightarrow> task_times_ok t) \<Longrightarrow> decode_tasks (tasks_json ts) = Some ts"
  by (simp only: decode_tasks_def tasks_json_def json.case Let_def decode_task_elems) (simp add: comp_def)

lemma zero_time_ok [simp]: "time_valid zero_time"
  by (simp add: time_valid_def zero_time_def days_in_def)

lemma tasks_marshal_fails:
  "Some u \<in> set ts \<Longrightarrow> \<not> task_marshal_ok u \<Longrightarrow> tasks_marshal ts = None"
  unfolding tasks_marshal_def list_all_iff by (intro if_not_P notI) (metis option.simps(5))

lemma tasks_marshal_ok:
  "(\<forall>t. Some t \<in> set ts \<longrightarrow> task_times_ok t) \<Longrightarrow> tasks_marshal ts = Some (marshal_tasks ts)"
  by (auto simp: tasks_marshal_def list_all_iff task_marshal_ok_def task_times_ok_def marshal_time_valid
      split: option.split)

lemma zero_task_times_ok [simp]: "task_times_ok (zero_task\<lparr>t_title := x\<rparr>)"
  by (simp add: task_times_ok_def zero_task_def)

text \<open>
  C12. Marshalling a task list and unmarshalling the bytes gives the list back,
  nil entries and nil slices included, for every list whose times
  \<open>Time.MarshalJSON\<close> writes and \<open>Time.UnmarshalJSON\<close> reads back (a
  four-digit year, a zone under a day), also when the file has gained white space around the array
  (a trailing newline added by an editor): \<open>createTask\<close> reads back what
  it wrote.
\<close>

theorem tasks_roundtrip:
  assumes "\<forall>t. Some t \<in> set ts \<longrightarrow> task_times_ok t" "\<forall>c \<in> set pre. is_ws c" "\<forall>c \<in> set post. is_ws c"
  shows "unmarshal_tasks (pre @ marshal_tasks ts @ post) = Some ts"
  using assms by (simp add: unmarshal_tasks_def marshal_tasks_def json_roundtrip_ws decode_tasks_json)

theorem tasks_roundtrip_witness:
  "unmarshal_tasks ('' '' @ marshal_tasks
     [Some (zero_task\<lparr>t_title := ''a'' @ [dq, CHR 0x0A] @ ''<b>'', t_attachments := Some [''x'', []],
                      t_due := \<lparr>tm_year = 2024, tm_month = 2, tm_day = 29, tm_hour = 23, tm_min = 59,
                                 tm_sec = 59, tm_nsec = 500000000, tm_offset = 3600\<rparr>\<rparr>), None] @ [CHR 0x0A])
   = Some [Some (zero_task\<lparr>t_title := ''a'' @ [dq, CHR 0x0A] @ ''<b>'', t_attachments := Some [''x'', []],
                      t_due := \<lparr>tm_year = 2024, tm_month = 2, tm_day = 29, tm_hour = 23, tm_min = 59,
                                 tm_sec = 59, tm_nsec = 500000000, tm_offset = 3600\<rparr>\<rparr>), None]"
  by (rule tasks_roundtrip)
     (simp_all add: task_times_ok_def zero_task_def time_valid_def zero_time_def days_in_def leap_year_def is_ws_def)

end
