(* ===== verification/Store.thy ===== *)
theory Store
  imports Task
begin

text \<open>
  The task record store: \<open>createTask\<close> of src/main.go (lines 42--68), a
  read-modify-write of \<open>db/tasks.json\<close>. The file system is the part of it
  the function touches: whether the directory \<open>db\<close> exists and the bytes of
  \<open>db/tasks.json\<close>, if there is such a file. \<open>os.Create\<close> makes an empty
  file when the directory exists and fails silently otherwise (its error is
  dropped); a failed \<open>os.ReadFile\<close>, a failed \<open>json.Unmarshal\<close> and a failed
  \<open>os.WriteFile\<close> each end the process through \<open>log.Fatal\<close>, which the
  model returns as an outcome together with the file system as it is at that
  moment. \<open>json.Marshal\<close> fails when \<open>Time.MarshalJSON\<close> fails for one of
  the times (\<open>tasks_marshal\<close>), and \<open>createTask\<close> then stops at its
  \<open>log.Fatal\<close> (line 62) before writing.
\<close>

record fs =
  db_dir :: bool
  tasks_file :: "string option"

datatype store_error = ReadError | DecodeError | EncodeError | WriteError

datatype outcome = Done | Fatal store_error

text \<open>\<open>os.WriteFile\<close>: it needs the directory; it truncates and writes.\<close>

definition write_file :: "string \<Rightarrow> fs \<Rightarrow> fs option" where
  "write_file data s = (if db_dir s then Some (s\<lparr>tasks_file := Some data\<rparr>) else None)"

definition create_task :: "task \<Rightarrow> fs \<Rightarrow> fs \<times> outcome" where
  "create_task t s =
     (let s1 = (if tasks_file s = None \<and> db_dir s then s\<lparr>tasks_file := Some []\<rparr> else s)
      in case tasks_file s1 of
           None \<Rightarrow> (s1, Fatal ReadError)
         | Some b \<Rightarrow>
             (case (if b \<noteq> [] then unmarshal_tasks b else Some []) of
                None \<Rightarrow> (s1, Fatal DecodeError)
              | Some ts \<Rightarrow>
                  (case tasks_marshal (ts @ [Some t]) of
                     None \<Rightarrow> (s1, Fatal EncodeError)
                   | Some data \<Rightarrow>
                       (case write_file data s1 of
                          None \<Rightarrow> (s1, Fatal WriteError)
                        | Some s2 \<Rightarrow> (s2, Done)))))"

text \<open>What a reader of the file sees: the task list, if the file decodes.\<close>

definition stored_tasks :: "fs \<Rightarrow> task option list option" where
  "stored_tasks s =
     (case tasks_file s of
        None \<Rightarrow> Some []
      | Some b \<Rightarrow> if b = [] then Some [] else unmarshal_tasks b)"

definition times_ok :: "task option list \<Rightarrow> bool" where
  "times_ok ts \<longleftrightarrow> (\<forall>t. Some t \<in> set ts \<longrightarrow> task_times_ok t)"

subsection \<open>Properties\<close>

lemma marshal_nonempty [simp]: "marshal_tasks ts \<noteq> []"
  by (cases ts) (simp_all add: marshal_tasks_def tasks_json_def)

lemma stored_after_write:
  "times_ok ts \<Longrightarrow> stored_tasks (s\<lparr>tasks_file := Some (marshal_tasks ts)\<rparr>) = Some ts"
  by (simp add: stored_tasks_def times_ok_def unmarshal_tasks_def marshal_tasks_def json_roundtrip
      marshal_nonempty[unfolded marshal_tasks_def]
      decode_tasks_json)

lemma times_ok_marshal:
  "times_ok ts \<Longrightarrow> tasks_marshal ts = Some (marshal_tasks ts)"
  by (simp add: times_ok_def tasks_marshal_ok)

lemma times_ok_snoc [simp]: "times_ok (ts @ [Some t]) \<longleftrightarrow> times_ok ts \<and> task_times_ok t"
  by (auto simp: times_ok_def)

lemma create_task_reads_stored:
  assumes "stored_tasks s = Some ts" "db_dir s" "times_ok ts" "task_times_ok t"
  shows "create_task t s = (s\<lparr>tasks_file := Some (marshal_tasks (ts @ [Some t]))\<rparr>, Done)"
proof -
  have "tasks_marshal (ts @ [Some t]) = Some (marshal_tasks (ts @ [Some t]))"
    using assms(3,4) by (simp add: times_ok_marshal)
  note m = this
  show ?thesis
  proof (cases "tasks_file s")
    case None
    then show ?thesis using assms(1,2) m by (simp add: create_task_def stored_tasks_def write_file_def Let_def)
  next
    case (Some b)
    then show ?thesis
      using assms(1,2) m by (cases "b = []") (simp_all add: create_task_def stored_tasks_def write_file_def Let_def)
  qed
qed

text \<open>
  C13. Appending is exact: from a file that decodes to \<open>ts\<close>, \<open>createTask\<close>
  succeeds and leaves a file that decodes to \<open>ts\<close> followed by the new task,
  every earlier element unchanged and in its place.
\<close>

theorem create_task_appends:
  assumes "stored_tasks s = Some ts" "times_ok ts" "task_times_ok t" "db_dir s"
  shows "snd (create_task t s) = Done \<and> stored_tasks (fst (create_task t s)) = Some (ts @ [Some t])"
proof -
  have "times_ok (ts @ [Some t])" using assms(2,3) by (auto simp: times_ok_def)
  then show ?thesis
    using create_task_reads_stored[OF assms(1,4,2,3)] by (simp add: stored_after_write)
qed

theorem create_task_appends_witness:
  "let s = \<lparr>db_dir = True, tasks_file = Some (marshal_tasks [Some zero_task, None])\<rparr>;
       t = zero_task\<lparr>t_title := ''b''\<rparr>
   in stored_tasks (fst (create_task t s)) = Some [Some zero_task, None, Some t]"
proof -
  have ok: "times_ok [Some zero_task, None]"
    by (simp add: times_ok_def task_times_ok_def zero_task_def)
  let ?s = "\<lparr>db_dir = True, tasks_file = Some (marshal_tasks [Some zero_task, None])\<rparr>"
  have st: "stored_tasks ?s = Some [Some zero_task, None]"
    using stored_after_write[OF ok, of ?s] by simp
  show ?thesis
    using create_task_appends[OF st ok, of "zero_task\<lparr>t_title := ''b''\<rparr>"] by simp
qed

text \<open>
  C14. With no \<open>db/tasks.json\<close> but the directory \<open>db\<close> present,
  \<open>createTask\<close> creates the file and writes a one-element array holding the
  task.
\<close>

theorem create_task_missing_file:
  assumes "db_dir s" "tasks_file s = None" "task_times_ok t"
  shows "create_task t s = (s\<lparr>tasks_file := Some (marshal_tasks [Some t])\<rparr>, Done)
         \<and> stored_tasks (fst (create_task t s)) = Some [Some t]"
proof -
  have ok: "times_ok [Some t]" using assms(3) by (simp add: times_ok_def)
  then show ?thesis
    using assms times_ok_marshal[OF ok] by (simp add: create_task_def write_file_def stored_after_write)
qed

theorem create_task_missing_file_witness:
  "create_task (zero_task\<lparr>t_title := ''a''\<rparr>) \<lparr>db_dir = True, tasks_file = None\<rparr>
   = (\<lparr>db_dir = True, tasks_file = Some (marshal_tasks [Some (zero_task\<lparr>t_title := ''a''\<rparr>)])\<rparr>, Done)"
  using create_task_missing_file[of "\<lparr>db_dir = True, tasks_file = None\<rparr>" "zero_task\<lparr>t_title := ''a''\<rparr>"]
  by simp

text \<open>
  C15. The fatal paths before the write leave the file system as they found
  it: without the directory \<open>db\<close> the file cannot be created and
  \<open>os.ReadFile\<close> fails; a non-empty file that is not a JSON array of tasks
  stops the process at \<open>json.Unmarshal\<close>; a list with a time
  \<open>Time.MarshalJSON\<close> refuses (a year past 9999, say) stops it at
  \<open>json.Marshal\<close>; in each case before anything is written.
\<close>

theorem create_task_errors:
  "(\<not> db_dir s \<and> tasks_file s = None \<longrightarrow> create_task t s = (s, Fatal ReadError))
   \<and> (tasks_file s = Some b \<and> b \<noteq> [] \<and> unmarshal_tasks b = None \<longrightarrow> create_task t s = (s, Fatal DecodeError))
   \<and> (tasks_file s = Some b \<and> (if b \<noteq> [] then unmarshal_tasks b else Some []) = Some ts
      \<and> tasks_marshal (ts @ [Some t]) = None \<longrightarrow> create_task t s = (s, Fatal EncodeError))"
  by (simp add: create_task_def)

theorem create_task_errors_witness:
  "create_task zero_task \<lparr>db_dir = False, tasks_file = None\<rparr> = (\<lparr>db_dir = False, tasks_file = None\<rparr>, Fatal ReadError)
   \<and> create_task zero_task \<lparr>db_dir = True, tasks_file = Some ''{}''\<rparr>
     = (\<lparr>db_dir = True, tasks_file = Some ''{}''\<rparr>, Fatal DecodeError)
   \<and> create_task (zero_task\<lparr>t_due := zero_time\<lparr>tm_year := 10000\<rparr>\<rparr>) \<lparr>db_dir = True, tasks_file = Some []\<rparr>
     = (\<lparr>db_dir = True, tasks_file = Some []\<rparr>, Fatal EncodeError)"
proof -
  have "unmarshal_tasks ''{}'' = None"
    by (simp add: unmarshal_tasks_def json_parse_def decode_tasks_def is_ws_def skip_ws_def)
  moreover have "marshal_time (zero_time\<lparr>tm_year := 10000\<rparr>) = None"
    by (rule marshal_time_wide_year) (simp add: zero_time_def)
  then have "tasks_marshal ([] @ [Some (zero_task\<lparr>t_due := zero_time\<lparr>tm_year := 10000\<rparr>\<rparr>)]) = None"
    by (intro tasks_marshal_fails[of "zero_task\<lparr>t_due := zero_time\<lparr>tm_year := 10000\<rparr>\<rparr>"])
       (simp_all add: task_marshal_ok_def)
  ultimately show ?thesis
    using create_task_errors[of "\<lparr>db_dir = False, tasks_file = None\<rparr>" zero_task]
      create_task_errors[of "\<lparr>db_dir = True, tasks_file = Some ''{}''\<rparr>" zero_task "''{}''"]
      create_task_errors[of "\<lparr>db_dir = True, tasks_file = Some []\<rparr>" "zero_task\<lparr>t_due := zero_time\<lparr>tm_year := 10000\<rparr>\<rparr>"
        "[]" "[]"]
    by simp
qed

text \<open>
  C17. A file that holds only white space (a lone newline, say) is not
  treated as empty: \<open>len(b) != 0\<close>, \<open>json.Unmarshal\<close> fails on it, and
  the process stops without writing.
\<close>

theorem whitespace_file_fatal:
  assumes "b \<noteq> []" "\<forall>c \<in> set b. is_ws c" "tasks_file s = Some b"
  shows "create_task t s = (s, Fatal DecodeError)"
proof -
  have "skip_ws b = []" using assms(2) by (simp add: skip_ws_def)
  then have "parse_value f b = None" for f by (cases f) simp_all
  then have "unmarshal_tasks b = None" by (simp add: unmarshal_tasks_def json_parse_def)
  then show ?thesis using assms(1,3) by (simp add: create_task_def)
qed

theorem whitespace_file_fatal_witness:
  "create_task zero_task \<lparr>db_dir = True, tasks_file = Some [CHR 0x0A]\<rparr>
   = (\<lparr>db_dir = True, tasks_file = Some [CHR 0x0A]\<rparr>, Fatal DecodeError)"
  by (rule whitespace_file_fatal) (simp_all add: is_ws_def)



end
