(* ===== verification/Cursor_Mode.thy ===== *)
theory Cursor_Mode
  imports Prelude
begin

text \<open>
  The cursor display mode (\<open>cursor.Mode\<close> of the bubbles library, an \<open>int\<close>
  with the constants \<open>CursorBlink = 0\<close>, \<open>CursorStatic = 1\<close>,
  \<open>CursorHide = 2\<close>), the per-field cursor whose mode the form retargets, and
  the form's mode-cycling step of \<open>Update\<close> on \<open>ctrl+r\<close>
  (src/main.go, lines 147--151). The mode is kept as the Go \<open>int\<close> it is, so
  that "the mode stays in range" is a property, not a typing fact.
\<close>

definition CursorBlink :: int where "CursorBlink = 0"
definition CursorStatic :: int where "CursorStatic = 1"
definition CursorHide :: int where "CursorHide = 2"

lemmas cursor_mode_consts [simp] = CursorBlink_def CursorStatic_def CursorHide_def

text \<open>\<open>Mode.String\<close> indexes a three-element array: out of range it panics.\<close>

definition mode_string :: "int \<Rightarrow> string option" where
  "mode_string m =
     (if m = CursorBlink then Some ''blink''
      else if m = CursorStatic then Some ''static''
      else if m = CursorHide then Some ''hidden''
      else None)"

definition mode_ok :: "int \<Rightarrow> bool" where
  "mode_ok m \<longleftrightarrow> CursorBlink \<le> m \<and> m \<le> CursorHide"

subsection \<open>The form's cycling step\<close>

text \<open>
  \<^verbatim>\<open>m.cursorMode++
if m.cursorMode > cursor.CursorHide { m.cursorMode = cursor.CursorBlink }\<close>
\<close>

definition next_mode :: "int \<Rightarrow> int" where
  "next_mode cm = (let cm' = cm + 1 in if cm' > CursorHide then CursorBlink else cm')"

subsection \<open>The cursor of one text input\<close>

record cursor =
  cur_mode :: int
  cur_focus :: bool
  cur_blink :: bool

definition cursor_new :: cursor where
  "cursor_new = \<lparr>cur_mode = CursorBlink, cur_focus = False, cur_blink = True\<rparr>"

text \<open>
  \<open>Cursor.SetMode\<close>: a mode out of range is ignored; otherwise it is stored,
  and the blink command is returned for \<open>CursorBlink\<close>.
\<close>

definition cursor_set_mode :: "int \<Rightarrow> cursor \<Rightarrow> cursor \<times> cmd" where
  "cursor_set_mode mode c =
     (if mode < CursorBlink \<or> mode > CursorHide then (c, NilCmd)
      else let c' = c\<lparr>cur_mode := mode, cur_blink := (mode = CursorHide \<or> \<not> cur_focus c)\<rparr>
           in (c', if mode = CursorBlink then BlinkCmd else NilCmd))"

definition cursor_focus :: "cursor \<Rightarrow> cursor \<times> cmd" where
  "cursor_focus c =
     (let c' = c\<lparr>cur_focus := True, cur_blink := (cur_mode c = CursorHide)\<rparr>
      in (c', if cur_mode c' = CursorBlink then BlinkCmd else NilCmd))"

definition cursor_blur :: "cursor \<Rightarrow> cursor" where
  "cursor_blur c = c\<lparr>cur_focus := False, cur_blink := True\<rparr>"

subsection \<open>Properties\<close>

lemma next_mode_ok [form_simps]: "mode_ok cm \<Longrightarrow> mode_ok (next_mode cm)"
  by (auto simp: mode_ok_def next_mode_def Let_def)

lemma mode_string_ok: "mode_ok m \<longleftrightarrow> mode_string m \<noteq> None"
  by (auto simp: mode_ok_def mode_string_def)


lemma next_mode_values:
  "next_mode CursorBlink = CursorStatic \<and> next_mode CursorStatic = CursorHide
   \<and> next_mode CursorHide = CursorBlink"
  by (simp add: next_mode_def)

lemma cursor_set_mode_ok:
  "mode_ok mode \<Longrightarrow> cur_mode (fst (cursor_set_mode mode c)) = mode"
  by (auto simp: mode_ok_def cursor_set_mode_def Let_def)

lemma cursor_focus_mode [simp]: "cur_mode (fst (cursor_focus c)) = cur_mode c"
  by (simp add: cursor_focus_def Let_def)

lemma cursor_blur_mode [simp]: "cur_mode (cursor_blur c) = cur_mode c"
  by (simp add: cursor_blur_def)

text \<open>
  C8. Mode cycling is a cyclic permutation of the three modes: from any mode
  in range it stays in range, never stays put, does not return after two
  steps, and returns after three.
\<close>

theorem cursor_mode_cycle3:
  assumes "mode_ok cm"
  shows "mode_ok (next_mode cm) \<and> next_mode cm \<noteq> cm \<and> next_mode (next_mode cm) \<noteq> cm
         \<and> next_mode (next_mode (next_mode cm)) = cm"
  using assms by (auto simp: mode_ok_def next_mode_def Let_def)

theorem cursor_mode_cycle3_witness:
  "next_mode (next_mode (next_mode CursorStatic)) = CursorStatic"
  using cursor_mode_cycle3[of CursorStatic] by (simp add: mode_ok_def)

end
