(* ===== verification/Text_Input.thy ===== *)
theory Text_Input
  imports Cursor_Mode
begin

text \<open>
  The editable field: the \<open>textinput.Model\<close> of the bubbles library, which
  the form keeps six of (src/main.go, \<open>model.inputs\<close>). The library is not
  part of this repository; it is modelled from the spec (section 4.3: edits at
  the caret, the per-field \<open>CharLimit\<close>, a character past the limit dropped,
  unfocused fields ignoring edits) and from the library's documented key map.
  The record keeps the fields the form reads or writes; the operations are
  \<open>New\<close>, \<open>Focus\<close>, \<open>Blur\<close> and \<open>Update\<close>. Word-wise edits
  (\<open>ctrl+w\<close>, \<open>alt+d\<close>, word moves), clipboard paste and suggestions are
  not modelled: in the model those keys leave the field unchanged.
\<close>

datatype style = NoStyle | FocusedStyle

record text_input =
  ti_value :: "rune list"
  ti_pos :: nat
  ti_focus :: bool
  ti_char_limit :: int
  ti_placeholder :: string
  ti_prompt_style :: style
  ti_text_style :: style
  ti_cursor :: cursor

definition textinput_new :: text_input where
  "textinput_new =
     \<lparr>ti_value = [], ti_pos = 0, ti_focus = False, ti_char_limit = 0, ti_placeholder = [],
      ti_prompt_style = NoStyle, ti_text_style = NoStyle, ti_cursor = cursor_new\<rparr>"

definition textinput_focus :: "text_input \<Rightarrow> text_input \<times> cmd" where
  "textinput_focus m =
     (let (c, cm) = cursor_focus (ti_cursor m) in (m\<lparr>ti_focus := True, ti_cursor := c\<rparr>, cm))"

definition textinput_blur :: "text_input \<Rightarrow> text_input" where
  "textinput_blur m = m\<lparr>ti_focus := False, ti_cursor := cursor_blur (ti_cursor m)\<rparr>"

definition textinput_set_mode :: "int \<Rightarrow> text_input \<Rightarrow> text_input \<times> cmd" where
  "textinput_set_mode mode m =
     (let (c, cm) = cursor_set_mode mode (ti_cursor m) in (m\<lparr>ti_cursor := c\<rparr>, cm))"

subsection \<open>Typed runes\<close>

text \<open>
  The sanitizer of a single-line input: a CR LF pair, a CR, an LF and a tab
  each become one space, other control characters are dropped.
\<close>

definition is_control :: "rune \<Rightarrow> bool" where
  "is_control c \<longleftrightarrow> of_char c < (32::nat) \<or> ((127::nat) \<le> of_char c \<and> of_char c < (160::nat))"

fun sanitize :: "rune list \<Rightarrow> rune list" where
  "sanitize [] = []"
| "sanitize (c # cs) =
     (if of_char c = (13::nat) \<and> cs \<noteq> [] \<and> of_char (hd cs) = (10::nat) then CHR '' '' # sanitize (tl cs)
      else if of_char c \<in> {9, 10, 13::nat} then CHR '' '' # sanitize cs
      else if is_control c then sanitize cs
      else c # sanitize cs)"

text \<open>
  \<open>insertRunesFromUserInput\<close>: with a positive \<open>CharLimit\<close>, no room means
  nothing is inserted, and a longer input is cut to the room left.
\<close>

definition insert_runes :: "rune list \<Rightarrow> text_input \<Rightarrow> text_input" where
  "insert_runes rs m =
     (let paste = sanitize rs; v = ti_value m; p = ti_pos m;
          avail = ti_char_limit m - int (length v)
      in if 0 < ti_char_limit m \<and> avail \<le> 0 then m
         else let paste' = (if 0 < ti_char_limit m then take (nat avail) paste else paste)
              in m\<lparr>ti_value := take p v @ paste' @ drop p v, ti_pos := p + length paste'\<rparr>)"

subsection \<open>Key handling of a focused input\<close>

text \<open>\<open>SetCursor\<close> clamps the position to the value.\<close>

definition set_cursor :: "nat \<Rightarrow> text_input \<Rightarrow> text_input" where
  "set_cursor p m = m\<lparr>ti_pos := min p (length (ti_value m))\<rparr>"

definition ti_handle_key :: "key \<Rightarrow> text_input \<Rightarrow> text_input" where
  "ti_handle_key k m =
     (let s = key_string k; v = ti_value m; p = ti_pos m in
      if s \<in> set [''backspace'', ''ctrl+h''] then
        (if v \<noteq> [] then
           let m' = m\<lparr>ti_value := take (p - 1) v @ drop p v\<rparr>
           in if 0 < p then set_cursor (p - 1) m' else m'
         else m)
      else if s \<in> set [''left'', ''ctrl+b''] then (if 0 < p then set_cursor (p - 1) m else m)
      else if s \<in> set [''right'', ''ctrl+f''] then (if p < length v then set_cursor (p + 1) m else m)
      else if s \<in> set [''home'', ''ctrl+a''] then set_cursor 0 m
      else if s \<in> set [''delete'', ''ctrl+d''] then
        (if v \<noteq> [] \<and> p < length v then m\<lparr>ti_value := take p v @ drop (Suc p) v\<rparr> else m)
      else if s \<in> set [''end'', ''ctrl+e''] then set_cursor (length v) m
      else if s = ''ctrl+k'' then set_cursor (length (take p v)) (m\<lparr>ti_value := take p v\<rparr>)
      else if s = ''ctrl+u'' then set_cursor 0 (m\<lparr>ti_value := drop p v\<rparr>)
      else if s \<in> set [''ctrl+w'', ''alt+backspace'', ''alt+left'', ''ctrl+left'', ''alt+b'',
                      ''alt+right'', ''ctrl+right'', ''alt+f'', ''alt+delete'', ''alt+d'',
                      ''ctrl+v'', ''tab'', ''down'', ''ctrl+n'', ''up'', ''ctrl+p''] then m
      else insert_runes (key_runes k) m)"

text \<open>The cursor's blink tick: it toggles a focused blinking cursor.\<close>

definition cursor_tick :: "cursor \<Rightarrow> cursor \<times> cmd" where
  "cursor_tick c =
     (if cur_mode c \<noteq> CursorBlink \<or> \<not> cur_focus c then (c, NilCmd)
      else (c\<lparr>cur_blink := \<not> cur_blink c\<rparr>, BlinkCmd))"

text \<open>
  \<open>textinput.Update\<close>: an unfocused input ignores every message; a key that
  moves the caret of a blinking cursor restarts the blink.
\<close>

definition textinput_update :: "msg \<Rightarrow> text_input \<Rightarrow> text_input \<times> cmd" where
  "textinput_update ms m =
     (if \<not> ti_focus m then (m, NilCmd)
      else case ms of
        KeyMsg k \<Rightarrow>
          let m' = ti_handle_key k m in
          if ti_pos m' \<noteq> ti_pos m \<and> cur_mode (ti_cursor m') = CursorBlink
          then (m'\<lparr>ti_cursor := (ti_cursor m')\<lparr>cur_blink := False\<rparr>\<rparr>, BlinkCmd)
          else (m', NilCmd)
      | BlinkMsg \<Rightarrow> let (c, cm) = cursor_tick (ti_cursor m) in (m\<lparr>ti_cursor := c\<rparr>, cm)
      | OtherMsg \<Rightarrow> (m, NilCmd))"

subsection \<open>The field invariant\<close>

text \<open>
  The caret lies within the value, and a positive limit bounds the value's
  length.
\<close>

definition ti_inv :: "text_input \<Rightarrow> bool" where
  "ti_inv m \<longleftrightarrow> ti_pos m \<le> length (ti_value m)
               \<and> (0 < ti_char_limit m \<longrightarrow> int (length (ti_value m)) \<le> ti_char_limit m)"

subsection \<open>Properties\<close>

lemma sanitize_length: "length (sanitize rs) \<le> length rs"
  by (induction rs rule: sanitize.induct) auto

lemma ti_inv_set_cursor [form_simps]:
  "(0 < ti_char_limit m \<longrightarrow> int (length (ti_value m)) \<le> ti_char_limit m) \<Longrightarrow> ti_inv (set_cursor p m)"
  by (simp add: ti_inv_def set_cursor_def)

lemma set_cursor_value [simp]:
  "ti_value (set_cursor p m) = ti_value m" "ti_focus (set_cursor p m) = ti_focus m"
  "ti_char_limit (set_cursor p m) = ti_char_limit m"
  by (simp_all add: set_cursor_def)

lemma insert_runes_inv [form_simps]: "ti_inv m \<Longrightarrow> ti_inv (insert_runes rs m)"
  by (auto simp: ti_inv_def insert_runes_def Let_def)

lemma ti_inv_shrink:
  "ti_inv m \<Longrightarrow> length v' \<le> length (ti_value m) \<Longrightarrow> ti_inv (set_cursor q (m\<lparr>ti_value := v'\<rparr>))"
  by (auto simp: ti_inv_def set_cursor_def)

lemma ti_inv_move: "ti_inv m \<Longrightarrow> ti_inv (set_cursor q m)"
  by (auto simp: ti_inv_def set_cursor_def)

lemma ti_inv_shrink_at:
  "ti_inv m \<Longrightarrow> ti_pos m \<le> length v' \<Longrightarrow> length v' \<le> length (ti_value m)
   \<Longrightarrow> ti_inv (m\<lparr>ti_value := v'\<rparr>)"
  by (auto simp: ti_inv_def)

lemma ti_handle_key_inv [form_simps]: "ti_inv m \<Longrightarrow> ti_inv (ti_handle_key k m)"
  unfolding ti_handle_key_def Let_def
  by (simp add: ti_inv_shrink ti_inv_move ti_inv_shrink_at insert_runes_inv split: if_split)

lemma cursor_tick_mode [simp]: "cur_mode (fst (cursor_tick c)) = cur_mode c"
  by (simp add: cursor_tick_def)

lemma ti_inv_cursor [simp]:
  "ti_inv (m\<lparr>ti_cursor := c\<rparr>) = ti_inv m"
  "ti_inv (m\<lparr>ti_prompt_style := a, ti_text_style := b\<rparr>) = ti_inv m"
  by (simp_all add: ti_inv_def)

lemma textinput_update_inv [form_simps]: "ti_inv m \<Longrightarrow> ti_inv (fst (textinput_update ms m))"
  by (simp add: textinput_update_def Let_def ti_handle_key_inv split: msg.split prod.split)

lemma textinput_update_unfocused: "\<not> ti_focus m \<Longrightarrow> textinput_update ms m = (m, NilCmd)"
  by (simp add: textinput_update_def)

lemma insert_runes_at_limit:
  "0 < ti_char_limit m \<Longrightarrow> ti_char_limit m \<le> int (length (ti_value m)) \<Longrightarrow> insert_runes rs m = m"
  by (simp add: insert_runes_def Let_def)

lemma textinput_typed_at_limit:
  assumes "0 < ti_char_limit m" "int (length (ti_value m)) = ti_char_limit m"
  shows "textinput_update (KeyMsg (KeyRunes [c])) m = (m, NilCmd)"
  using assms by (simp add: textinput_update_def ti_handle_key_def insert_runes_at_limit)

lemma textinput_typed_inserts:
  assumes "ti_focus m" "ti_char_limit m \<le> 0 \<or> int (length (ti_value m)) < ti_char_limit m"
    and "\<not> is_control c"
  shows "ti_value (fst (textinput_update (KeyMsg (KeyRunes [c])) m))
         = take (ti_pos m) (ti_value m) @ [c] @ drop (ti_pos m) (ti_value m)"
  using assms
  by (auto simp: textinput_update_def ti_handle_key_def insert_runes_def Let_def is_control_def)

subsection \<open>Frame facts\<close>

lemma ti_handle_key_frame [simp]:
  "ti_focus (ti_handle_key k m) = ti_focus m"
  "ti_char_limit (ti_handle_key k m) = ti_char_limit m"
  "ti_cursor (ti_handle_key k m) = ti_cursor m"
  unfolding ti_handle_key_def Let_def insert_runes_def set_cursor_def
  by (simp_all split: if_split)

lemma textinput_update_frame [simp]:
  "ti_focus (fst (textinput_update ms m)) = ti_focus m"
  "ti_char_limit (fst (textinput_update ms m)) = ti_char_limit m"
  "cur_mode (ti_cursor (fst (textinput_update ms m))) = cur_mode (ti_cursor m)"
  by (simp_all add: textinput_update_def Let_def cursor_tick_def split: msg.split)

lemma textinput_update_no_quit [simp]: "\<not> quits (snd (textinput_update ms m))"
  by (simp add: textinput_update_def Let_def cursor_tick_def split: msg.split prod.split)

lemma textinput_focus_frame [simp]:
  "ti_focus (fst (textinput_focus m))" "ti_inv (fst (textinput_focus m)) = ti_inv m"
  "cur_mode (ti_cursor (fst (textinput_focus m))) = cur_mode (ti_cursor m)"
  "ti_value (fst (textinput_focus m)) = ti_value m"
  "ti_char_limit (fst (textinput_focus m)) = ti_char_limit m"
  "\<not> quits (snd (textinput_focus m))"
  by (simp_all add: textinput_focus_def ti_inv_def cursor_focus_def Let_def)

lemma textinput_blur_frame [simp]:
  "\<not> ti_focus (textinput_blur m)" "ti_inv (textinput_blur m) = ti_inv m"
  "cur_mode (ti_cursor (textinput_blur m)) = cur_mode (ti_cursor m)"
  "ti_value (textinput_blur m) = ti_value m"
  "ti_char_limit (textinput_blur m) = ti_char_limit m"
  by (simp_all add: textinput_blur_def ti_inv_def)

lemma textinput_set_mode_frame [simp]:
  "ti_focus (fst (textinput_set_mode cm m)) = ti_focus m"
  "ti_inv (fst (textinput_set_mode cm m)) = ti_inv m"
  "ti_value (fst (textinput_set_mode cm m)) = ti_value m"
  "\<not> quits (snd (textinput_set_mode cm m))"
  by (simp_all add: textinput_set_mode_def cursor_set_mode_def ti_inv_def Let_def)

lemma textinput_set_mode_ok [simp]:
  "mode_ok cm \<Longrightarrow> cur_mode (ti_cursor (fst (textinput_set_mode cm m))) = cm"
  by (auto simp: textinput_set_mode_def cursor_set_mode_def mode_ok_def Let_def)

end
