(* ===== verification/Focus_Ring.thy ===== *)
theory Focus_Ring
  imports Prelude
begin

text \<open>
  The focus ring: the focus index of the form ranges over the \<open>n\<close> fields
  (\<open>0 .. n-1\<close>), the Submit button (\<open>n\<close>) and the Cancel button
  (\<open>n+1\<close>). One navigation key moves it by one (src/main.go, \<open>Update\<close>,
  lines 168--179): \<open>up\<close>, \<open>shift+tab\<close> and \<open>left\<close> go back, every other
  navigation key forward; past the high end the index wraps to \<open>0\<close>, below
  \<open>0\<close> it wraps to \<open>n\<close> (Submit), not to \<open>n+1\<close> (Cancel).
\<close>

definition backward_keys :: "string list" where
  "backward_keys = [''up'', ''shift+tab'', ''left'']"

definition next_focus :: "string \<Rightarrow> int \<Rightarrow> int \<Rightarrow> int" where
  "next_focus s n i =
     (let i' = (if s \<in> set backward_keys then i - 1 else i + 1)
      in if i' > n + 1 then 0 else if i' < 0 then n else i')"

definition focus_ok :: "int \<Rightarrow> int \<Rightarrow> bool" where
  "focus_ok n i \<longleftrightarrow> 0 \<le> i \<and> i \<le> n + 1"

subsection \<open>One step\<close>

lemma next_focus_forward:
  "s \<notin> set backward_keys \<Longrightarrow> focus_ok n i \<Longrightarrow> next_focus s n i = (i + 1) mod (n + 2)"
proof -
  assume s: "s \<notin> set backward_keys" and ok: "focus_ok n i"
  show ?thesis
  proof (cases "i = n + 1")
    case True
    then show ?thesis using s by (simp add: next_focus_def add.commute)
  next
    case False
    with ok have "0 \<le> i + 1" "i + 1 < n + 2" by (auto simp: focus_ok_def)
    then show ?thesis using s False ok by (auto simp: next_focus_def focus_ok_def)
  qed
qed

lemma next_focus_backward:
  "s \<in> set backward_keys \<Longrightarrow> next_focus s n i = (if i - 1 > n + 1 then 0 else if i < 1 then n else i - 1)"
  by (simp add: next_focus_def)

lemma iterate_forward:
  assumes "s \<notin> set backward_keys" "focus_ok n i"
  shows "(next_focus s n ^^ k) i = (i + int k) mod (n + 2)"
  using assms(2)
proof (induction k)
  case 0
  then show ?case by (simp add: focus_ok_def)
next
  case (Suc k)
  have "0 < n + 2" using Suc.prems by (simp add: focus_ok_def)
  then have "0 \<le> (i + int k) mod (n + 2)" "(i + int k) mod (n + 2) < n + 2"
    by (rule pos_mod_sign, rule pos_mod_bound)
  then have "focus_ok n ((i + int k) mod (n + 2))"
    by (simp add: focus_ok_def)
  then have "next_focus s n ((i + int k) mod (n + 2)) = ((i + int k) mod (n + 2) + 1) mod (n + 2)"
    by (rule next_focus_forward[OF assms(1)])
  also have "\<dots> = (i + int (Suc k)) mod (n + 2)"
    by (simp add: mod_simps ac_simps)
  finally show ?case using Suc by simp
qed

subsection \<open>Properties of the ring\<close>

text \<open>
  C4. Forward navigation is a full cycle: from any index in the ring,
  \<open>n + 2\<close> forward steps come back to it.
\<close>

theorem forward_full_cycle:
  assumes "s \<notin> set backward_keys" "focus_ok n i"
  shows "(next_focus s n ^^ nat (n + 2)) i = i"
proof -
  have n: "0 \<le> n + 2" "i < n + 2" "0 \<le> i" using assms(2) by (auto simp: focus_ok_def)
  have "(next_focus s n ^^ nat (n + 2)) i = (i + int (nat (n + 2))) mod (n + 2)"
    using assms by (rule iterate_forward)
  also have "\<dots> = i" using n by simp
  finally show ?thesis .
qed

theorem forward_full_cycle_witness:
  "(next_focus ''tab'' 6 ^^ 8) 3 = 3"
  using forward_full_cycle[of "''tab''" 6 3] by (simp add: backward_keys_def focus_ok_def)

text \<open>
  C5. Backward navigation is not the mirror of forward navigation: from the
  first field it lands on Submit (index \<open>n\<close>), and no backward step from an
  index in the ring ever lands on Cancel (index \<open>n + 1\<close>).
\<close>

theorem backward_wraps_to_submit:
  assumes "s \<in> set backward_keys" "0 \<le> n"
  shows "next_focus s n 0 = n \<and> (\<forall>i. focus_ok n i \<longrightarrow> next_focus s n i \<noteq> n + 1)"
  using assms by (auto simp: next_focus_def focus_ok_def)

theorem backward_wraps_to_submit_witness:
  "next_focus ''shift+tab'' 6 0 = 6 \<and> next_focus ''up'' 6 7 \<noteq> 7"
  using backward_wraps_to_submit[of "''shift+tab''" 6]
    backward_wraps_to_submit[of "''up''" 6, THEN conjunct2, rule_format, of 7]
  by (simp add: backward_keys_def focus_ok_def)

text \<open>
  C6. Whatever index it starts from, one navigation step leaves the focus
  index inside the ring \<open>[0, n + 1]\<close>.
\<close>

theorem next_focus_in_range: "0 \<le> n \<Longrightarrow> focus_ok n (next_focus s n i)"
  by (auto simp: next_focus_def focus_ok_def Let_def)

theorem next_focus_in_range_witness: "focus_ok 6 (next_focus ''down'' 6 7)"
  using next_focus_in_range[of 6 "''down''" 7] by simp

end
