(* ===== verification/Form.thy ===== *)
theory Form
  imports Text_Input Focus_Ring
begin

text \<open>
  The form controller of src/main.go: the \<open>model\<close> struct (focus index,
  the six text inputs, the process-wide cursor mode), \<open>initialModel\<close>,
  \<open>Update\<close> with its four branches (quit keys, \<open>ctrl+r\<close>, navigation
  keys, everything else to \<open>updateInputs\<close>), and the Bubble Tea event loop
  that feeds it messages until a command quits. The invariant \<open>form_inv\<close>
  ties the focus index to the one focused input.
\<close>

record model =
  focus_index :: int
  inputs :: "text_input list"
  cursor_mode :: int

subsection \<open>\<open>initialModel\<close> (lines 91--133)\<close>

definition focused_styles :: "text_input \<Rightarrow> text_input" where
  "focused_styles t = t\<lparr>ti_prompt_style := FocusedStyle, ti_text_style := FocusedStyle\<rparr>"

definition no_styles :: "text_input \<Rightarrow> text_input" where
  "no_styles t = t\<lparr>ti_prompt_style := NoStyle, ti_text_style := NoStyle\<rparr>"

definition init_input :: "nat \<Rightarrow> text_input" where
  "init_input i =
     (let t = textinput_new\<lparr>ti_char_limit := 32\<rparr> in
      if i = 0 then focused_styles (fst (textinput_focus (t\<lparr>ti_placeholder := ''Title''\<rparr>)))
      else if i = 1 then t\<lparr>ti_placeholder := ''Description'', ti_char_limit := 64\<rparr>
      else if i = 2 then t\<lparr>ti_placeholder := ''Urgency'', ti_char_limit := 64\<rparr>
      else if i = 3 then t\<lparr>ti_placeholder := ''Status'', ti_char_limit := 64\<rparr>
      else if i = 4 then t\<lparr>ti_placeholder := ''Assigned By ( Email )'', ti_char_limit := 64\<rparr>
      else if i = 5 then t\<lparr>ti_placeholder := ''Comments'', ti_char_limit := 64\<rparr>
      else t)"

definition initial_model :: model where
  "initial_model = \<lparr>focus_index = 0, inputs = map init_input [0..<6], cursor_mode = CursorBlink\<rparr>"

subsection \<open>\<open>Update\<close> (lines 139--203) and \<open>updateInputs\<close> (lines 205--215)\<close>

text \<open>\<open>ctrl+r\<close>: the next mode, set on every input's cursor.\<close>

definition cycle_mode :: "model \<Rightarrow> model \<times> cmd" where
  "cycle_mode m =
     (let cm = next_mode (cursor_mode m);
          rs = map (textinput_set_mode cm) (inputs m)
      in (m\<lparr>cursor_mode := cm, inputs := map fst rs\<rparr>, tea_batch (map snd rs)))"

text \<open>
  The loop after a focus move: the input at the new index is focused and
  styled, every other one blurred and unstyled; only \<open>Focus\<close> returns a
  command.
\<close>

definition restyle_input :: "int \<Rightarrow> nat \<Rightarrow> text_input \<Rightarrow> text_input \<times> cmd" where
  "restyle_input fi i t =
     (if int i = fi then let (t', c) = textinput_focus t in (focused_styles t', c)
      else (no_styles (textinput_blur t), NilCmd))"

definition restyle :: "int \<Rightarrow> text_input list \<Rightarrow> text_input list \<times> cmd" where
  "restyle fi ts =
     (let rs = map (\<lambda>i. restyle_input fi i (ts ! i)) [0..<length ts]
      in (map fst rs, tea_batch (map snd rs)))"

definition nav_keys :: "string list" where
  "nav_keys = [''tab'', ''shift+tab'', ''enter'', ''up'', ''left'', ''right'', ''down'']"

definition navigate :: "string \<Rightarrow> model \<Rightarrow> model \<times> cmd" where
  "navigate s m =
     (if s = ''enter'' \<and> focus_index m = int (length (inputs m)) then (m, QuitCmd)
      else let fi = next_focus s (int (length (inputs m))) (focus_index m);
               (ts, c) = restyle fi (inputs m)
           in (m\<lparr>focus_index := fi, inputs := ts\<rparr>, c))"

definition update_inputs :: "msg \<Rightarrow> model \<Rightarrow> model \<times> cmd" where
  "update_inputs ms m =
     (let rs = map (textinput_update ms) (inputs m)
      in (m\<lparr>inputs := map fst rs\<rparr>, tea_batch (map snd rs)))"

definition form_update :: "msg \<Rightarrow> model \<Rightarrow> model \<times> cmd" where
  "form_update ms m =
     (case ms of
        KeyMsg k \<Rightarrow>
          (let s = key_string k in
           if s \<in> set [''ctrl+c'', ''esc''] then (m, QuitCmd)
           else if s = ''ctrl+r'' then cycle_mode m
           else if s \<in> set nav_keys then navigate s m
           else update_inputs ms m)
      | _ \<Rightarrow> update_inputs ms m)"

subsection \<open>The Bubble Tea event loop\<close>

text \<open>
  \<open>tea.NewProgram(initialModel()).Run()\<close> hands each message to
  \<open>Update\<close> and stops once a returned command quits; the messages after it
  are never delivered. A run either quits (with the final model, the message
  that made it quit and the undelivered rest) or is still waiting for input.
\<close>

datatype run_result = Quit model msg "msg list" | Waiting model

fun tea_run :: "model \<Rightarrow> msg list \<Rightarrow> run_result" where
  "tea_run m [] = Waiting m"
| "tea_run m (e # es) =
     (let (m', c) = form_update e m in if quits c then Quit m' e es else tea_run m' es)"

fun run_model :: "run_result \<Rightarrow> model" where
  "run_model (Quit m _ _) = m"
| "run_model (Waiting m) = m"

subsection \<open>The form invariant\<close>

text \<open>
  The focus index is in the ring; exactly the input at the focus index is
  focused; the process-wide cursor mode is in range and is the mode of every
  input's cursor; every input keeps its field invariant.
\<close>

definition form_inv :: "model \<Rightarrow> bool" where
  "form_inv m \<longleftrightarrow>
     focus_ok (int (length (inputs m))) (focus_index m)
     \<and> (\<forall>i < length (inputs m). ti_focus (inputs m ! i) \<longleftrightarrow> int i = focus_index m)
     \<and> mode_ok (cursor_mode m)
     \<and> (\<forall>t \<in> set (inputs m). cur_mode (ti_cursor t) = cursor_mode m \<and> ti_inv t)"

subsection \<open>Frame facts of the branches\<close>

lemma restyle_input_frame [simp]:
  "ti_focus (fst (restyle_input fi i t)) \<longleftrightarrow> int i = fi"
  "ti_inv (fst (restyle_input fi i t)) = ti_inv t"
  "cur_mode (ti_cursor (fst (restyle_input fi i t))) = cur_mode (ti_cursor t)"
  "ti_value (fst (restyle_input fi i t)) = ti_value t"
  "ti_char_limit (fst (restyle_input fi i t)) = ti_char_limit t"
  "\<not> quits (snd (restyle_input fi i t))"
  by (simp_all add: restyle_input_def focused_styles_def no_styles_def split_def Let_def)

lemma restyle_length [simp]: "length (fst (restyle fi ts)) = length ts"
  by (simp add: restyle_def Let_def)

lemma restyle_nth [simp]:
  "i < length ts \<Longrightarrow> fst (restyle fi ts) ! i = fst (restyle_input fi i (ts ! i))"
  by (simp add: restyle_def Let_def)

lemma restyle_no_quit [simp]: "\<not> quits (snd (restyle fi ts))"
  by (simp add: restyle_def Let_def)

lemma set_restyle:
  "t' \<in> set (fst (restyle fi ts)) \<Longrightarrow> \<exists>i < length ts. t' = fst (restyle_input fi i (ts ! i))"
  by (auto simp: restyle_def Let_def)

lemma update_inputs_frame [simp]:
  "length (inputs (fst (update_inputs ms m))) = length (inputs m)"
  "i < length (inputs m) \<Longrightarrow> inputs (fst (update_inputs ms m)) ! i = fst (textinput_update ms (inputs m ! i))"
  "focus_index (fst (update_inputs ms m)) = focus_index m"
  "cursor_mode (fst (update_inputs ms m)) = cursor_mode m"
  "\<not> quits (snd (update_inputs ms m))"
  by (simp_all add: update_inputs_def Let_def)

lemma cycle_mode_frame [simp]:
  "length (inputs (fst (cycle_mode m))) = length (inputs m)"
  "i < length (inputs m) \<Longrightarrow>
     inputs (fst (cycle_mode m)) ! i = fst (textinput_set_mode (next_mode (cursor_mode m)) (inputs m ! i))"
  "focus_index (fst (cycle_mode m)) = focus_index m"
  "cursor_mode (fst (cycle_mode m)) = next_mode (cursor_mode m)"
  "\<not> quits (snd (cycle_mode m))"
  by (simp_all add: cycle_mode_def Let_def)

subsection \<open>Every branch keeps the invariant\<close>

lemma form_inv_nth:
  "form_inv m \<longleftrightarrow>
     focus_ok (int (length (inputs m))) (focus_index m)
     \<and> mode_ok (cursor_mode m)
     \<and> (\<forall>i < length (inputs m). (ti_focus (inputs m ! i) \<longleftrightarrow> int i = focus_index m)
            \<and> cur_mode (ti_cursor (inputs m ! i)) = cursor_mode m \<and> ti_inv (inputs m ! i))"
  unfolding form_inv_def by (auto simp: all_set_conv_all_nth)

lemma cycle_mode_inv [form_simps]: "form_inv m \<Longrightarrow> form_inv (fst (cycle_mode m))"
  by (simp add: form_inv_nth next_mode_ok)

lemma update_inputs_inv [form_simps]: "form_inv m \<Longrightarrow> form_inv (fst (update_inputs ms m))"
  by (simp add: form_inv_nth textinput_update_inv)

lemma navigate_inv [form_simps]: "form_inv m \<Longrightarrow> form_inv (fst (navigate s m))"
proof -
  assume inv: "form_inv m"
  let ?n = "int (length (inputs m))"
  have "focus_ok ?n (next_focus s ?n (focus_index m))"
    by (auto simp: next_focus_def focus_ok_def Let_def)
  with inv show ?thesis
    by (auto simp: navigate_def form_inv_nth Let_def split_def)
qed

lemma form_update_inv_step [form_simps]:
  "form_inv m \<Longrightarrow> form_inv (fst (form_update ms m))"
  by (simp add: form_update_def Let_def cycle_mode_inv navigate_inv update_inputs_inv split: msg.split)

lemma initial_model_inv: "form_inv initial_model"
  by (simp add: form_inv_nth initial_model_def init_input_def textinput_new_def cursor_new_def
      focused_styles_def textinput_focus_def cursor_focus_def ti_inv_def focus_ok_def mode_ok_def
      less_Suc_eq numeral_eq_Suc upt_rec)

lemma tea_run_inv: "form_inv m \<Longrightarrow> form_inv (run_model (tea_run m es))"
proof (induction es arbitrary: m)
  case Nil
  then show ?case by simp
next
  case (Cons e es)
  from Cons.prems have "form_inv (fst (form_update e m))" by (rule form_update_inv_step)
  with Cons.IH show ?case by (simp add: split_def Let_def)
qed

lemma limits_unchanged:
  "map ti_char_limit (fst (restyle fi ts)) = map ti_char_limit ts"
  "map ti_char_limit (inputs (fst (cycle_mode m))) = map ti_char_limit (inputs m)"
  "map ti_char_limit (inputs (fst (update_inputs ms m))) = map ti_char_limit (inputs m)"
  by (simp_all add: restyle_def cycle_mode_def update_inputs_def Let_def comp_def
      textinput_set_mode_def split_def)

lemma form_update_frame:
  "length (inputs (fst (form_update ms m))) = length (inputs m)"
  "map ti_char_limit (inputs (fst (form_update ms m))) = map ti_char_limit (inputs m)"
  by (simp_all add: form_update_def Let_def navigate_def limits_unchanged split_def split: msg.split)

subsection \<open>Properties of the controller\<close>

text \<open>
  C1. Every message keeps the form invariant (focus index in the ring, exactly
  the input at the focus index focused, the cursor mode in range and shared by
  all inputs, every field within its limit with its caret inside the value),
  and no message adds or removes an input or changes a field's limit.
\<close>

theorem form_update_preserves_inv:
  assumes "form_inv m"
  shows "form_inv (fst (form_update ms m))
         \<and> length (inputs (fst (form_update ms m))) = length (inputs m)
         \<and> map ti_char_limit (inputs (fst (form_update ms m))) = map ti_char_limit (inputs m)"
  using form_update_inv_step[OF assms] form_update_frame by simp

theorem form_update_preserves_inv_witness:
  "form_inv (fst (form_update (KeyMsg (KeyNamed ''tab'')) initial_model))
   \<and> length (inputs (fst (form_update (KeyMsg (KeyNamed ''tab'')) initial_model))) = 6"
  using form_update_preserves_inv[OF initial_model_inv, of "KeyMsg (KeyNamed ''tab'')"]
  by (simp add: initial_model_def)

text \<open>
  C2. The form quits exactly on \<open>esc\<close> or \<open>ctrl+c\<close>, or on \<open>enter\<close> while
  Submit is focused; when it quits, the model is left as it was.
\<close>

theorem update_quits_iff:
  "(quits (snd (form_update ms m)) \<longleftrightarrow>
      (\<exists>k. ms = KeyMsg k \<and> (key_string k \<in> set [''ctrl+c'', ''esc'']
            \<or> key_string k = ''enter'' \<and> focus_index m = int (length (inputs m)))))
   \<and> (quits (snd (form_update ms m)) \<longrightarrow> fst (form_update ms m) = m)"
  by (auto simp: form_update_def navigate_def nav_keys_def Let_def split_def split: msg.split)

theorem update_quits_iff_witness:
  "quits (snd (form_update (KeyMsg (KeyNamed ''esc'')) initial_model))
   \<and> fst (form_update (KeyMsg (KeyNamed ''esc'')) initial_model) = initial_model"
  using update_quits_iff[of "KeyMsg (KeyNamed ''esc'')" initial_model] by simp

text \<open>
  C3. Every state the program reaches from \<open>initialModel\<close>, whatever
  messages it is sent, satisfies the form invariant.
\<close>

theorem reachable_states_inv: "form_inv (run_model (tea_run initial_model es))"
  using initial_model_inv by (rule tea_run_inv)

text \<open>
  C7. A rune typed into the focused field when that field is at its
  character limit changes nothing: the whole model is unchanged and no command
  is returned.
\<close>

lemma update_inputs_unchanged:
  assumes "\<forall>t \<in> set (inputs m). textinput_update ms t = (t, NilCmd)"
  shows "update_inputs ms m = (m, NilCmd)"
proof -
  have eq: "map (textinput_update ms) (inputs m) = map (\<lambda>t. (t, NilCmd)) (inputs m)"
    using assms by simp
  show ?thesis
    unfolding update_inputs_def Let_def eq by (simp add: tea_batch_def comp_def)
qed

theorem typed_at_limit_noop:
  assumes "form_inv m" "i < length (inputs m)" "focus_index m = int i"
    and "0 < ti_char_limit (inputs m ! i)"
    and "int (length (ti_value (inputs m ! i))) = ti_char_limit (inputs m ! i)"
  shows "form_update (KeyMsg (KeyRunes [c])) m = (m, NilCmd)"
proof -
  have "\<forall>t \<in> set (inputs m). textinput_update (KeyMsg (KeyRunes [c])) t = (t, NilCmd)"
    unfolding all_set_conv_all_nth
  proof (intro allI impI)
    fix j assume j: "j < length (inputs m)"
    show "textinput_update (KeyMsg (KeyRunes [c])) (inputs m ! j) = (inputs m ! j, NilCmd)"
    proof (cases "j = i")
      case True
      with assms show ?thesis by (simp add: textinput_typed_at_limit)
    next
      case False
      with assms j have "\<not> ti_focus (inputs m ! j)" by (simp add: form_inv_def)
      then show ?thesis by (rule textinput_update_unfocused)
    qed
  qed
  then show ?thesis
    by (simp add: form_update_def nav_keys_def update_inputs_unchanged)
qed

theorem typed_at_limit_noop_witness:
  "let t = (inputs initial_model ! 0)\<lparr>ti_value := replicate 32 CHR ''a'', ti_pos := 32\<rparr>;
       m = initial_model\<lparr>inputs := (inputs initial_model)[0 := t]\<rparr>
   in form_inv m \<and> form_update (KeyMsg (KeyRunes ''x'')) m = (m, NilCmd)"
proof -
  define t where "t = (inputs initial_model ! 0)\<lparr>ti_value := replicate 32 CHR ''a'', ti_pos := 32\<rparr>"
  define m where "m = initial_model\<lparr>inputs := (inputs initial_model)[0 := t]\<rparr>"
  have inv: "form_inv m"
    by (simp add: m_def t_def form_inv_nth initial_model_def init_input_def textinput_new_def
        cursor_new_def focused_styles_def textinput_focus_def cursor_focus_def ti_inv_def
        focus_ok_def mode_ok_def less_Suc_eq numeral_eq_Suc upt_rec)
  have "form_update (KeyMsg (KeyRunes [CHR ''x''])) m = (m, NilCmd)"
    using typed_at_limit_noop[OF inv, of 0]
    by (simp add: m_def t_def initial_model_def init_input_def textinput_new_def
        focused_styles_def textinput_focus_def cursor_focus_def)
  with inv show ?thesis by (simp add: Let_def flip: t_def m_def)
qed

text \<open>
  C9. \<open>ctrl+r\<close> advances the process-wide cursor mode and sets that mode on
  every input's cursor at once, leaving every value as it was.
\<close>

theorem ctrl_r_retargets_all:
  assumes "mode_ok (cursor_mode m)"
  shows "let m' = fst (form_update (KeyMsg (KeyNamed ''ctrl+r'')) m)
         in cursor_mode m' = next_mode (cursor_mode m)
            \<and> (\<forall>t \<in> set (inputs m'). cur_mode (ti_cursor t) = cursor_mode m')
            \<and> map ti_value (inputs m') = map ti_value (inputs m)"
proof -
  have ok: "mode_ok (next_mode (cursor_mode m))" using assms by (rule next_mode_ok)
  show ?thesis
    using ok by (simp add: form_update_def cycle_mode_def Let_def comp_def)
qed

theorem ctrl_r_retargets_all_witness:
  "cursor_mode (fst (form_update (KeyMsg (KeyNamed ''ctrl+r'')) initial_model)) = CursorStatic
   \<and> map (\<lambda>t. cur_mode (ti_cursor t)) (inputs (fst (form_update (KeyMsg (KeyNamed ''ctrl+r'')) initial_model)))
     = replicate 6 CursorStatic"
proof -
  define m' where "m' = fst (form_update (KeyMsg (KeyNamed ''ctrl+r'')) initial_model)"
  have ok: "mode_ok (cursor_mode initial_model)" by (simp add: initial_model_def mode_ok_def)
  note r = ctrl_r_retargets_all[OF ok, unfolded Let_def, folded m'_def]
  from r have all: "\<forall>t \<in> set (inputs m'). cur_mode (ti_cursor t) = cursor_mode m'" by blast
  from r have "cursor_mode m' = next_mode (cursor_mode initial_model)" by blast
  then have c: "cursor_mode m' = CursorStatic" by (simp add: initial_model_def next_mode_def)
  have len: "length (inputs m') = 6" by (simp add: m'_def form_update_def initial_model_def)
  show ?thesis
    using map_eq_replicate_if_all[OF all] c len by (simp flip: m'_def)
qed

text \<open>
  C10. \<open>enter\<close> on a field (or on Cancel) moves the focus exactly as \<open>tab\<close>
  does: only on Submit does it do something else.
\<close>

theorem enter_on_field_is_tab:
  "focus_index m \<noteq> int (length (inputs m)) \<Longrightarrow>
   form_update (KeyMsg (KeyNamed ''enter'')) m = form_update (KeyMsg (KeyNamed ''tab'')) m"
  by (simp add: form_update_def navigate_def nav_keys_def next_focus_def backward_keys_def)

theorem enter_on_field_is_tab_witness:
  "form_update (KeyMsg (KeyNamed ''enter'')) initial_model
   = form_update (KeyMsg (KeyNamed ''tab'')) initial_model"
  using enter_on_field_is_tab[of initial_model] by (simp add: initial_model_def)

text \<open>
  C11. \<open>enter\<close> on Cancel does not abandon the form: the program keeps
  running and the focus wraps to the first field.
\<close>

theorem enter_on_cancel_wraps:
  assumes "focus_index m = int (length (inputs m)) + 1" "inputs m \<noteq> []"
  shows "let (m', c) = form_update (KeyMsg (KeyNamed ''enter'')) m
         in \<not> quits c \<and> focus_index m' = 0 \<and> ti_focus (inputs m' ! 0)"
  using assms
  by (simp add: form_update_def navigate_def nav_keys_def next_focus_def backward_keys_def
      Let_def split_def)

theorem enter_on_cancel_wraps_witness:
  "let (m', c) = form_update (KeyMsg (KeyNamed ''enter'')) (initial_model\<lparr>focus_index := 7\<rparr>)
   in \<not> quits c \<and> focus_index m' = 0 \<and> ti_focus (inputs m' ! 0)"
  using enter_on_cancel_wraps[of "initial_model\<lparr>focus_index := 7\<rparr>"]
  by (simp add: initial_model_def)

end
