(* ===== verification/View.thy ===== *)
theory View
  imports Form
begin

text \<open>
  \<open>View\<close> (src/main.go, lines 217--246) as the render intent it builds: for
  every input the text shown (its value, or its placeholder while empty) with
  its prompt style; which button is drawn focused (lines 228--236); and the
  status line's mode name, \<open>None\<close> where \<open>Mode.String\<close> would index out of
  its table. The lipgloss colours and the layout characters are not modelled.
\<close>

record view_intent =
  vi_fields :: "(string \<times> style) list"
  vi_submit_focused :: bool
  vi_cancel_focused :: bool
  vi_mode :: "string option"

definition input_view :: "text_input \<Rightarrow> string \<times> style" where
  "input_view t = (if ti_value t = [] then ti_placeholder t else ti_value t, ti_prompt_style t)"

definition buttons :: "model \<Rightarrow> bool \<times> bool" where
  "buttons m =
     (let n = int (length (inputs m));
          (b, c) = (False, False);
          (b, c) = (if focus_index m = n then (True, c) else (b, c));
          (b, c) = (if focus_index m = n + 1 then (False, True) else (b, c))
      in (b, c))"

definition view :: "model \<Rightarrow> view_intent" where
  "view m =
     \<lparr>vi_fields = map input_view (inputs m),
      vi_submit_focused = fst (buttons m), vi_cancel_focused = snd (buttons m),
      vi_mode = mode_string (cursor_mode m)\<rparr>"

text \<open>
  The styles follow the focus: an input's prompt is emphasised exactly when it
  is focused.
\<close>

definition styles_follow_focus :: "model \<Rightarrow> bool" where
  "styles_follow_focus m \<longleftrightarrow>
     (\<forall>t \<in> set (inputs m). ti_prompt_style t = (if ti_focus t then FocusedStyle else NoStyle))"

definition emphasised :: "view_intent \<Rightarrow> nat" where
  "emphasised v =
     length (filter (\<lambda>f. snd f = FocusedStyle) (vi_fields v))
     + (if vi_submit_focused v then 1 else 0) + (if vi_cancel_focused v then 1 else 0)"

text \<open>
  The render intent as spec section 9 asks to derive it, on demand from the
  focus index, the cursor mode and each field's placeholder and value, with no
  style state kept in the fields.
\<close>

definition derived_view :: "int \<Rightarrow> int \<Rightarrow> (string \<times> string) list \<Rightarrow> view_intent" where
  "derived_view fi md fs =
     \<lparr>vi_fields = map (\<lambda>(i, ph, v). (if v = [] then ph else v, if int i = fi then FocusedStyle else NoStyle))
                   (enumerate 0 fs),
      vi_submit_focused = (fi = int (length fs)), vi_cancel_focused = (fi = int (length fs) + 1),
      vi_mode = mode_string md\<rparr>"

subsection \<open>Properties\<close>

lemma ti_handle_key_styles [simp]:
  "ti_prompt_style (ti_handle_key k m) = ti_prompt_style m"
  unfolding ti_handle_key_def Let_def insert_runes_def set_cursor_def
  by (simp split: if_split)

lemma textinput_update_styles [simp]:
  "ti_prompt_style (fst (textinput_update ms m)) = ti_prompt_style m"
  by (simp add: textinput_update_def Let_def cursor_tick_def split: msg.split)

lemma styles_preserved:
  assumes "styles_follow_focus m"
  shows "styles_follow_focus (fst (form_update ms m))"
proof -
  have set_mode: "ti_prompt_style (fst (textinput_set_mode cm t)) = ti_prompt_style t" for cm t
    by (simp add: textinput_set_mode_def split_def Let_def)
  have restyle: "ti_prompt_style (fst (restyle_input fi i t))
                 = (if ti_focus (fst (restyle_input fi i t)) then FocusedStyle else NoStyle)" for fi i t
    by (simp add: restyle_input_def focused_styles_def no_styles_def split_def Let_def)
  show ?thesis
    using assms
    by (auto simp: form_update_def styles_follow_focus_def Let_def navigate_def cycle_mode_def
        update_inputs_def restyle_def set_mode restyle split_def all_set_conv_all_nth split: msg.split)
qed

lemma styles_initial: "styles_follow_focus initial_model"
  by (simp add: styles_follow_focus_def initial_model_def init_input_def textinput_new_def
      focused_styles_def textinput_focus_def cursor_focus_def numeral_eq_Suc upt_rec)

lemma tea_run_styles:
  "styles_follow_focus m \<Longrightarrow> styles_follow_focus (run_model (tea_run m es))"
proof (induction es arbitrary: m)
  case (Cons e es)
  from Cons.prems have "styles_follow_focus (fst (form_update e m))" by (rule styles_preserved)
  with Cons.IH show ?case by (simp add: split_def Let_def)
qed simp

lemma tea_run_length: "length (inputs (run_model (tea_run m es))) = length (inputs m)"
proof (induction es arbitrary: m)
  case (Cons e es)
  then show ?case using form_update_frame(1)[of e m] by (simp add: split_def Let_def)
qed simp

lemma focused_count:
  assumes "\<forall>i < length ts. ti_focus (ts ! i) \<longleftrightarrow> int i = fi"
  shows "length (filter ti_focus ts) = (if 0 \<le> fi \<and> fi < int (length ts) then 1 else 0)"
proof -
  have "{i. i < length ts \<and> ti_focus (ts ! i)} = (if 0 \<le> fi \<and> fi < int (length ts) then {nat fi} else {})"
    using assms by auto
  then show ?thesis by (simp add: length_filter_conv_card)
qed

lemma emphasised_one:
  assumes "form_inv m" "styles_follow_focus m"
  shows "emphasised (view m) = 1"
proof -
  have st: "map input_view (inputs m) = map (\<lambda>t. (if ti_value t = [] then ti_placeholder t else ti_value t,
                                          if ti_focus t then FocusedStyle else NoStyle)) (inputs m)"
    using assms(2) by (simp add: styles_follow_focus_def input_view_def)
  have "length (filter (\<lambda>f. snd f = FocusedStyle) (map input_view (inputs m))) = length (filter ti_focus (inputs m))"
    unfolding st by (simp add: comp_def)
  also have "\<dots> = (if 0 \<le> focus_index m \<and> focus_index m < int (length (inputs m)) then 1 else 0)"
    using assms(1) by (intro focused_count) (simp add: form_inv_def)
  finally show ?thesis
    using assms(1) by (auto simp: emphasised_def view_def buttons_def form_inv_def focus_ok_def Let_def)
qed

text \<open>
  C18. In every state the program reaches, the screen emphasises exactly one
  target (one input's prompt, Submit or Cancel), the six inputs are all drawn,
  and the status line's mode name is defined (\<open>Mode.String\<close> never panics).
\<close>

theorem reachable_view_well_formed:
  "let v = view (run_model (tea_run initial_model es))
   in emphasised v = 1 \<and> length (vi_fields v) = 6 \<and> vi_mode v \<noteq> None"
proof -
  let ?m = "run_model (tea_run initial_model es)"
  have inv: "form_inv ?m" by (rule tea_run_inv[OF initial_model_inv])
  have st: "styles_follow_focus ?m" by (rule tea_run_styles[OF styles_initial])
  have len: "length (inputs ?m) = 6" by (simp add: tea_run_length initial_model_def)
  have "mode_string (cursor_mode ?m) \<noteq> None"
    using inv mode_string_ok by (simp add: form_inv_def)
  then show ?thesis using emphasised_one[OF inv st] len by (simp add: view_def)
qed

lemma view_follows_focus:
  assumes "form_inv m" "styles_follow_focus m"
  shows "view m = derived_view (focus_index m) (cursor_mode m) (map (\<lambda>t. (ti_placeholder t, ti_value t)) (inputs m))"
proof -
  have f: "map input_view (inputs m)
           = map (\<lambda>(i, ph, v). (if v = [] then ph else v, if int i = focus_index m then FocusedStyle else NoStyle))
               (enumerate 0 (map (\<lambda>t. (ti_placeholder t, ti_value t)) (inputs m)))"
  proof (rule nth_equalityI)
    fix i assume "i < length (map input_view (inputs m))"
    then have i: "i < length (inputs m)" by simp
    have "ti_prompt_style (inputs m ! i) = (if ti_focus (inputs m ! i) then FocusedStyle else NoStyle)"
      using assms(2) i by (simp add: styles_follow_focus_def)
    moreover have "ti_focus (inputs m ! i) \<longleftrightarrow> int i = focus_index m"
      using assms(1) i by (simp add: form_inv_def)
    ultimately show "map input_view (inputs m) ! i
        = map (\<lambda>(i, ph, v). (if v = [] then ph else v, if int i = focus_index m then FocusedStyle else NoStyle))
            (enumerate 0 (map (\<lambda>t. (ti_placeholder t, ti_value t)) (inputs m))) ! i"
      using i by (simp add: input_view_def nth_enumerate_eq)
  qed simp
  have b: "buttons m = (focus_index m = int (length (inputs m)), focus_index m = int (length (inputs m)) + 1)"
    by (auto simp: buttons_def Let_def)
  show ?thesis by (simp add: view_def derived_view_def f b)
qed

text \<open>
  C26. The view the program renders from its stateful styles is, in every
  state it reaches, the one derived from the focus index, the cursor mode and
  the field texts alone (spec section 9): the shared style objects the code
  mutates never disagree with the focus.
\<close>

theorem view_derived:
  "let m = run_model (tea_run initial_model es)
   in view m = derived_view (focus_index m) (cursor_mode m) (map (\<lambda>t. (ti_placeholder t, ti_value t)) (inputs m))"
  using view_follows_focus[OF tea_run_inv[OF initial_model_inv] tea_run_styles[OF styles_initial]]
  by (simp add: Let_def)

end
