(* ===== verification/Form_Spec.thy ===== *)
theory Form_Spec
  imports Form
begin

text \<open>
  The abstract specification of the form (spec section 4.4) and the proof that
  \<open>model.Update\<close> implements it. The specification sees intents, not keys
  (section 6: \<open>tab\<close>/\<open>down\<close>/\<open>right\<close> are \<open>Next\<close>,
  \<open>shift+tab\<close>/\<open>up\<close>/\<open>left\<close> are \<open>Prev\<close>, \<open>enter\<close> activates, \<open>ctrl+r\<close>
  cycles the mode, \<open>esc\<close>/\<open>ctrl+c\<close> abandon, every other key edits); its state
  is a phase (\<open>Editing\<close>, \<open>Committed\<close>, \<open>Abandoned\<close>), the focus target in
  the ring of section 4.1, the mode, and for every field its value, caret and
  limit. Styles, focus flags and blink state are render detail and are
  abstracted away. The specification follows the current design of section
  4.4, where \<open>enter\<close> on Cancel is a no-op; the code wraps the focus there
  (\<open>Form.enter_on_cancel_wraps\<close>), so the refinement is stated for runs that
  never activate Cancel.
\<close>

datatype phase = Editing | Committed | Abandoned

datatype nav = Next | Prev

datatype intent = Abandon | CycleMode | Activate | Move nav | Edit key | Tick

definition intent_of :: "msg \<Rightarrow> intent" where
  "intent_of e =
     (case e of
        KeyMsg k \<Rightarrow>
          (let s = key_string k in
           if s \<in> set [''esc'', ''ctrl+c''] then Abandon
           else if s = ''ctrl+r'' then CycleMode
           else if s = ''enter'' then Activate
           else if s \<in> set [''tab'', ''down'', ''right''] then Move Next
           else if s \<in> set [''shift+tab'', ''up'', ''left''] then Move Prev
           else Edit k)
      | _ \<Rightarrow> Tick)"

record field =
  f_value :: string
  f_pos :: nat
  f_limit :: int

definition to_field :: "text_input \<Rightarrow> field" where
  "to_field t = \<lparr>f_value = ti_value t, f_pos = ti_pos t, f_limit = ti_char_limit t\<rparr>"

definition of_field :: "field \<Rightarrow> text_input" where
  "of_field f = textinput_new\<lparr>ti_value := f_value f, ti_pos := f_pos f, ti_char_limit := f_limit f\<rparr>"

text \<open>An edit of a field (section 4.3), as the input library performs it.\<close>

definition field_edit :: "key \<Rightarrow> field \<Rightarrow> field" where
  "field_edit k f = to_field (ti_handle_key k (of_field f))"

text \<open>The ring of section 4.1: forward past Cancel to the first field, backward below it to Submit.\<close>

fun spec_nav :: "nav \<Rightarrow> int \<Rightarrow> int \<Rightarrow> int" where
  "spec_nav Next n i = (if i = n + 1 then 0 else i + 1)"
| "spec_nav Prev n i = (if i = 0 then n else i - 1)"

record form_spec =
  sp_phase :: phase
  sp_target :: int
  sp_mode :: int
  sp_fields :: "field list"

definition spec_step :: "intent \<Rightarrow> form_spec \<Rightarrow> form_spec" where
  "spec_step a s =
     (let n = int (length (sp_fields s)); i = sp_target s in
      if sp_phase s \<noteq> Editing then s
      else case a of
        Abandon \<Rightarrow> s\<lparr>sp_phase := Abandoned\<rparr>
      | CycleMode \<Rightarrow> s\<lparr>sp_mode := (sp_mode s + 1) mod 3\<rparr>
      | Activate \<Rightarrow>
          if i = n then s\<lparr>sp_phase := Committed\<rparr>
          else if i = n + 1 then s
          else s\<lparr>sp_target := spec_nav Next n i\<rparr>
      | Move d \<Rightarrow> s\<lparr>sp_target := spec_nav d n i\<rparr>
      | Edit k \<Rightarrow>
          if 0 \<le> i \<and> i < n then s\<lparr>sp_fields := (sp_fields s)[nat i := field_edit k (sp_fields s ! nat i)]\<rparr>
          else s
      | Tick \<Rightarrow> s)"

fun spec_run :: "intent list \<Rightarrow> form_spec \<Rightarrow> form_spec" where
  "spec_run [] s = s"
| "spec_run (a # as) s = spec_run as (spec_step a s)"

text \<open>A run that never activates Cancel while editing.\<close>

fun cancel_free :: "intent list \<Rightarrow> form_spec \<Rightarrow> bool" where
  "cancel_free [] s = True"
| "cancel_free (a # as) s =
     (\<not> (sp_phase s = Editing \<and> a = Activate \<and> sp_target s = int (length (sp_fields s)) + 1)
      \<and> cancel_free as (spec_step a s))"

definition abs_model :: "model \<Rightarrow> form_spec" where
  "abs_model m =
     \<lparr>sp_phase = Editing, sp_target = focus_index m, sp_mode = cursor_mode m,
      sp_fields = map to_field (inputs m)\<rparr>"

fun abs_run :: "run_result \<Rightarrow> form_spec" where
  "abs_run (Waiting m) = abs_model m"
| "abs_run (Quit m e _) =
     (abs_model m)\<lparr>sp_phase := (if intent_of e = Activate then Committed else Abandoned)\<rparr>"

text \<open>The key sequence that commits from a state: \<open>tab\<close> up to Submit, then \<open>enter\<close>.\<close>

definition commit_path :: "model \<Rightarrow> msg list" where
  "commit_path m =
     replicate (nat ((int (length (inputs m)) - focus_index m) mod (int (length (inputs m)) + 2)))
       (KeyMsg (KeyNamed ''tab'')) @ [KeyMsg (KeyNamed ''enter'')]"

subsection \<open>The abstraction of the branches\<close>

lemma to_field_frame [simp]:
  "to_field (fst (textinput_set_mode cm t)) = to_field t"
  "to_field (fst (restyle_input fi i t)) = to_field t"
  by (simp_all add: to_field_def textinput_set_mode_def restyle_input_def textinput_focus_def
      textinput_blur_def focused_styles_def no_styles_def split_def Let_def)

lemma to_field_handle_key: "to_field (ti_handle_key k t) = field_edit k (to_field t)"
  unfolding field_edit_def to_field_def of_field_def ti_handle_key_def insert_runes_def set_cursor_def Let_def
  by (simp split: if_split)

lemma to_field_update:
  "to_field (fst (textinput_update e t)) =
     (case e of KeyMsg k \<Rightarrow> if ti_focus t then field_edit k (to_field t) else to_field t | _ \<Rightarrow> to_field t)"
  by (auto simp: textinput_update_def Let_def to_field_handle_key[symmetric] split: msg.split prod.split)
     (simp_all add: to_field_def)

lemma next_focus_spec_nav:
  assumes "focus_ok n i"
  shows "next_focus s n i = spec_nav (if s \<in> set backward_keys then Prev else Next) n i"
  using assms by (auto simp: next_focus_def focus_ok_def)

lemma next_mode_mod3: "mode_ok cm \<Longrightarrow> next_mode cm = (cm + 1) mod 3"
  by (auto simp: next_mode_def mode_ok_def)

lemma abs_cycle_mode:
  "abs_model (fst (cycle_mode m)) = (abs_model m)\<lparr>sp_mode := next_mode (cursor_mode m)\<rparr>"
  by (simp add: abs_model_def cycle_mode_def Let_def comp_def)

lemma abs_navigate:
  assumes "form_inv m" "\<not> (s = ''enter'' \<and> focus_index m = int (length (inputs m)))"
  shows "abs_model (fst (navigate s m))
           = (abs_model m)\<lparr>sp_target := next_focus s (int (length (inputs m))) (focus_index m)\<rparr>"
    and "\<not> quits (snd (navigate s m))"
proof -
  have "map to_field (fst (restyle fi ts)) = map to_field ts" for fi ts
    by (rule nth_equalityI) simp_all
  then show "abs_model (fst (navigate s m))
           = (abs_model m)\<lparr>sp_target := next_focus s (int (length (inputs m))) (focus_index m)\<rparr>"
    using assms(2) by (auto simp: navigate_def abs_model_def Let_def split_def)
  show "\<not> quits (snd (navigate s m))" using assms(2) by (simp add: navigate_def Let_def split_def)
qed

lemma fields_update_inputs:
  assumes "form_inv m"
  shows "map to_field (inputs (fst (update_inputs e m))) =
           (case e of
              KeyMsg k \<Rightarrow>
                if 0 \<le> focus_index m \<and> focus_index m < int (length (inputs m))
                then (map to_field (inputs m))[nat (focus_index m) :=
                        field_edit k (to_field (inputs m ! nat (focus_index m)))]
                else map to_field (inputs m)
            | _ \<Rightarrow> map to_field (inputs m))"
proof (rule nth_equalityI)
  fix j assume "j < length (map to_field (inputs (fst (update_inputs e m))))"
  then have j: "j < length (inputs m)" by simp
  have "ti_focus (inputs m ! j) \<longleftrightarrow> int j = focus_index m"
    using assms j by (simp add: form_inv_def)
  then show "map to_field (inputs (fst (update_inputs e m))) ! j = (case e of
              KeyMsg k \<Rightarrow>
                if 0 \<le> focus_index m \<and> focus_index m < int (length (inputs m))
                then (map to_field (inputs m))[nat (focus_index m) :=
                        field_edit k (to_field (inputs m ! nat (focus_index m)))]
                else map to_field (inputs m)
            | _ \<Rightarrow> map to_field (inputs m)) ! j"
    using j by (auto simp: to_field_update nth_list_update split: msg.split)
qed (simp split: msg.split)

lemma tea_run_single:
  "tea_run m [e] = (if quits (snd (form_update e m)) then Quit (fst (form_update e m)) e [] else Waiting (fst (form_update e m)))"
  by (simp add: split_def)

lemma abs_step:
  assumes inv: "form_inv m"
    and nc: "\<not> (intent_of e = Activate \<and> focus_index m = int (length (inputs m)) + 1)"
  shows "abs_run (tea_run m [e]) = spec_step (intent_of e) (abs_model m)"
proof -
  let ?n = "int (length (inputs m))"
  have ok: "focus_ok ?n (focus_index m)" and md: "mode_ok (cursor_mode m)"
    using inv by (simp_all add: form_inv_def)
  note nav = next_focus_spec_nav[OF ok]
  show ?thesis
  proof (cases e)
    case (KeyMsg k)
    let ?s = "key_string k"
    have fn: "form_update e m = (if ?s \<in> set [''ctrl+c'', ''esc''] then (m, QuitCmd)
           else if ?s = ''ctrl+r'' then cycle_mode m
           else if ?s \<in> set nav_keys then navigate ?s m else update_inputs e m)"
      using KeyMsg by (simp add: form_update_def Let_def)
    have nk: "?s \<in> set nav_keys \<longleftrightarrow> ?s = ''enter'' \<or> ?s \<in> set [''tab'', ''down'', ''right'']
                                   \<or> ?s \<in> set [''shift+tab'', ''up'', ''left'']"
      by (auto simp: nav_keys_def)
    consider (quit) "?s \<in> set [''esc'', ''ctrl+c'']" | (mode) "?s = ''ctrl+r''"
      | (commit) "?s = ''enter''" "focus_index m = ?n"
      | (enter) "?s = ''enter''" "focus_index m \<noteq> ?n"
      | (fwd) "?s \<in> set [''tab'', ''down'', ''right'']"
      | (bwd) "?s \<in> set [''shift+tab'', ''up'', ''left'']"
      | (edit) "?s \<notin> set [''esc'', ''ctrl+c'']" "?s \<noteq> ''ctrl+r''" "?s \<notin> set nav_keys"
      using nk by blast
    then show ?thesis
    proof cases
      case quit
      then have "intent_of e = Abandon" "form_update e m = (m, QuitCmd)"
        using KeyMsg fn by (auto simp: intent_of_def)
      then show ?thesis by (simp add: spec_step_def abs_model_def)
    next
      case mode
      then have "intent_of e = CycleMode" "form_update e m = cycle_mode m"
        using KeyMsg fn by (auto simp: intent_of_def)
      then show ?thesis using md abs_cycle_mode[of m]
        by (simp add: tea_run_single spec_step_def next_mode_mod3 abs_model_def del: tea_run.simps)
    next
      case commit
      then have "intent_of e = Activate" "form_update e m = (m, QuitCmd)"
        using KeyMsg fn by (auto simp: intent_of_def nav_keys_def navigate_def)
      then show ?thesis using commit by (simp add: spec_step_def abs_model_def)
    next
      case enter
      then have i: "intent_of e = Activate" "form_update e m = navigate ''enter'' m"
        using KeyMsg fn by (auto simp: intent_of_def nav_keys_def)
      then show ?thesis using enter nc nav[of "''enter''"] abs_navigate[OF inv, of "''enter''"]
        by (simp add: tea_run_single spec_step_def abs_model_def backward_keys_def del: tea_run.simps)
    next
      case fwd
      then have i: "intent_of e = Move Next" "form_update e m = navigate ?s m"
        using KeyMsg fn by (auto simp: intent_of_def nav_keys_def)
      have "?s \<notin> set backward_keys" using fwd by (auto simp: backward_keys_def)
      then show ?thesis using i fwd nav[of ?s] abs_navigate[OF inv, of ?s]
        by (auto simp: tea_run_single spec_step_def abs_model_def Let_def simp del: tea_run.simps)
    next
      case bwd
      then have i: "intent_of e = Move Prev" "form_update e m = navigate ?s m"
        using KeyMsg fn by (auto simp: intent_of_def nav_keys_def)
      have "?s \<in> set backward_keys" using bwd by (auto simp: backward_keys_def)
      then show ?thesis using i bwd nav[of ?s] abs_navigate[OF inv, of ?s]
        by (auto simp: tea_run_single spec_step_def abs_model_def Let_def simp del: tea_run.simps)
    next
      case edit
      then have i: "intent_of e = Edit k" "form_update e m = update_inputs e m"
        using KeyMsg fn nk by (auto simp: intent_of_def)
      then show ?thesis using fields_update_inputs[OF inv, of e] KeyMsg
        by (auto simp: tea_run_single spec_step_def abs_model_def Let_def nat_less_iff simp del: tea_run.simps)
    qed
  next
    case BlinkMsg
    then show ?thesis using fields_update_inputs[OF inv, of e]
      by (simp add: tea_run_single form_update_def intent_of_def spec_step_def abs_model_def del: tea_run.simps)
  next
    case OtherMsg
    then show ?thesis using fields_update_inputs[OF inv, of e]
      by (simp add: tea_run_single form_update_def intent_of_def spec_step_def abs_model_def del: tea_run.simps)
  qed
qed

lemma spec_run_terminal: "sp_phase s \<noteq> Editing \<Longrightarrow> spec_run as s = s"
  by (induction as) (simp_all add: spec_step_def)

lemma tea_run_tabs:
  assumes "form_inv m"
  shows "\<exists>m'. tea_run m (replicate k (KeyMsg (KeyNamed ''tab'')) @ rest) = tea_run m' rest \<and> form_inv m'
           \<and> focus_index m' = (focus_index m + int k) mod (int (length (inputs m)) + 2)
           \<and> map ti_value (inputs m') = map ti_value (inputs m) \<and> length (inputs m') = length (inputs m)"
  using assms
proof (induction k arbitrary: m)
  case 0
  then show ?case by (auto simp: form_inv_def focus_ok_def)
next
  case (Suc k)
  let ?t = "KeyMsg (KeyNamed ''tab'')"
  let ?m1 = "fst (form_update ?t m)"
  have fu: "form_update ?t m = navigate ''tab'' m" by (simp add: form_update_def nav_keys_def)
  have nq: "\<not> quits (snd (form_update ?t m))" using abs_navigate(2)[OF Suc.prems] fu by simp
  have inv1: "form_inv ?m1" using form_update_inv_step[OF Suc.prems] .
  have ok: "focus_ok (int (length (inputs m))) (focus_index m)" using Suc.prems by (simp add: form_inv_def)
  have f1: "focus_index ?m1 = (focus_index m + 1) mod (int (length (inputs m)) + 2)"
    using next_focus_forward[OF _ ok, of "''tab''"] fu
    by (simp add: navigate_def backward_keys_def Let_def split_def)
  have v1: "map ti_value (inputs ?m1) = map ti_value (inputs m)" and l1: "length (inputs ?m1) = length (inputs m)"
  proof -
    have "map ti_value (fst (restyle fi ts)) = map ti_value ts" for fi ts
      by (rule nth_equalityI) simp_all
    then show "map ti_value (inputs ?m1) = map ti_value (inputs m)" "length (inputs ?m1) = length (inputs m)"
      by (simp_all add: fu navigate_def Let_def split_def)
  qed
  obtain m' where m': "tea_run ?m1 (replicate k ?t @ rest) = tea_run m' rest" "form_inv m'"
    "focus_index m' = (focus_index ?m1 + int k) mod (int (length (inputs ?m1)) + 2)"
    "map ti_value (inputs m') = map ti_value (inputs ?m1)" "length (inputs m') = length (inputs ?m1)"
    using Suc.IH[OF inv1] by blast
  have "tea_run m (replicate (Suc k) ?t @ rest) = tea_run ?m1 (replicate k ?t @ rest)"
    using nq by (simp add: split_def)
  moreover have "focus_index m' = (focus_index m + int (Suc k)) mod (int (length (inputs m)) + 2)"
    using m'(3) f1 l1 by (simp add: mod_simps ac_simps)
  ultimately show ?case using m' v1 l1 by auto
qed

lemma update_inputs_cmds:
  assumes "form_inv m"
  shows "\<forall>j < length (inputs m). int j \<noteq> focus_index m \<longrightarrow>
           map snd (map (textinput_update e) (inputs m)) ! j = NilCmd"
    and "\<forall>j < length (inputs m). int j \<noteq> focus_index m \<longrightarrow>
           map fst (map (textinput_update e) (inputs m)) ! j = inputs m ! j"
  using assms by (auto simp: form_inv_def textinput_update_unfocused)

subsection \<open>The controller refines the specification\<close>

text \<open>
  C19. Refinement: for every run that never activates Cancel, the program's
  run of \<open>model.Update\<close> from any state of the form invariant, seen through
  the abstraction, is the specification's run on the intents of the same
  keys: the same phase at the end (still editing, committed, or abandoned),
  the same focus target, mode and field contents.
\<close>

theorem update_refines_spec:
  assumes "form_inv m" "cancel_free (map intent_of es) (abs_model m)"
  shows "abs_run (tea_run m es) = spec_run (map intent_of es) (abs_model m)"
  using assms
proof (induction es arbitrary: m)
  case (Cons e es)
  have nc: "\<not> (intent_of e = Activate \<and> focus_index m = int (length (inputs m)) + 1)"
    using Cons.prems(2) by (simp add: abs_model_def)
  have step: "abs_run (tea_run m [e]) = spec_step (intent_of e) (abs_model m)"
    by (rule abs_step[OF Cons.prems(1) nc])
  show ?case
  proof (cases "quits (snd (form_update e m))")
    case True
    then have q: "abs_run (tea_run m (e # es)) = spec_step (intent_of e) (abs_model m)"
      using step by (simp add: split_def)
    have "sp_phase (abs_run (tea_run m [e])) \<noteq> Editing" using True by (simp add: split_def)
    then have "sp_phase (spec_step (intent_of e) (abs_model m)) \<noteq> Editing" by (metis step)
    then show ?thesis using q by (simp add: spec_run_terminal)
  next
    case False
    then have r: "tea_run m (e # es) = tea_run (fst (form_update e m)) es"
      and a: "abs_model (fst (form_update e m)) = spec_step (intent_of e) (abs_model m)"
      using step by (simp_all add: split_def)
    have "cancel_free (map intent_of es) (abs_model (fst (form_update e m)))"
      using Cons.prems(2) a by simp
    then show ?thesis
      using Cons.IH[OF form_update_inv_step[OF Cons.prems(1)]] r a by simp
  qed
qed simp

theorem update_refines_spec_witness:
  "abs_run (tea_run initial_model [KeyMsg (KeyNamed ''tab''), KeyMsg (KeyNamed ''esc'')])
   = spec_run (map intent_of [KeyMsg (KeyNamed ''tab''), KeyMsg (KeyNamed ''esc'')]) (abs_model initial_model)"
proof -
  have "cancel_free (map intent_of [KeyMsg (KeyNamed ''tab''), KeyMsg (KeyNamed ''esc'')]) (abs_model initial_model)"
    by (simp add: intent_of_def spec_step_def abs_model_def initial_model_def)
  then show ?thesis by (rule update_refines_spec[OF initial_model_inv])
qed

text \<open>
  C20. Liveness: from every state of the form invariant the form can still
  be committed. Pressing \<open>tab\<close> until Submit is focused, then \<open>enter\<close>,
  quits with the focus on Submit and every field's text as it was; the
  messages after the \<open>enter\<close> are never delivered.
\<close>

theorem commit_always_reachable:
  assumes "form_inv m"
  shows "\<exists>m'. tea_run m (commit_path m @ rest) = Quit m' (KeyMsg (KeyNamed ''enter'')) rest
              \<and> focus_index m' = int (length (inputs m))
              \<and> map ti_value (inputs m') = map ti_value (inputs m)"
proof -
  let ?n = "int (length (inputs m))"
  let ?k = "nat ((?n - focus_index m) mod (?n + 2))"
  obtain m1 where m1: "tea_run m (replicate ?k (KeyMsg (KeyNamed ''tab'')) @ KeyMsg (KeyNamed ''enter'') # rest)
                        = tea_run m1 (KeyMsg (KeyNamed ''enter'') # rest)"
    "focus_index m1 = (focus_index m + int ?k) mod (?n + 2)"
    "map ti_value (inputs m1) = map ti_value (inputs m1)" "map ti_value (inputs m1) = map ti_value (inputs m)"
    "length (inputs m1) = length (inputs m)"
    using tea_run_tabs[OF assms] by blast
  have "focus_index m1 = (focus_index m + (?n - focus_index m)) mod (?n + 2)"
    using m1(2) by (simp add: mod_add_right_eq)
  then have f: "focus_index m1 = ?n" by simp
  have "form_update (KeyMsg (KeyNamed ''enter'')) m1 = (m1, QuitCmd)"
    using f m1(5) by (simp add: form_update_def nav_keys_def navigate_def)
  then have "tea_run m1 (KeyMsg (KeyNamed ''enter'') # rest) = Quit m1 (KeyMsg (KeyNamed ''enter'')) rest"
    by simp
  then show ?thesis using m1 f by (auto simp: commit_path_def)
qed

theorem commit_always_reachable_witness:
  "commit_path initial_model = replicate 6 (KeyMsg (KeyNamed ''tab'')) @ [KeyMsg (KeyNamed ''enter'')]
   \<and> (\<exists>m'. tea_run initial_model (commit_path initial_model @ [KeyMsg (KeyRunes ''x'')])
             = Quit m' (KeyMsg (KeyNamed ''enter'')) [KeyMsg (KeyRunes ''x'')]
           \<and> focus_index m' = 6 \<and> map ti_value (inputs m') = replicate 6 [])"
proof -
  have l: "length (inputs initial_model) = 6" and f0: "focus_index initial_model = 0"
    by (simp_all add: initial_model_def)
  have v: "map ti_value (inputs initial_model) = replicate 6 []"
    by (simp add: initial_model_def init_input_def textinput_new_def focused_styles_def
        textinput_focus_def Let_def split_def numeral_eq_Suc upt_rec)
  have c: "commit_path initial_model = replicate 6 (KeyMsg (KeyNamed ''tab'')) @ [KeyMsg (KeyNamed ''enter'')]"
    by (simp add: commit_path_def l f0)
  obtain m' where m': "tea_run initial_model (commit_path initial_model @ [KeyMsg (KeyRunes ''x'')])
             = Quit m' (KeyMsg (KeyNamed ''enter'')) [KeyMsg (KeyRunes ''x'')]"
    "focus_index m' = int (length (inputs initial_model))"
    "map ti_value (inputs m') = map ti_value (inputs initial_model)"
    using commit_always_reachable[OF initial_model_inv, of "[KeyMsg (KeyRunes ''x'')]"] by blast
  show ?thesis using c l v m'(2,3) by (intro conjI exI[of _ m'] m'(1)) simp_all
qed

text \<open>
  C21. The comment of \<open>updateInputs\<close> (lines 208--209) holds: handing the
  message to every input is equivalent to handing it to the focused input
  only. The other inputs are unchanged, and the batched command is the
  focused input's own command; with a button focused nothing changes and no
  command is returned.
\<close>

theorem update_inputs_focused_only:
  assumes "form_inv m"
  shows "update_inputs e m =
           (if 0 \<le> focus_index m \<and> focus_index m < int (length (inputs m))
            then (m\<lparr>inputs := (inputs m)[nat (focus_index m) := fst (textinput_update e (inputs m ! nat (focus_index m)))]\<rparr>,
                  snd (textinput_update e (inputs m ! nat (focus_index m))))
            else (m, NilCmd))"
proof (cases "0 \<le> focus_index m \<and> focus_index m < int (length (inputs m))")
  case True
  let ?i = "nat (focus_index m)"
  have i: "?i < length (inputs m)" "int ?i = focus_index m" using True by auto
  have "map fst (map (textinput_update e) (inputs m)) = (inputs m)[?i := fst (textinput_update e (inputs m ! ?i))]"
    using update_inputs_cmds(2)[OF assms, of e] i by (intro nth_equalityI) (auto simp: nth_list_update)
  moreover have "tea_batch (map snd (map (textinput_update e) (inputs m))) = snd (textinput_update e (inputs m ! ?i))"
    using tea_batch_one[of ?i "map snd (map (textinput_update e) (inputs m))"] update_inputs_cmds(1)[OF assms, of e] i
    by auto
  ultimately show ?thesis using True by (simp add: update_inputs_def)
next
  case False
  then have "\<forall>t \<in> set (inputs m). \<not> ti_focus t"
    using assms by (auto simp: form_inv_def in_set_conv_nth)
  then have "\<forall>t \<in> set (inputs m). textinput_update e t = (t, NilCmd)"
    by (simp add: textinput_update_unfocused)
  then have "update_inputs e m = (m, NilCmd)"
    by (simp add: update_inputs_def tea_batch_def comp_def cong: map_cong)
  then show ?thesis by (simp only: if_not_P[OF False])
qed

theorem update_inputs_focused_only_witness:
  "update_inputs (KeyMsg (KeyRunes ''a'')) initial_model =
     (initial_model\<lparr>inputs := (inputs initial_model)[0 := fst (textinput_update (KeyMsg (KeyRunes ''a'')) (inputs initial_model ! 0))]\<rparr>,
      snd (textinput_update (KeyMsg (KeyRunes ''a'')) (inputs initial_model ! 0)))"
  using update_inputs_focused_only[OF initial_model_inv, of "KeyMsg (KeyRunes ''a'')"]
  by (simp add: initial_model_def)

end
