(* ===== verification/Json_Fuel.thy ===== *)
theory Json_Fuel
  imports Json
begin

text \<open>
  Termination of the JSON parser: \<open>json_parse\<close> runs the fuelled parser of
  theory \<open>Json\<close> with one unit of fuel more than the input has characters.
  Every call of the parser hands a strictly shorter rest of the input to the
  calls it makes (\<open>parser_rest\<close>), so no input can exhaust that fuel:
  any larger fuel gives the same answer (\<open>fuel_indep\<close>), and
  \<open>json_parse\<close> is the total parser that \<open>encoding/json\<close> runs; it
  rejects an input only because the input is not JSON.
\<close>

lemma skip_ws_le: "length (skip_ws s) \<le> length s"
  by (simp add: skip_ws_def length_dropWhile_le)

lemma skip_ws_shorter:
  "skip_ws s = c # cs \<Longrightarrow> length cs < length s \<and> length (c # cs) \<le> length s \<and> length (tl (skip_ws cs)) < length s"
  using skip_ws_le[of s] skip_ws_le[of cs] by simp

lemma parse_string_rest: "parse_string s = Some (t, r) \<Longrightarrow> length r < length s"
proof (induction "length s" arbitrary: s t r rule: less_induct)
  case less
  show ?case
  proof (cases s)
    case (Cons c cs)
    consider (q) "c = dq" | (b) "c \<noteq> dq" "c = bsl" | (o) "c \<noteq> dq" "c \<noteq> bsl"
      by blast
    then show ?thesis
    proof cases
      case q
      then show ?thesis using less.prems Cons by simp
    next
      case b
      then obtain out n t' where "parse_string (drop n cs) = Some (t', r)"
        using less.prems Cons by (auto split: option.splits prod.splits)
      moreover have "length (drop n cs) < length s" using Cons by simp
      ultimately have "length r < length (drop n cs)" using less.hyps by blast
      then show ?thesis using Cons by simp
    next
      case o
      then obtain t' where "parse_string cs = Some (t', r)"
        using less.prems Cons by (auto split: if_splits option.splits)
      moreover have "length cs < length s" using Cons by simp
      ultimately have "length r < length cs" using less.hyps by blast
      then show ?thesis using Cons by simp
    qed
  qed (use less.prems in simp)
qed

lemma number_int_rest: "number_int s = Some (ip, r) \<Longrightarrow> length r < length s"
  by (cases s) (auto simp: number_int_def le_imp_less_Suc length_dropWhile_le split: if_splits)

lemma number_frac_rest: "number_frac s = Some (fp, r) \<Longrightarrow> length r \<le> length s"
  by (cases s) (auto simp: number_frac_def le_SucI length_dropWhile_le split: if_splits)

lemma number_exp_rest: "number_exp s = Some (ep, r) \<Longrightarrow> length r \<le> length s"
proof (cases s)
  case (Cons c cs)
  obtain sg ds where sd: "(sg, ds) = (if cs \<noteq> [] \<and> hd cs \<in> set ''+-'' then ([hd cs], tl cs) else ([], cs))"
    by (metis surj_pair)
  have "length ds \<le> length cs" using sd by (auto split: if_splits)
  moreover assume "number_exp s = Some (ep, r)"
  ultimately show ?thesis using Cons sd[symmetric] length_dropWhile_le[of is_digit ds]
    by (auto simp: number_exp_def split: if_splits)
qed (auto simp: number_exp_def)

lemma parse_number_rest: "parse_number s = Some (n, r) \<Longrightarrow> length r < length s"
proof -
  assume p: "parse_number s = Some (n, r)"
  obtain sg s1 where s1: "(sg, s1) = (if s \<noteq> [] \<and> hd s = CHR ''-'' then (''-'', tl s) else ([], s))"
    by (metis surj_pair)
  have l1: "length s1 \<le> length s" using s1 by (auto split: if_splits)
  obtain ip s2 fp s3 ep where
    "number_int s1 = Some (ip, s2)" "number_frac s2 = Some (fp, s3)" "number_exp s3 = Some (ep, r)"
    using p s1[symmetric] by (auto simp: parse_number_def split: option.splits)
  then have "length r < length s1"
    by (meson number_int_rest number_frac_rest number_exp_rest order.strict_trans1 order.trans)
  then show ?thesis using l1 by simp
qed


lemma parse_value_shape:
  assumes "parse_value (Suc f) s = Some (v, r)"
  obtains c cs where "skip_ws s = c # cs"
    "r = tl (skip_ws cs) \<or> (\<exists>kv r1 kvs. parse_member f cs = Some (kv, r1) \<and> parse_object_rest f [kv] r1 = Some (kvs, r))
     \<or> (\<exists>v1 r1 vs. parse_value f cs = Some (v1, r1) \<and> parse_array_rest f [v1] r1 = Some (vs, r))
     \<or> (\<exists>t. parse_string cs = Some (t, r)) \<or> r = drop 3 cs \<or> r = drop 4 cs
     \<or> (\<exists>n. parse_number (c # cs) = Some (n, r))"
proof (cases "skip_ws s")
  case (Cons c cs)
  with assms show ?thesis
    using that by (simp split: if_split_asm option.split_asm prod.split_asm) (metis surj_pair)
qed (use assms in simp)

lemma parse_array_rest_shape:
  assumes "parse_array_rest (Suc f) acc s = Some (vs, r)"
  obtains c cs where "skip_ws s = c # cs"
    "r = cs \<or> (\<exists>v1 r1. parse_value f cs = Some (v1, r1) \<and> parse_array_rest f (acc @ [v1]) r1 = Some (vs, r))"
proof (cases "skip_ws s")
  case (Cons c cs)
  with assms show ?thesis using that by (simp split: if_split_asm option.split_asm prod.split_asm)
qed (use assms in simp)

lemma parse_member_shape:
  assumes "parse_member (Suc f) s = Some (kv, r)"
  obtains c cs k r1 c' r' v where "skip_ws s = c # cs" "parse_string cs = Some (k, r1)"
    "skip_ws r1 = c' # r'" "parse_value f r' = Some (v, r)"
proof (cases "skip_ws s")
  case (Cons c cs)
  with assms show ?thesis
    using that by (simp split: if_split_asm option.split_asm prod.split_asm list.split_asm)
qed (use assms in simp)

lemma parse_object_rest_shape:
  assumes "parse_object_rest (Suc f) acc s = Some (kvs, r)"
  obtains c cs where "skip_ws s = c # cs"
    "r = cs \<or> (\<exists>kv r1. parse_member f cs = Some (kv, r1) \<and> parse_object_rest f (acc @ [kv]) r1 = Some (kvs, r))"
proof (cases "skip_ws s")
  case (Cons c cs)
  with assms show ?thesis
    using that by (simp split: if_split_asm option.split_asm prod.split_asm) (metis surj_pair)
qed (use assms in simp)

lemma parser_rest:
  "(\<forall>s v r. parse_value f s = Some (v, r) \<longrightarrow> length r < length s)
   \<and> (\<forall>acc s vs r. parse_array_rest f acc s = Some (vs, r) \<longrightarrow> length r < length s)
   \<and> (\<forall>s kv r. parse_member f s = Some (kv, r) \<longrightarrow> length r < length s)
   \<and> (\<forall>acc s kvs r. parse_object_rest f acc s = Some (kvs, r) \<longrightarrow> length r < length s)"
proof (induction f)
  case (Suc f)
  note IHv = Suc.IH[THEN conjunct1, rule_format]
  note IHa = Suc.IH[THEN conjunct2, THEN conjunct1, rule_format]
  note IHm = Suc.IH[THEN conjunct2, THEN conjunct2, THEN conjunct1, rule_format]
  note IHo = Suc.IH[THEN conjunct2, THEN conjunct2, THEN conjunct2, rule_format]
  have v: "length r < length s" if h: "parse_value (Suc f) s = Some (v, r)" for s v r
    by (rule parse_value_shape[OF h], elim disjE exE conjE)
       (fastforce dest!: skip_ws_shorter IHv IHa IHm IHo parse_string_rest parse_number_rest)+
  have a: "length r < length s" if h: "parse_array_rest (Suc f) acc s = Some (vs, r)" for acc s vs r
    by (rule parse_array_rest_shape[OF h], elim disjE exE conjE)
       (fastforce dest!: skip_ws_shorter IHv IHa)+
  have m: "length r < length s" if h: "parse_member (Suc f) s = Some (kv, r)" for s kv r
    by (rule parse_member_shape[OF h])
       (fastforce dest!: skip_ws_shorter IHv parse_string_rest)
  have o: "length r < length s" if h: "parse_object_rest (Suc f) acc s = Some (kvs, r)" for acc s kvs r
    by (rule parse_object_rest_shape[OF h], elim disjE exE conjE)
       (fastforce dest!: skip_ws_shorter IHm IHo)+
  show ?case using v a m o by blast
qed simp

lemmas value_rest = parser_rest[THEN conjunct1, rule_format]
lemmas array_rest_rest = parser_rest[THEN conjunct2, THEN conjunct1, rule_format]
lemmas member_rest = parser_rest[THEN conjunct2, THEN conjunct2, THEN conjunct1, rule_format]
lemmas object_rest_rest = parser_rest[THEN conjunct2, THEN conjunct2, THEN conjunct2, rule_format]

lemma fuel_indep:
  "(\<forall>g s. length s < f \<longrightarrow> length s < g \<longrightarrow> parse_value f s = parse_value g s)
   \<and> (\<forall>g acc s. length s < f \<longrightarrow> length s < g \<longrightarrow> parse_array_rest f acc s = parse_array_rest g acc s)
   \<and> (\<forall>g s. length s < f \<longrightarrow> length s < g \<longrightarrow> parse_member f s = parse_member g s)
   \<and> (\<forall>g acc s. length s < f \<longrightarrow> length s < g \<longrightarrow> parse_object_rest f acc s = parse_object_rest g acc s)"
proof (induction f)
  case (Suc f)
  note IHv = Suc.IH[THEN conjunct1, rule_format]
  note IHa = Suc.IH[THEN conjunct2, THEN conjunct1, rule_format]
  note IHm = Suc.IH[THEN conjunct2, THEN conjunct2, THEN conjunct1, rule_format]
  note IHo = Suc.IH[THEN conjunct2, THEN conjunct2, THEN conjunct2, rule_format]
  have short: "length cs < f" "length cs < g" if "skip_ws s = c # cs" "length s < Suc f" "length s < Suc g" for s c cs g
    using skip_ws_shorter[OF that(1)] that(2,3) by auto
  have v: "parse_value (Suc f) s = parse_value (Suc g) s" if "length s < Suc f" "length s < Suc g" for g s
  proof (cases "skip_ws s")
    case (Cons c cs)
    note l = short[OF Cons that]
    have "parse_object_rest f [fst x] (snd x) = parse_object_rest g [fst x] (snd x)"
      if "parse_member g cs = Some x" for x
      using member_rest[of g cs "fst x" "snd x"] that l by (intro IHo) auto
    moreover have "parse_array_rest f [fst x] (snd x) = parse_array_rest g [fst x] (snd x)"
      if "parse_value g cs = Some x" for x
      using value_rest[of g cs "fst x" "snd x"] that l by (intro IHa) auto
    ultimately show ?thesis using Cons IHv[OF l] IHm[OF l]
      by (simp add: split_def cong: option.case_cong)
  qed simp
  have a: "parse_array_rest (Suc f) acc s = parse_array_rest (Suc g) acc s"
    if "length s < Suc f" "length s < Suc g" for g acc s
  proof (cases "skip_ws s")
    case (Cons c cs)
    note l = short[OF Cons that]
    have "parse_array_rest f (acc @ [fst x]) (snd x) = parse_array_rest g (acc @ [fst x]) (snd x)"
      if "parse_value g cs = Some x" for x
      using value_rest[of g cs "fst x" "snd x"] that l by (intro IHa) auto
    then show ?thesis using Cons IHv[OF l]
      by (simp add: split_def cong: option.case_cong)
  qed simp
  have m: "parse_member (Suc f) s = parse_member (Suc g) s" if "length s < Suc f" "length s < Suc g" for g s
  proof (cases "skip_ws s")
    case (Cons c cs)
    note l = short[OF Cons that]
    show ?thesis
    proof (cases "parse_string cs")
      case (Some x)
      show ?thesis
      proof (cases "skip_ws (snd x)")
        case (Cons c' r')
        have "length (snd x) < length cs" using parse_string_rest[of cs "fst x" "snd x"] Some by simp
        then have "parse_value f r' = parse_value g r'" using skip_ws_shorter[OF Cons] l by (intro IHv) auto
        then show ?thesis using \<open>skip_ws s = c # cs\<close> Some Cons by (simp add: split_def)
      qed (use \<open>skip_ws s = c # cs\<close> Some in \<open>simp add: split_def\<close>)
    qed (use Cons in simp)
  qed simp
  have o: "parse_object_rest (Suc f) acc s = parse_object_rest (Suc g) acc s"
    if "length s < Suc f" "length s < Suc g" for g acc s
  proof (cases "skip_ws s")
    case (Cons c cs)
    note l = short[OF Cons that]
    have "parse_object_rest f (acc @ [fst x]) (snd x) = parse_object_rest g (acc @ [fst x]) (snd x)"
      if "parse_member g cs = Some x" for x
      using member_rest[of g cs "fst x" "snd x"] that l by (intro IHo) auto
    then show ?thesis using Cons IHm[OF l]
      by (simp add: split_def cong: option.case_cong)
  qed simp
  show ?case
  proof (intro conjI allI impI)
    fix g :: nat and s :: string
    assume h: "length s < Suc f" "length s < g"
    then obtain g' where g: "g = Suc g'" "length s < Suc g'" by (cases g) auto
    show "parse_value (Suc f) s = parse_value g s" unfolding g(1) by (rule v[OF h(1) g(2)])
    show "parse_member (Suc f) s = parse_member g s" unfolding g(1) by (rule m[OF h(1) g(2)])
  next
    fix g :: nat and s :: string and acc
    assume h: "length s < Suc f" "length s < g"
    then obtain g' where g: "g = Suc g'" "length s < Suc g'" by (cases g) auto
    show "parse_array_rest (Suc f) acc s = parse_array_rest g acc s" unfolding g(1) by (rule a[OF h(1) g(2)])
  next
    fix g :: nat and s :: string and acc
    assume h: "length s < Suc f" "length s < g"
    then obtain g' where g: "g = Suc g'" "length s < Suc g'" by (cases g) auto
    show "parse_object_rest (Suc f) acc s = parse_object_rest g acc s" unfolding g(1) by (rule o[OF h(1) g(2)])
  qed
qed simp


text \<open>
  Adequacy of the fuel: the fuel \<open>json_parse\<close> supplies is always enough: running the parser
  with any fuel larger than the input gives the same answer, so a
  \<open>None\<close> from \<open>json_parse\<close> (a \<open>log.Fatal\<close> in \<open>createTask\<close>) is
  never an artefact of the bound.
\<close>

lemma json_parse_fuel_enough:
  assumes "length s < f"
  shows "json_parse s =
           (case parse_value f s of None \<Rightarrow> None | Some (v, r) \<Rightarrow> if skip_ws r = [] then Some v else None)"
proof -
  have "parse_value (Suc (length s)) s = parse_value f s"
    using fuel_indep[THEN conjunct1, rule_format, of s "Suc (length s)" f] assms by simp
  then show ?thesis by (simp add: json_parse_def)
qed

lemma json_parse_fuel_enough_witness:
  "json_parse ''[ {} , [null] ]'' =
     (case parse_value 40 ''[ {} , [null] ]'' of None \<Rightarrow> None | Some (v, r) \<Rightarrow> if skip_ws r = [] then Some v else None)"
  by (rule json_parse_fuel_enough) simp

end
