(* ===== verification/Json_Prefix.thy ===== *)
theory Json_Prefix
  imports Json
begin

text \<open>
  What \<open>json.Marshal\<close> writes is self-delimiting: no proper prefix of the
  text of a number-free value is itself JSON. This is what a reader of a
  file cut short meets.
\<close>

lemma append_split:
  assumes "xs @ ys = p @ q" "q \<noteq> []"
  obtains (inside) q1 where "xs = p @ q1" "q1 \<noteq> []" | (after) p2 where "p = xs @ p2" "ys = p2 @ q"
proof -
  obtain us where "xs = p @ us \<and> us @ ys = q \<or> xs @ us = p \<and> ys = us @ q"
    using assms(1) by (auto simp: append_eq_append_conv2)
  then show ?thesis
  proof
    assume a: "xs = p @ us \<and> us @ ys = q"
    show ?thesis
    proof (cases "us = []")
      case True
      then show ?thesis using a after[of "[]"] by simp
    qed (use a inside in blast)
  qed (use after in blast)
qed

lemma escape_char_shape:
  obtains (named) x where "escape_char c = [bsl, x]"
    | (u) "escape_char c = [bsl, CHR ''u'', CHR ''0'', CHR ''0'', hex_digit (of_char c div 16), hex_digit (of_char c)]"
    | (plain) "escape_char c = [c]"
proof (cases "c \<in> {dq, bsl, CHR 0x0A, CHR 0x0D, CHR 0x09, CHR 0x08, CHR 0x0C}")
  case True
  then show ?thesis using named by (auto simp: escape_char_def)
next
  case False
  show ?thesis
  proof (cases "of_char c < (0x20::nat) \<or> c \<in> set ''<>&''")
    case True
    then show ?thesis using False u by (simp add: escape_char_def)
  next
    case False2: False
    then show ?thesis using False plain by (simp add: escape_char_def)
  qed
qed

lemma esc_prefix:
  assumes "escape_char c = p @ q" "p \<noteq> []" "q \<noteq> []"
  shows "parse_string p = None"
proof (cases c rule: escape_char_shape)
  case (named x)
  then have "p = [bsl]" using assms by (auto simp: Cons_eq_append_conv append_eq_Cons_conv)
  then show ?thesis by (simp add: unescape_def)
next
  case u
  then have "p = [bsl] \<or> p = [bsl, CHR ''u''] \<or> p = [bsl, CHR ''u'', CHR ''0'']
      \<or> p = [bsl, CHR ''u'', CHR ''0'', CHR ''0''] \<or> p = [bsl, CHR ''u'', CHR ''0'', CHR ''0'', hex_digit (of_char c div 16)]"
    using assms by (auto simp: Cons_eq_append_conv append_eq_Cons_conv)
  then show ?thesis by (auto simp: unescape_def)
next
  case plain
  then show ?thesis using assms by (auto simp: Cons_eq_append_conv append_eq_Cons_conv)
qed

lemma string_prefix:
  "concat (map escape_char s) @ [dq] = p @ q \<Longrightarrow> q \<noteq> [] \<Longrightarrow> parse_string p = None"
proof (induction s arbitrary: p)
  case Nil
  then have "p = []" by (cases p) auto
  then show ?case by simp
next
  case (Cons c s)
  from Cons.prems(1) have "escape_char c @ (concat (map escape_char s) @ [dq]) = p @ q" by simp
  then show ?case
  proof (rule append_split[OF _ Cons.prems(2)])
    fix q1 assume "escape_char c = p @ q1" "q1 \<noteq> []"
    then show ?thesis using esc_prefix[of c p q1] by (cases "p = []") simp_all
  next
    fix p2 assume "p = escape_char c @ p2" "concat (map escape_char s) @ [dq] = p2 @ q"
    then show ?thesis using Cons.IH[of p2] Cons.prems(2) by (simp add: parse_string_escape_char)
  qed
qed

lemma cons_prefix [consumes 2, case_names empty cons]:
  assumes "x # xs = p @ q" "q \<noteq> []"
  obtains (empty) "p = []" | (cons) p' where "p = x # p'" "xs = p' @ q"
  using assms by (cases p) auto

lemma prefix_fuel:
  "json_nonum w \<Longrightarrow> length (print_json w @ p) < f \<Longrightarrow> parse_value f (print_json w @ p) = Some (w, p)"
  using parse_fuel_le_length[of w] by (intro parse_value_print) simp_all

lemma array_rest_prefix:
  assumes "\<And>w p q f. w \<in> set ws \<Longrightarrow> print_json w = p @ q \<Longrightarrow> q \<noteq> [] \<Longrightarrow> length p < f
             \<Longrightarrow> parse_value f p = None"
    and "list_all json_nonum ws"
    and "concat (map (\<lambda>w. CHR '','' # print_json w) ws) @ '']'' = p @ q" "q \<noteq> []" "length p < f"
  shows "parse_array_rest f acc p = None"
  using assms
proof (induction ws arbitrary: p f acc)
  case Nil
  then have "p = []" by (cases p) auto
  then show ?case by (cases f) (simp_all add: skip_ws_def)
next
  case (Cons w ws)
  obtain g where f: "f = Suc g" using Cons.prems(5) by (cases f) auto
  have h: "(CHR '','' # print_json w) @ (concat (map (\<lambda>w. CHR '','' # print_json w) ws) @ '']'') = p @ q"
    using Cons.prems(3) by simp
  show ?case
  proof (rule append_split[OF h Cons.prems(4)])
    fix q1 assume a: "CHR '','' # print_json w = p @ q1" "q1 \<noteq> []"
    show ?thesis
    using a proof (cases rule: cons_prefix)
      case empty
      then show ?thesis using f by (simp add: skip_ws_def)
    next
      case (cons p')
      then have "parse_value g p' = None"
        using Cons.prems(1)[of w p' q1 g] a(2) Cons.prems(5) f by simp
      then show ?thesis using cons f by (simp add: is_ws_def)
    qed
  next
    fix p2 assume a: "p = (CHR '','' # print_json w) @ p2"
      "concat (map (\<lambda>w. CHR '','' # print_json w) ws) @ '']'' = p2 @ q"
    have nw: "json_nonum w" "list_all json_nonum ws" using Cons.prems(2) by simp_all
    have v: "parse_value g (print_json w @ p2) = Some (w, p2)"
      using prefix_fuel[OF nw(1)] a(1) Cons.prems(5) f by simp
    have "parse_array_rest g (acc @ [w]) p2 = None"
    proof (rule Cons.IH[OF _ nw(2) a(2) Cons.prems(4)])
      fix w' p' q' f' assume "w' \<in> set ws" "print_json w' = p' @ q'" "q' \<noteq> []" "length p' < f'"
      then show "parse_value f' p' = None" using Cons.prems(1)[of w' p' q' f'] by simp
    next
      show "length p2 < g" using a(1) Cons.prems(5) f by simp
    qed
    then show ?thesis using v a(1) f by (simp add: is_ws_def)
  qed
qed

lemma member_prefix:
  assumes "\<And>p q f. print_json v = p @ q \<Longrightarrow> q \<noteq> [] \<Longrightarrow> length p < f \<Longrightarrow> parse_value f p = None"
    and "quote k @ CHR '':'' # print_json v = p @ q" "q \<noteq> []" "length p < f"
  shows "parse_member f p = None"
proof -
  obtain g where f: "f = Suc g" using assms(4) by (cases f) auto
  have h: "dq # ((concat (map escape_char k) @ [dq]) @ CHR '':'' # print_json v) = p @ q"
    using assms(2) by (simp add: quote_def)
  show ?thesis
  using h assms(3) proof (cases rule: cons_prefix)
    case empty
    then show ?thesis using f by (simp add: skip_ws_def)
  next
    case (cons p')
    note pc = cons
    show ?thesis
    proof (rule append_split[OF cons(2) assms(3)])
      fix q1 assume "concat (map escape_char k) @ [dq] = p' @ q1" "q1 \<noteq> []"
      then have "parse_string p' = None" by (rule string_prefix)
      then show ?thesis using pc f by (simp add: is_ws_def)
    next
      fix p2 assume a: "p' = (concat (map escape_char k) @ [dq]) @ p2" "CHR '':'' # print_json v = p2 @ q"
      have s: "parse_string p' = Some (k, p2)" using a(1) parse_string_quote[of k p2] by simp
      show ?thesis
      using a(2) assms(3) proof (cases rule: cons_prefix)
        case empty
        then show ?thesis using s pc f by (simp add: is_ws_def skip_ws_def)
      next
        case (cons p4)
        have "parse_value g p4 = None"
          using assms(1)[OF cons(2) assms(3)] assms(4) f pc a(1) cons(1) by simp
        then show ?thesis using s pc cons f by (simp add: is_ws_def)
      qed
    qed
  qed
qed

lemma member_print_fuel:
  assumes "json_nonum v" "length (quote k @ CHR '':'' # print_json v @ p) < f"
  shows "parse_member f (quote k @ CHR '':'' # print_json v @ p) = Some ((k, v), p)"
proof (rule parse_member_print)
  show "\<And>f r. parse_fuel v < f \<Longrightarrow> parse_value f (print_json v @ r) = Some (v, r)"
    using assms(1) by (rule parse_value_print)
  show "Suc (parse_fuel v) < f"
    using assms(2) parse_fuel_le_length[OF assms(1)] quote_length[of k] by simp
qed

lemma object_rest_prefix:
  assumes "\<And>kv p q f. kv \<in> set kvs \<Longrightarrow> print_json (snd kv) = p @ q \<Longrightarrow> q \<noteq> [] \<Longrightarrow> length p < f
             \<Longrightarrow> parse_value f p = None"
    and "list_all (\<lambda>kv. json_nonum (snd kv)) kvs"
    and "concat (map (\<lambda>kw. CHR '','' # quote (fst kw) @ CHR '':'' # print_json (snd kw)) kvs) @ ''}'' = p @ q"
      "q \<noteq> []" "length p < f"
  shows "parse_object_rest f acc p = None"
  using assms
proof (induction kvs arbitrary: p f acc)
  case Nil
  then have "p = []" by (cases p) auto
  then show ?case by (cases f) (simp_all add: skip_ws_def)
next
  case (Cons kv kvs)
  obtain g where f: "f = Suc g" using Cons.prems(5) by (cases f) auto
  have h: "(CHR '','' # quote (fst kv) @ CHR '':'' # print_json (snd kv))
           @ (concat (map (\<lambda>kw. CHR '','' # quote (fst kw) @ CHR '':'' # print_json (snd kw)) kvs) @ ''}'')
           = p @ q"
    using Cons.prems(3) by simp
  show ?case
  proof (rule append_split[OF h Cons.prems(4)])
    fix q1 assume a: "CHR '','' # quote (fst kv) @ CHR '':'' # print_json (snd kv) = p @ q1" "q1 \<noteq> []"
    show ?thesis
      using a proof (cases rule: cons_prefix)
      case empty
      then show ?thesis using f by (simp add: skip_ws_def)
    next
      case (cons p')
      have "parse_member g p' = None"
      proof (rule member_prefix[OF _ cons(2) a(2)])
        show "\<And>p q f. print_json (snd kv) = p @ q \<Longrightarrow> q \<noteq> [] \<Longrightarrow> length p < f \<Longrightarrow> parse_value f p = None"
          using Cons.prems(1)[of kv] by simp
        show "length p' < g" using cons(1) Cons.prems(5) f by simp
      qed
      then show ?thesis using cons f by (simp add: is_ws_def)
    qed
  next
    fix p2 assume a: "p = (CHR '','' # quote (fst kv) @ CHR '':'' # print_json (snd kv)) @ p2"
      "concat (map (\<lambda>kw. CHR '','' # quote (fst kw) @ CHR '':'' # print_json (snd kw)) kvs) @ ''}'' = p2 @ q"
    have nw: "json_nonum (snd kv)" "list_all (\<lambda>kv. json_nonum (snd kv)) kvs" using Cons.prems(2) by simp_all
    have m: "parse_member g (quote (fst kv) @ CHR '':'' # print_json (snd kv) @ p2) = Some ((fst kv, snd kv), p2)"
      using member_print_fuel[OF nw(1)] a(1) Cons.prems(5) f by simp
    have "parse_object_rest g (acc @ [kv]) p2 = None"
    proof (rule Cons.IH[OF _ nw(2) a(2) Cons.prems(4)])
      fix kv' p' q' f' assume "kv' \<in> set kvs" "print_json (snd kv') = p' @ q'" "q' \<noteq> []" "length p' < f'"
      then show "parse_value f' p' = None" using Cons.prems(1)[of kv' p' q' f'] by simp
    next
      show "length p2 < g" using a(1) Cons.prems(5) f by simp
    qed
    then show ?thesis using m a(1) f by (simp add: is_ws_def)
  qed
qed

lemma prefix_start:
  assumes "json_nonum v" "print_json v = p @ q" "p \<noteq> []"
  shows "skip_ws p = p" "hd p \<noteq> CHR '']''" "hd p \<noteq> CHR ''}''"
  using print_json_start[OF assms(1)] assms(2,3) by (cases p; auto simp: is_ws_def)+

lemma open_prefix:
  "c \<in> {CHR ''['', CHR ''{''} \<Longrightarrow> parse_value f [c] = None"
  by (cases f; cases "f - 1") (auto simp: is_ws_def skip_ws_def)

lemma parse_value_Nil [simp]: "parse_value f [] = None"
  by (cases f) (simp_all add: skip_ws_def)

lemma value_prefix:
  "json_nonum v \<Longrightarrow> print_json v = p @ q \<Longrightarrow> q \<noteq> [] \<Longrightarrow> length p < f \<Longrightarrow> parse_value f p = None"
proof (induction v arbitrary: p q f rule: parse_fuel.induct)
  case (1 vs)
  obtain g where f: "f = Suc g" using "1.prems"(4) by (cases f) auto
  show ?case
  proof (cases vs)
    case Nil
    then have "p = [] \<or> p = ''[''" using "1.prems"(2,3) by (auto simp: append_eq_Cons_conv Cons_eq_append_conv)
    then show ?thesis using open_prefix[of "CHR ''[''" f] by (auto simp: skip_ws_def)
  next
    case (Cons v ws)
    let ?tail = "concat (map (\<lambda>w. CHR '','' # print_json w) ws) @ '']''"
    have nv: "json_nonum v" "list_all json_nonum ws" using "1.prems"(1) Cons by simp_all
    have h: "CHR ''['' # (print_json v @ ?tail) = p @ q" using "1.prems"(2) Cons by simp
    show ?thesis
      using h "1.prems"(3) proof (cases rule: cons_prefix)
      case empty
      then show ?thesis by (simp add: skip_ws_def)
    next
      case (cons p1)
      show ?thesis
      proof (rule append_split[OF cons(2) "1.prems"(3)])
        fix q1 assume a: "print_json v = p1 @ q1" "q1 \<noteq> []"
        show ?thesis
        proof (cases "p1 = []")
          case True
          then show ?thesis using cons open_prefix[of "CHR ''['' " f] by simp
        next
          case False
          have "parse_value g p1 = None"
            using "1.IH"[of v p1 q1 g] Cons nv(1) a "1.prems"(4) f cons(1) by simp
          then show ?thesis using prefix_start[OF nv(1) a(1) False] cons(1) f by (simp add: is_ws_def)
        qed
      next
        fix p2 assume a: "p1 = print_json v @ p2" "?tail = p2 @ q"
        have v: "parse_value g p1 = Some (v, p2)"
          using prefix_fuel[OF nv(1)] a(1) "1.prems"(4) f cons(1) by simp
        have "parse_array_rest g [v] p2 = None"
        proof (rule array_rest_prefix[OF _ nv(2) a(2) "1.prems"(3)])
          fix w' p' q' f' assume "w' \<in> set ws" "print_json w' = p' @ q'" "q' \<noteq> []" "length p' < f'"
          then show "parse_value f' p' = None" using "1.IH"[of w' p' q' f'] Cons nv(2) by (simp add: list_all_iff)
        next
          show "length p2 < g" using a(1) cons(1) "1.prems"(4) f by simp
        qed
        then show ?thesis using v cons(1) f print_json_delim[OF nv(1), of p2] a(1) by (simp add: is_ws_def)
      qed
    qed
  qed
next
  case (2 kvs)
  obtain g where f: "f = Suc g" using "2.prems"(4) by (cases f) auto
  show ?case
  proof (cases kvs)
    case Nil
    then have "p = [] \<or> p = ''{''" using "2.prems"(2,3) by (auto simp: append_eq_Cons_conv Cons_eq_append_conv)
    then show ?thesis using open_prefix[of "CHR ''{''" f] by (auto simp: skip_ws_def)
  next
    case (Cons kv ws)
    let ?tail = "concat (map (\<lambda>kw. CHR '','' # quote (fst kw) @ CHR '':'' # print_json (snd kw)) ws) @ ''}''"
    have nv: "json_nonum (snd kv)" "list_all (\<lambda>kv. json_nonum (snd kv)) ws" using "2.prems"(1) Cons by simp_all
    have h: "CHR ''{'' # ((quote (fst kv) @ CHR '':'' # print_json (snd kv)) @ ?tail) = p @ q"
      using "2.prems"(2) Cons by simp
    have ihv: "\<And>p q f. print_json (snd kv) = p @ q \<Longrightarrow> q \<noteq> [] \<Longrightarrow> length p < f \<Longrightarrow> parse_value f p = None"
      using "2.IH"[of kv] Cons nv(1) by simp
    show ?thesis
      using h "2.prems"(3) proof (cases rule: cons_prefix)
      case empty
      then show ?thesis by (simp add: skip_ws_def)
    next
      case (cons p1)
      show ?thesis
      proof (rule append_split[OF cons(2) "2.prems"(3)])
        fix q1 assume a: "quote (fst kv) @ CHR '':'' # print_json (snd kv) = p1 @ q1" "q1 \<noteq> []"
        show ?thesis
        proof (cases "p1 = []")
          case True
          then show ?thesis using cons open_prefix[of "CHR ''{''" f] by simp
        next
          case False
          have m: "parse_member g p1 = None"
            using member_prefix[OF ihv a] "2.prems"(4) f cons(1) by simp
          obtain p1' where "p1 = dq # p1'" using a(1) False by (cases p1) (auto simp: quote_def)
          then show ?thesis using m cons(1) f by (simp add: is_ws_def)
        qed
      next
        fix p2 assume a: "p1 = (quote (fst kv) @ CHR '':'' # print_json (snd kv)) @ p2" "?tail = p2 @ q"
        have m: "parse_member g p1 = Some ((fst kv, snd kv), p2)"
          using member_print_fuel[OF nv(1)] a(1) "2.prems"(4) f cons(1) by simp
        have "parse_object_rest g [kv] p2 = None"
        proof (rule object_rest_prefix[OF _ nv(2) a(2) "2.prems"(3)])
          fix kv' p' q' f' assume "kv' \<in> set ws" "print_json (snd kv') = p' @ q'" "q' \<noteq> []" "length p' < f'"
          then show "parse_value f' p' = None" using "2.IH"[of kv' p' q' f'] Cons nv(2) by (simp add: list_all_iff)
        next
          show "length p2 < g" using a(1) cons(1) "2.prems"(4) f by simp
        qed
        then show ?thesis using m cons(1) f a(1) by (simp add: is_ws_def quote_def)
      qed
    qed
  qed
next
  case (3 p q f)
  then have "p \<in> {[], ''n'', ''nu'', ''nul''}" by (auto simp: append_eq_Cons_conv Cons_eq_append_conv)
  then show ?case by (cases f) (auto simp: skip_ws_def is_ws_def)
next
  case (4 b p q f)
  then have "p \<in> {[], ''t'', ''tr'', ''tru'', ''f'', ''fa'', ''fal'', ''fals''}"
    by (cases b) (auto simp: append_eq_Cons_conv Cons_eq_append_conv)
  then show ?case by (cases f) (auto simp: skip_ws_def is_ws_def)
next
  case (5 n p q f)
  then show ?case by simp
next
  case (6 s p q f)
  have h: "dq # (concat (map escape_char s) @ [dq]) = p @ q" using "6.prems"(2) by (simp add: quote_def)
  show ?case
    using h "6.prems"(3) proof (cases rule: cons_prefix)
    case empty
    then show ?thesis by (cases f) (simp_all add: skip_ws_def)
  next
    case (cons p')
    then have "parse_string p' = None" using "6.prems"(3) by (intro string_prefix) simp
    then show ?thesis using cons by (cases f) (simp_all add: is_ws_def)
  qed
qed

text \<open>No proper prefix of a printed number-free value, the empty one included, is JSON.\<close>

lemma json_parse_prefix:
  "json_nonum v \<Longrightarrow> print_json v = p @ q \<Longrightarrow> q \<noteq> [] \<Longrightarrow> json_parse p = None"
  using value_prefix[of v p q "Suc (length p)"] by (simp add: json_parse_def)

end
