(* ===== verification/Store_Interleave.thy ===== *)
theory Store_Interleave
  imports Store Json_Prefix
begin

text \<open>
  \<open>createTask\<close> (src/main.go, lines 42--68) as the two steps a concurrent
  writer can separate: the read step (lines 43--58: create the file if it is
  missing, read it, decode it) and the write step (lines 59--67: append,
  encode, overwrite). Two processes committing at the same time are two such
  step sequences over the one file system, run in the order a schedule gives;
  each step is atomic. Spec section 4.5 states that the store is not safe
  under concurrent writers; the theorems below show exactly which
  interleavings lose a task. A crash inside \<open>os.WriteFile\<close>, which truncates
  the file before it writes, leaves a prefix of the new content: an empty one
  loses every earlier task silently, any other one blocks every later commit.
\<close>

definition ensure_file :: "fs \<Rightarrow> fs" where
  "ensure_file s = (if tasks_file s = None \<and> db_dir s then s\<lparr>tasks_file := Some []\<rparr> else s)"

definition create_read :: "fs \<Rightarrow> fs \<times> (store_error + task option list)" where
  "create_read s =
     (let s1 = ensure_file s
      in case tasks_file s1 of
           None \<Rightarrow> (s1, Inl ReadError)
         | Some b \<Rightarrow>
             (case (if b \<noteq> [] then unmarshal_tasks b else Some []) of
                None \<Rightarrow> (s1, Inl DecodeError)
              | Some ts \<Rightarrow> (s1, Inr ts)))"

definition create_write :: "task \<Rightarrow> task option list \<Rightarrow> fs \<Rightarrow> fs \<times> outcome" where
  "create_write t ts s =
     (case tasks_marshal (ts @ [Some t]) of
        None \<Rightarrow> (s, Fatal EncodeError)
      | Some data \<Rightarrow>
          (case write_file data s of
             None \<Rightarrow> (s, Fatal WriteError)
           | Some s2 \<Rightarrow> (s2, Done)))"

text \<open>A committing process: not started, holding what it read, or finished.\<close>

datatype proc = Start task | Holding task "task option list" | Finished outcome

fun proc_step :: "proc \<Rightarrow> fs \<Rightarrow> proc \<times> fs" where
  "proc_step (Start t) s =
     (case create_read s of (s1, Inl e) \<Rightarrow> (Finished (Fatal e), s1) | (s1, Inr ts) \<Rightarrow> (Holding t ts, s1))"
| "proc_step (Holding t ts) s = (let (s2, r) = create_write t ts s in (Finished r, s2))"
| "proc_step (Finished r) s = (Finished r, s)"

text \<open>A schedule names the process that takes the next step (\<open>True\<close> for the first).\<close>

fun run_sched :: "bool list \<Rightarrow> proc \<times> proc \<times> fs \<Rightarrow> proc \<times> proc \<times> fs" where
  "run_sched [] c = c"
| "run_sched (a # sch) (p, q, s) =
     run_sched sch
       (if a then (let (p', s') = proc_step p s in (p', q, s')) else (let (q', s') = proc_step q s in (p, q', s')))"

text \<open>\<open>os.WriteFile\<close> stopped by a crash after \<open>k\<close> characters of \<open>data\<close>.\<close>

definition write_crash :: "nat \<Rightarrow> string \<Rightarrow> fs \<Rightarrow> fs" where
  "write_crash k data s = (if db_dir s then s\<lparr>tasks_file := Some (take k data)\<rparr> else s)"

subsection \<open>The steps\<close>

lemma create_task_steps:
  "create_task t s = (case create_read s of (s1, Inl e) \<Rightarrow> (s1, Fatal e) | (s1, Inr ts) \<Rightarrow> create_write t ts s1)"
  by (simp add: create_task_def create_read_def create_write_def ensure_file_def Let_def
      split: option.split)

lemma ensure_file_stored:
  assumes "stored_tasks s = Some ts" "db_dir s"
  shows "create_read s = (ensure_file s, Inr ts)" "stored_tasks (ensure_file s) = Some ts"
    "db_dir (ensure_file s)" "ensure_file (ensure_file s) = ensure_file s"
  using assms
  by (auto simp: create_read_def ensure_file_def stored_tasks_def Let_def split: option.split)

lemma ensure_file_written [simp]: "ensure_file (s\<lparr>tasks_file := Some b\<rparr>) = s\<lparr>tasks_file := Some b\<rparr>"
  by (simp add: ensure_file_def)

lemma create_write_ok [simp]:
  "db_dir s \<Longrightarrow> times_ok (ts @ [Some t]) \<Longrightarrow>
   create_write t ts s = (s\<lparr>tasks_file := Some (marshal_tasks (ts @ [Some t]))\<rparr>, Done)"
  by (simp add: create_write_def write_file_def times_ok_marshal del: times_ok_snoc)

lemma write_twice [simp]: "s\<lparr>tasks_file := a, tasks_file := b\<rparr> = s\<lparr>tasks_file := b\<rparr>"
  by simp

subsection \<open>Interleaved commits\<close>

text \<open>
  C22. Two processes commit \<open>t1\<close> and \<open>t2\<close> to a file holding \<open>ts\<close>. Of
  the six interleavings of their steps only the two serial ones keep both
  tasks; in each of the four others the second writer overwrites the first
  writer's result, which is lost, though both processes report success.
\<close>

theorem interleaved_commits:
  assumes "stored_tasks s = Some ts" "times_ok ts" "task_times_ok t1" "task_times_ok t2" "db_dir s"
  shows "run_sched [True, True, False, False] (Start t1, Start t2, s)
           = (Finished Done, Finished Done, (ensure_file s)\<lparr>tasks_file := Some (marshal_tasks (ts @ [Some t1, Some t2]))\<rparr>)
         \<and> run_sched [False, False, True, True] (Start t1, Start t2, s)
           = (Finished Done, Finished Done, (ensure_file s)\<lparr>tasks_file := Some (marshal_tasks (ts @ [Some t2, Some t1]))\<rparr>)
         \<and> run_sched [True, False, True, False] (Start t1, Start t2, s)
           = (Finished Done, Finished Done, (ensure_file s)\<lparr>tasks_file := Some (marshal_tasks (ts @ [Some t2]))\<rparr>)
         \<and> run_sched [False, True, False, True] (Start t1, Start t2, s)
           = (Finished Done, Finished Done, (ensure_file s)\<lparr>tasks_file := Some (marshal_tasks (ts @ [Some t1]))\<rparr>)
         \<and> run_sched [True, False, False, True] (Start t1, Start t2, s)
           = (Finished Done, Finished Done, (ensure_file s)\<lparr>tasks_file := Some (marshal_tasks (ts @ [Some t1]))\<rparr>)
         \<and> run_sched [False, True, True, False] (Start t1, Start t2, s)
           = (Finished Done, Finished Done, (ensure_file s)\<lparr>tasks_file := Some (marshal_tasks (ts @ [Some t2]))\<rparr>)"
proof -
  note r = ensure_file_stored[OF assms(1,5)]
  have ok1: "times_ok (ts @ [Some t1])" and ok2: "times_ok (ts @ [Some t2])"
    using assms(2,3,4) by (auto simp: times_ok_def)
  have st1: "create_read ((ensure_file s)\<lparr>tasks_file := Some (marshal_tasks (ts @ [Some t1]))\<rparr>)
               = ((ensure_file s)\<lparr>tasks_file := Some (marshal_tasks (ts @ [Some t1]))\<rparr>, Inr (ts @ [Some t1]))"
    using ensure_file_stored(1)[OF stored_after_write[OF ok1] ] r(3) by simp
  have st2: "create_read ((ensure_file s)\<lparr>tasks_file := Some (marshal_tasks (ts @ [Some t2]))\<rparr>)
               = ((ensure_file s)\<lparr>tasks_file := Some (marshal_tasks (ts @ [Some t2]))\<rparr>, Inr (ts @ [Some t2]))"
    using ensure_file_stored(1)[OF stored_after_write[OF ok2] ] r(3) by simp
  have rr: "create_read (ensure_file s) = (ensure_file s, Inr ts)"
    using ensure_file_stored(1)[OF r(2,3)] r(4) by simp
  have ok12: "times_ok ((ts @ [Some t1]) @ [Some t2])" and ok21: "times_ok ((ts @ [Some t2]) @ [Some t1])"
    using assms(2,3,4) by (auto simp: times_ok_def)
  show ?thesis using r(1,3) rr st1 st2 ok1 ok2 ok12 ok21 by (simp del: times_ok_snoc)
qed

theorem interleaved_commits_witness:
  "run_sched [True, False, True, False]
     (Start (zero_task\<lparr>t_title := ''1''\<rparr>), Start (zero_task\<lparr>t_title := ''2''\<rparr>), \<lparr>db_dir = True, tasks_file = None\<rparr>)
   = (Finished Done, Finished Done,
      \<lparr>db_dir = True, tasks_file = Some (marshal_tasks [Some (zero_task\<lparr>t_title := ''2''\<rparr>)])\<rparr>)"
proof -
  have "stored_tasks \<lparr>db_dir = True, tasks_file = None\<rparr> = Some []" by (simp add: stored_tasks_def)
  moreover have "times_ok []" by (simp add: times_ok_def)
  ultimately show ?thesis
    using interleaved_commits[of "\<lparr>db_dir = True, tasks_file = None\<rparr>" "[]"
        "zero_task\<lparr>t_title := ''1''\<rparr>" "zero_task\<lparr>t_title := ''2''\<rparr>"]
    by (simp add: ensure_file_def)
qed

subsection \<open>A crash inside the write\<close>

text \<open>
  C23. A crash after \<open>os.WriteFile\<close> has written part of the new text
  (at least one character, not all) leaves a file that \<open>json.Unmarshal\<close>
  rejects: the next \<open>createTask\<close> stops at \<open>log.Fatal\<close> (line 56)
  without writing, so the file stays as it is and every later commit fails the
  same way (also a process that starts its read step there), and a reader finds
  no task list at all.
\<close>

theorem crash_mid_write_fails:
  assumes "db_dir s" "0 < k" "k < length (marshal_tasks ts)"
  shows "create_task t (write_crash k (marshal_tasks ts) s) = (write_crash k (marshal_tasks ts) s, Fatal DecodeError)
         \<and> proc_step (Start t) (write_crash k (marshal_tasks ts) s)
           = (Finished (Fatal DecodeError), write_crash k (marshal_tasks ts) s)
         \<and> stored_tasks (write_crash k (marshal_tasks ts) s) = None"
proof -
  have "json_parse (take k (marshal_tasks ts)) = None"
    using json_parse_prefix[of "tasks_json ts" "take k (marshal_tasks ts)" "drop k (marshal_tasks ts)"] assms(3)
    by (simp add: marshal_tasks_def)
  moreover have "take k (marshal_tasks ts) \<noteq> []" using assms(2,3) by simp
  ultimately have u: "unmarshal_tasks (take k (marshal_tasks ts)) = None"
    by (simp add: unmarshal_tasks_def)
  then have r: "create_read (write_crash k (marshal_tasks ts) s) = (write_crash k (marshal_tasks ts) s, Inl DecodeError)"
    using assms(1) \<open>take k (marshal_tasks ts) \<noteq> []\<close>
    by (simp add: create_read_def ensure_file_def write_crash_def)
  show ?thesis
    using r u assms(1) \<open>take k (marshal_tasks ts) \<noteq> []\<close>
    by (simp add: create_task_steps stored_tasks_def write_crash_def)
qed

theorem crash_mid_write_fails_witness:
  "create_task (zero_task\<lparr>t_title := ''b''\<rparr>)
     (write_crash 1 (marshal_tasks [Some (zero_task\<lparr>t_title := ''a''\<rparr>)]) \<lparr>db_dir = True, tasks_file = Some []\<rparr>)
   = (\<lparr>db_dir = True, tasks_file = Some ''[''\<rparr>, Fatal DecodeError)"
proof -
  have "length (marshal_tasks [Some (zero_task\<lparr>t_title := ''a''\<rparr>)]) > 1"
    by (simp add: marshal_tasks_def tasks_json_def)
  then show ?thesis
    using crash_mid_write_fails[of "\<lparr>db_dir = True, tasks_file = Some []\<rparr>" 1 "[Some (zero_task\<lparr>t_title := ''a''\<rparr>)]"
        "zero_task\<lparr>t_title := ''b''\<rparr>"]
    by (simp add: write_crash_def marshal_tasks_def tasks_json_def)
qed

end
