(* ===== verification/Store_Runs.thy ===== *)
theory Store_Runs
  imports Store
begin

text \<open>
  The store over the lifetime of the file: each run of the program calls
  \<open>createTask\<close> at most once (spec section 5), so the file's history is a
  sequence of such calls, one per run. \<open>run_commits\<close> is that sequence with
  the outcome of each run; \<open>store_reach\<close> the states a file system reaches
  from one without \<open>db/tasks.json\<close> by commits of tasks whose times
  \<open>Marshal\<close> writes. \<open>store_inv\<close> is the invariant of spec section 3: the
  file, if present and non-empty, decodes, and it holds exactly what
  \<open>Marshal\<close> writes for its content.
\<close>

fun run_commits :: "task list \<Rightarrow> fs \<Rightarrow> fs \<times> outcome list" where
  "run_commits [] s = (s, [])"
| "run_commits (t # us) s =
     (let (s1, r) = create_task t s; (s2, rs) = run_commits us s1 in (s2, r # rs))"

inductive store_reach :: "fs \<Rightarrow> bool" where
  fresh: "tasks_file s = None \<Longrightarrow> store_reach s"
| commit: "store_reach s \<Longrightarrow> task_times_ok t \<Longrightarrow> store_reach (fst (create_task t s))"

definition store_inv :: "fs \<Rightarrow> bool" where
  "store_inv s \<longleftrightarrow>
     (case stored_tasks s of
        None \<Rightarrow> False
      | Some ts \<Rightarrow> times_ok ts \<and> tasks_file s \<in> {None, Some [], Some (marshal_tasks ts)})"

lemma create_task_no_dir: "\<not> db_dir s \<Longrightarrow> fst (create_task t s) = s"
  by (simp add: create_task_def write_file_def Let_def split: option.split)

lemma store_inv_commit:
  assumes "store_inv s" "task_times_ok t"
  shows "store_inv (fst (create_task t s))"
proof (cases "db_dir s")
  case True
  from assms(1) obtain ts where st: "stored_tasks s = Some ts" and ok: "times_ok ts"
    by (auto simp: store_inv_def split: option.splits)
  have ok': "times_ok (ts @ [Some t])" using ok assms(2) by simp
  show ?thesis
    using create_task_reads_stored[OF st True ok assms(2)] stored_after_write[OF ok', of s] ok'
    by (simp add: store_inv_def)
next
  case False
  then show ?thesis using assms(1) by (simp add: create_task_no_dir)
qed

text \<open>
  C24. Any number of runs, each committing one task to a file that decodes,
  all succeed, and the file then holds the earlier tasks followed by the new
  ones in commit order (spec section 8 states it for two runs).
\<close>

theorem run_commits_append:
  assumes "db_dir s" "stored_tasks s = Some ts" "times_ok ts" "list_all task_times_ok us"
  shows "snd (run_commits us s) = replicate (length us) Done
         \<and> stored_tasks (fst (run_commits us s)) = Some (ts @ map Some us)"
  using assms
proof (induction us arbitrary: s ts)
  case Nil
  then show ?case by simp
next
  case (Cons u us)
  let ?s1 = "s\<lparr>tasks_file := Some (marshal_tasks (ts @ [Some u]))\<rparr>"
  have ok: "times_ok (ts @ [Some u])" using Cons.prems(3,4) by simp
  have c: "create_task u s = (?s1, Done)" using create_task_reads_stored[OF Cons.prems(2,1,3)] Cons.prems(4) by simp
  have ih: "snd (run_commits us ?s1) = replicate (length us) Done
            \<and> stored_tasks (fst (run_commits us ?s1)) = Some ((ts @ [Some u]) @ map Some us)"
    using Cons.IH[OF _ stored_after_write[OF ok] ok] Cons.prems(1,4) by simp
  then show ?case using c by (simp add: split_def)
qed

theorem run_commits_append_witness:
  "snd (run_commits [zero_task\<lparr>t_title := ''1''\<rparr>, zero_task\<lparr>t_title := ''2''\<rparr>, zero_task\<lparr>t_title := ''3''\<rparr>]
         \<lparr>db_dir = True, tasks_file = None\<rparr>) = [Done, Done, Done]
   \<and> stored_tasks (fst (run_commits [zero_task\<lparr>t_title := ''1''\<rparr>, zero_task\<lparr>t_title := ''2''\<rparr>, zero_task\<lparr>t_title := ''3''\<rparr>]
         \<lparr>db_dir = True, tasks_file = None\<rparr>))
     = Some [Some (zero_task\<lparr>t_title := ''1''\<rparr>), Some (zero_task\<lparr>t_title := ''2''\<rparr>), Some (zero_task\<lparr>t_title := ''3''\<rparr>)]"
  using run_commits_append[of "\<lparr>db_dir = True, tasks_file = None\<rparr>" "[]"
      "[zero_task\<lparr>t_title := ''1''\<rparr>, zero_task\<lparr>t_title := ''2''\<rparr>, zero_task\<lparr>t_title := ''3''\<rparr>]"]
  by (simp del: run_commits.simps add: stored_tasks_def times_ok_def)

text \<open>
  C25. The invariant of the task collection (spec section 3) holds in every
  state the store reaches: the file, if present and non-empty, decodes to a
  list of tasks, and it is byte for byte what \<open>Marshal\<close> writes for it.
\<close>

theorem store_reach_inv:
  assumes "store_reach s"
  shows "store_inv s"
  using assms
proof (induction rule: store_reach.induct)
  case (fresh s)
  then show ?case by (simp add: store_inv_def stored_tasks_def times_ok_def)
next
  case (commit s t)
  from commit.IH commit.hyps(2) show ?case by (rule store_inv_commit)
qed

theorem store_reach_inv_witness:
  "store_inv (fst (create_task (zero_task\<lparr>t_title := ''x''\<rparr>) \<lparr>db_dir = True, tasks_file = None\<rparr>))"
proof -
  have "store_reach (fst (create_task (zero_task\<lparr>t_title := ''x''\<rparr>) \<lparr>db_dir = True, tasks_file = None\<rparr>))"
    by (intro store_reach.commit store_reach.fresh) simp_all
  then show ?thesis by (rule store_reach_inv)
qed

end
