(* ===== verification/Store_Steps.thy ===== *)
theory Store_Steps
  imports Store_Interleave
begin

text \<open>
  \<open>createTask\<close> (src/main.go, lines 42--68) at the granularity of its
  system calls: \<open>os.Stat\<close> (line 43), \<open>os.Create\<close> (line 44, whose error
  is ignored and which truncates a file that exists by then), \<open>os.ReadFile\<close>
  with the decoding (lines 47--58), and the write (lines 59--67). A process
  remembers between its steps what \<open>os.Stat\<close> told it. Run alone, the
  four steps are \<open>createTask\<close>; interleaved with another process, the window
  between \<open>os.Stat\<close> and \<open>os.Create\<close> lets a process erase a commit that
  finished before it read the file.
\<close>

datatype fproc = FStart task | FStated task bool | FOpened task | FHolding task "task option list" | FDone outcome

fun fine_step :: "fproc \<Rightarrow> fs \<Rightarrow> fproc \<times> fs" where
  "fine_step (FStart t) s = (FStated t (tasks_file s = None), s)"
| "fine_step (FStated t missing) s =
     (FOpened t, if missing \<and> db_dir s then s\<lparr>tasks_file := Some []\<rparr> else s)"
| "fine_step (FOpened t) s =
     (case tasks_file s of
        None \<Rightarrow> (FDone (Fatal ReadError), s)
      | Some b \<Rightarrow>
          (case (if b \<noteq> [] then unmarshal_tasks b else Some []) of
             None \<Rightarrow> (FDone (Fatal DecodeError), s)
           | Some ts \<Rightarrow> (FHolding t ts, s)))"
| "fine_step (FHolding t ts) s = (let (s2, r) = create_write t ts s in (FDone r, s2))"
| "fine_step (FDone r) s = (FDone r, s)"

text \<open>A schedule names the process that takes the next step (\<open>True\<close> for the first).\<close>

fun fine_sched :: "bool list \<Rightarrow> fproc \<times> fproc \<times> fs \<Rightarrow> fproc \<times> fproc \<times> fs" where
  "fine_sched [] c = c"
| "fine_sched (a # sch) (p, q, s) =
     fine_sched sch
       (if a then (let (p', s') = fine_step p s in (p', q, s')) else (let (q', s') = fine_step q s in (p, q', s')))"

text \<open>
  The step model agrees with \<open>createTask\<close>: run without interference, the four steps of a process are
  \<open>createTask\<close>: the same outcome and the same file system, on every path,
  the fatal ones included (the other process is not touched).
\<close>

lemma fine_steps_refine:
  "fine_sched [True, True, True, True] (FStart t, q, s) = (FDone (snd (create_task t s)), q, fst (create_task t s))"
  by (simp add: create_task_def create_write_def Let_def split: option.split)

text \<open>
  C27. Two processes commit \<open>t1\<close> and \<open>t2\<close> where \<open>db/tasks.json\<close> does
  not exist yet. If the first runs \<open>os.Stat\<close>, then the second commits
  completely, the first one's \<open>os.Create\<close> truncates the file the second
  wrote, and its commit leaves only \<open>t1\<close>; both report success. Had the first
  process started after the second finished, both tasks would be kept.
\<close>

theorem stale_stat_erases_commit:
  assumes "db_dir s" "tasks_file s = None" "task_times_ok t1" "task_times_ok t2"
  shows "fine_sched [True, False, False, False, False, True, True, True] (FStart t1, FStart t2, s)
           = (FDone Done, FDone Done, s\<lparr>tasks_file := Some (marshal_tasks [Some t1])\<rparr>)
         \<and> stored_tasks (s\<lparr>tasks_file := Some (marshal_tasks [Some t1])\<rparr>) = Some [Some t1]
         \<and> fine_sched [False, False, False, False, True, True, True, True] (FStart t1, FStart t2, s)
           = (FDone Done, FDone Done, s\<lparr>tasks_file := Some (marshal_tasks [Some t2, Some t1])\<rparr>)"
proof -
  have ok1: "times_ok [Some t1]" and ok2: "times_ok [Some t2]"
    using assms(3,4) by (simp_all add: times_ok_def)
  have ok21: "times_ok [Some t2, Some t1]" using assms(3,4) by (simp add: times_ok_def)
  have u2: "unmarshal_tasks (marshal_tasks [Some t2]) = Some [Some t2]"
    using stored_after_write[OF ok2, of s] by (simp add: stored_tasks_def)
  show ?thesis
    using assms(1,2) u2 stored_after_write[OF ok1, of s] times_ok_marshal[OF ok1] times_ok_marshal[OF ok2]
      times_ok_marshal[OF ok21]
    by (simp add: create_write_def write_file_def)
qed

theorem stale_stat_erases_commit_witness:
  "fine_sched [True, False, False, False, False, True, True, True]
     (FStart (zero_task\<lparr>t_title := ''1''\<rparr>), FStart (zero_task\<lparr>t_title := ''2''\<rparr>), \<lparr>db_dir = True, tasks_file = None\<rparr>)
   = (FDone Done, FDone Done,
      \<lparr>db_dir = True, tasks_file = Some (marshal_tasks [Some (zero_task\<lparr>t_title := ''1''\<rparr>)])\<rparr>)"
  using stale_stat_erases_commit[of "\<lparr>db_dir = True, tasks_file = None\<rparr>"
      "zero_task\<lparr>t_title := ''1''\<rparr>" "zero_task\<lparr>t_title := ''2''\<rparr>"]
  by simp

end
