(* ===== verification/Spec2Isabelle.thy ===== *)
theory Spec2Isabelle
  imports Store View Form_Spec Json_Fuel Store_Interleave Store_Runs Store_Steps
begin

text \<open>
  \<^bold>\<open>Verification development for lmb.pad\<close> (one Go file, src/main.go): a
  terminal form, built on Bubble Tea, that collects the fields of a task, and a
  function \<open>createTask\<close> that appends a task to the JSON file
  \<open>db/tasks.json\<close>.

  \<^bold>\<open>The program and the theories.\<close> Key presses reach \<open>model.Update\<close>,
  which moves the focus, cycles the cursor mode, quits, or hands the key to the
  text inputs; \<open>View\<close> renders the model. \<open>createTask\<close> reads the file,
  decodes the task list, appends and writes it back; \<open>main\<close> runs the form
  and (its call being commented out) never calls \<open>createTask\<close>.
  \<^item> \<open>Prelude\<close>: the Bubble Tea vocabulary (\<open>cmd\<close> for \<open>tea.Cmd\<close>,
    \<open>tea_batch\<close>, \<open>msg\<close>/\<open>key\<close> for \<open>tea.KeyMsg\<close> with
    \<open>key_string\<close> = \<open>KeyMsg.String\<close>), the \<open>form_simps\<close> collection and
    shared list lemmas.
  \<^item> \<open>Cursor_Mode\<close>: \<open>cursor.Mode\<close> kept as a Go \<open>int\<close>, the cursor's
    \<open>SetMode\<close>/\<open>Focus\<close>/\<open>Blur\<close>, and \<open>next_mode\<close>, the \<open>ctrl+r\<close> step
    of \<open>Update\<close> (lines 148--151).
  \<^item> \<open>Text_Input\<close>: the bubbles \<open>textinput.Model\<close> as a record with
    \<open>New\<close>, \<open>Focus\<close>, \<open>Blur\<close> and \<open>Update\<close>; library code modelled from
    the spec (insertion under \<open>CharLimit\<close>, deletions, caret moves, the
    focus gate); its invariant \<open>ti_inv\<close> (caret inside the value, value within
    the limit).
  \<^item> \<open>Focus_Ring\<close>: \<open>next_focus\<close>, the index step of lines 168--179, for any
    number \<open>n\<close> of fields.
  \<^item> \<open>Form\<close>: the \<open>model\<close> struct, \<open>initialModel\<close>, \<open>Update\<close>
    (\<open>form_update\<close>, with \<open>cycle_mode\<close>, \<open>navigate\<close>, \<open>restyle\<close>) and
    \<open>updateInputs\<close>; the event loop \<open>tea_run\<close> (a run over a message list,
    stopping at the first command that quits); the invariant \<open>form_inv\<close>.
  \<^item> \<open>View\<close>: \<open>View\<close> as a render intent (text and prompt style per input,
    focused button, mode name), and \<open>derived_view\<close>, the same intent computed
    from the focus index, the mode and the texts alone (spec section 9).
  \<^item> \<open>Json\<close>: \<open>encoding/json\<close> as this program uses it, modelled from RFC
    8259 and Go's documented behaviour: a \<open>json\<close> datatype, the printer of
    \<open>Marshal\<close> and the validating parser of \<open>Unmarshal\<close> (fuel-driven, one
    unit per nested call, \<open>json_parse\<close> supplying one per input character,
    which the round-trip proof shows is enough for every printed value).
  \<^item> \<open>Go_Time\<close>: \<open>time.Time\<close> as its civil fields in its own zone and
    the zone offset (\<open>go_time\<close>); \<open>Time.MarshalJSON\<close> (\<open>time_text\<close>,
    the text of \<open>appendFormatRFC3339\<close>, and \<open>marshal_time\<close>, which adds the
    checks of \<open>appendStrictRFC3339\<close>: a four-digit year, a zone hour under
    24); \<open>Time.UnmarshalJSON\<close> (\<open>parse_time\<close>: the fast parser
    \<open>parse_rfc3339\<close> of \<open>parseRFC3339\<close>, then the fallback
    \<open>parse_legacy\<close> of \<open>time.Parse(RFC3339)\<close>, which takes a one-digit
    hour, a comma before the fraction and a zone up to \<open>+24:60\<close>). Lemmas:
    a valid time is written and read back unchanged (\<open>parse_time_text\<close>,
    \<open>marshal_time_valid\<close>), what the fast parser accepts is valid
    (\<open>parse_rfc3339_valid\<close>), a year of five digits is refused
    (\<open>marshal_time_wide_year\<close>).
  \<^item> \<open>Task\<close>: the \<open>Task\<close> and \<open>ToDo\<close> structs as records, their encoding
    (\<open>task_json\<close>) and Go's decoding into \<open>[]*Task\<close> (\<open>decode_tasks\<close>),
    \<open>marshal_tasks\<close>/\<open>unmarshal_tasks\<close> on bytes, and \<open>tasks_marshal\<close>,
    \<open>json.Marshal(tasks)\<close> with its error: it fails when a time of a task
    fails \<open>Time.MarshalJSON\<close>.
  \<^item> \<open>Store\<close>: \<open>createTask\<close> over a file-system state (does \<open>db\<close> exist,
    the bytes of \<open>db/tasks.json\<close>), each \<open>log.Fatal\<close> an outcome: the read
    error (line 49), the decode error (line 56), the encode error (line 62)
    and the write error (line 66).
  \<^item> \<open>Form_Spec\<close>: the abstract specification of the form (spec 4.1, 4.4):
    intents resolved from keys, a phase (\<open>Editing\<close>, \<open>Committed\<close>,
    \<open>Abandoned\<close>), the focus target, the mode and each field's value, caret
    and limit, with the step \<open>spec_step\<close>; the abstraction
    \<open>abs_model\<close>/\<open>abs_run\<close> of the code's state and run result.
  \<^item> \<open>Json_Fuel\<close>: every parser call returns a strictly shorter rest
    (\<open>parser_rest\<close>), hence the parser's answer does not depend on the fuel
    beyond the input length (\<open>fuel_indep\<close>, \<open>json_parse_fuel_enough\<close>).
  \<^item> \<open>Json_Prefix\<close>: no proper prefix of what \<open>Marshal\<close> writes (for
    a value without numbers) is accepted by \<open>Unmarshal\<close>; proved by
    splitting the prefix at each piece of the printed text
    (\<open>append_split\<close>) and following the parser through it.
  \<^item> \<open>Store_Interleave\<close>: \<open>createTask\<close> split into its read step
    (\<open>create_read\<close>, lines 43--58) and write step (\<open>create_write\<close>, lines
    59--67); two committing processes (\<open>proc_step\<close>) run under a schedule
    (\<open>run_sched\<close>), each step atomic; a crash inside \<open>os.WriteFile\<close>
    (\<open>write_crash\<close>).
  \<^item> \<open>Store_Runs\<close>: the file over many runs of the program, one
    \<open>createTask\<close> each: \<open>run_commits\<close> (the sequence with each run's
    outcome), the reachable states \<open>store_reach\<close> (inductive) and the
    collection invariant \<open>store_inv\<close> of spec section 3.
  \<^item> \<open>Store_Steps\<close>: \<open>createTask\<close> at the granularity of its system
    calls (\<open>fine_step\<close>: \<open>os.Stat\<close>, \<open>os.Create\<close>, \<open>os.ReadFile\<close>
    with decoding, the write), two processes under a schedule
    (\<open>fine_sched\<close>); \<open>fine_steps_refine\<close> checks that the four steps run
    alone are \<open>createTask\<close>.
  \<^item> this theory: \<open>Init\<close> and \<open>main\<close>. \<open>main\<close> runs the form and, the
    call to \<open>createTask\<close> being commented out, leaves the file system as it
    was; no property is stated about it, since that holds by its definition.

  \<^bold>\<open>What is proved\<close> (claims C1--C27, each after a text naming it):
  the form invariant is kept by every message and holds in every reachable
  state (C1, C3); the form quits exactly on \<open>esc\<close>/\<open>ctrl+c\<close> or \<open>enter\<close>
  on Submit (C2); the focus ring is a full forward cycle, wraps backward to
  Submit and never onto Cancel, and stays in range (C4--C6); a rune typed at the
  limit is a no-op (C7); mode cycling is a 3-cycle applied to every input
  (C8, C9); \<open>enter\<close> is \<open>tab\<close> except on Submit, and on Cancel wraps to the
  first field (C10, C11); a written task list with valid times reads back,
  also with white space around it (C12); \<open>createTask\<close> appends exactly
  (C13), creates a missing file (C14), and its fatal paths before the write
  leave the file system as they found it (C15); a time that
  \<open>time.Parse\<close> accepts and \<open>Time.MarshalJSON\<close> refuses, once stored,
  blocks every later commit (C16); a white-space file is fatal (C17); every
  reachable screen emphasises exactly one target (C18); the controller
  refines the specification's state machine on every run that does not
  activate Cancel (C19); a commit stays reachable from every state (C20);
  \<open>updateInputs\<close> is equivalent to updating the focused input only, as its
  comment claims (C21); of the six interleavings of two concurrent commits
  only the serial ones keep both tasks (C22); a crash that leaves a proper
  prefix of the file makes every later commit stop at \<open>json.Unmarshal\<close>
  without writing (C23); any number of sequential commits append in order
  (C24), and without crashes the file always decodes and holds exactly what
  \<open>Marshal\<close> wrote (C25); the rendered view of every reachable state is the
  one derived from the focus, the mode and the texts (C26); a process whose
  \<open>os.Stat\<close> precedes another's whole commit erases it with \<open>os.Create\<close>
  (C27).

  \<^bold>\<open>Bounds and fuel.\<close> The JSON parser's fuel is the input length plus one.
  It is enough for every input: each call consumes at least one character
  before it recurses, so the answer is the same with any larger fuel
  (\<open>Json_Fuel.json_parse_fuel_enough\<close>); for printed values
  \<open>parse_fuel_le_length\<close> gives the exact need. Runs of the form are over
  finite message lists, so no fuel is needed there. Times keep their fields
  as \<open>int\<close>/\<open>nat\<close>: the year is a Go \<open>int\<close>, and the nanoseconds, the
  only field near a bound, stay below \<open>10^9\<close> after parsing
  (\<open>frac_part_bound\<close>).

  \<^bold>\<open>Not modelled.\<close> Rendering with lipgloss (colours, layout), the
  terminal I/O of Bubble Tea and the asynchronous execution of commands (a
  command is a value; a quitting command ends the run before the next
  message); word-wise edits, paste and suggestions of \<open>textinput\<close>, which
  are library behaviour the spec does not describe (section 4.3 names only
  insertion and deletion at the caret under the limit), so they leave a field
  unchanged in the model; UTF-8 validation in \<open>encoding/json\<close> (the
  round trip is for the valid UTF-8 strings this program produces);
  JSON escapes inside a time string (Go's \<open>Time.UnmarshalJSON\<close> does not
  unescape them either, so such a string fails in both); the
  \<open>Location\<close> of a time (a parsed time keeps only its offset, as
  \<open>MarshalJSON\<close> writes only the offset); of \<open>time.Parse\<close>, the
  leap-second and fraction-length details beyond the RFC 3339 layout;
  interleavings inside a single system call (a partial \<open>os.ReadFile\<close>);
  each system call of \<open>createTask\<close> is one atomic step of \<open>fine_step\<close>, and a
  crash inside \<open>os.WriteFile\<close> is \<open>write_crash\<close>.
\<close>

definition form_init :: cmd where
  "form_init = BlinkCmd"

text \<open>
  \<open>main\<close> runs the program on the messages it receives and returns; the file
  system it was started in is not touched, because the call to
  \<open>createTask\<close> is commented out (lines 249--252).
\<close>

definition main_run :: "fs \<Rightarrow> msg list \<Rightarrow> run_result \<times> fs" where
  "main_run s es = (tea_run initial_model es, s)"

end
